theory Spec2Isabelle
  imports Main
begin

section \<open>Byte strings\<close>

text \<open>
  A Go \<^verbatim>\<open>[]byte\<close> and a Go \<^verbatim>\<open>string\<close> are both lists of 8-bit characters.
\<close>

type_synonym bytes = string

definition newline :: char where
  "newline = CHR 0x0A"

section \<open>Package time, in the UTC location\<close>

text \<open>
  A \<^verbatim>\<open>time.Time\<close> in the UTC location is the number of nanoseconds since the Unix epoch
  (an unbounded integer: the 64-bit range of Go is far outside the dates of any collection).
  A \<^verbatim>\<open>time.Duration\<close> is a number of nanoseconds.
\<close>

type_synonym Time = int
type_synonym Duration = int

definition Nanosecond :: Duration where
  "Nanosecond = 1"

definition Second :: Duration where
  "Second = 1000000000 * Nanosecond"

definition Minute :: Duration where
  "Minute = 60 * Second"

definition Hour :: Duration where
  "Hour = 60 * Minute"

text \<open>The zero \<^verbatim>\<open>time.Time{}\<close>: January 1, year 1, 00:00:00 UTC.\<close>

definition zeroTime :: Time where
  "zeroTime = - 62135596800 * Second"

text \<open>
  \<^verbatim>\<open>t.Truncate(d)\<close> rounds \<open>t\<close> down to a multiple of \<open>d\<close> since the zero time, and
  returns \<open>t\<close> unchanged when \<open>d <= 0\<close>.
\<close>

definition Truncate :: "Time \<Rightarrow> Duration \<Rightarrow> Time" where
  "Truncate t d = (if d \<le> 0 then t else t - (t - zeroTime) mod d)"

definition Before :: "Time \<Rightarrow> Time \<Rightarrow> bool" where
  "Before t u = (t < u)"

text \<open>
  The proleptic Gregorian calendar. \<open>civil z\<close> is the (year, month, day) of the day
  number \<open>z\<close> (days since 1970-01-01). The count is shifted to start on 0000-03-01, so
  that the leap day is the last day of a year, and split into cycles of 400 years
  (146097 days), centuries (36524 days), 4 years (1461 days) and years (365 days); the
  last century of a 400-year cycle and the last year of a 4-year cycle are one day longer,
  hence the \<open>min 3\<close>.
\<close>

definition civil :: "int \<Rightarrow> int \<times> int \<times> int" where
  "civil z =
    (let s = z + 719468;
         n400 = s div 146097;
         d1 = s mod 146097;
         n100 = min 3 (d1 div 36524);
         d2 = d1 - 36524 * n100;
         n4 = d2 div 1461;
         d3 = d2 mod 1461;
         n1 = min 3 (d3 div 365);
         d4 = d3 - 365 * n1;
         y0 = 400 * n400 + 100 * n100 + 4 * n4 + n1;
         mp = (5 * d4 + 2) div 153;
         dd = d4 - (153 * mp + 2) div 5 + 1;
         mm = (if mp < 10 then mp + 3 else mp - 9)
     in (if mm \<le> 2 then y0 + 1 else y0, mm, dd))"

text \<open>
  The day number of a (year, month, day) with the month in 1..12. It is linear in the day,
  so a day past the end of the month runs into the next month, as in \<^verbatim>\<open>time.Date\<close>.
\<close>

definition daysFromCivil :: "int \<Rightarrow> int \<Rightarrow> int \<Rightarrow> int" where
  "daysFromCivil y m d =
    (let y0 = (if m \<le> 2 then y - 1 else y);
         mp = (if m \<le> 2 then m + 9 else m - 3);
         yoe = y0 mod 400
     in (y0 div 400) * 146097 + 365 * yoe + yoe div 4 - yoe div 100
          + (153 * mp + 2) div 5 + d - 1 - 719468)"

text \<open>\<^verbatim>\<open>t.Date()\<close>, \<^verbatim>\<open>t.Clock()\<close> and \<^verbatim>\<open>t.Nanosecond()\<close>.\<close>

definition Date_of :: "Time \<Rightarrow> int \<times> int \<times> int" where
  "Date_of t = civil (t div (24 * Hour))"

definition Clock :: "Time \<Rightarrow> int \<times> int \<times> int" where
  "Clock t = (let sod = (t div Second) mod 86400
              in (sod div 3600, (sod mod 3600) div 60, sod mod 60))"

definition Nanosecond_of :: "Time \<Rightarrow> int" where
  "Nanosecond_of t = t mod Second"

text \<open>
  \<^verbatim>\<open>time.Date(year, month, day, hour, min, sec, nsec, time.UTC)\<close>: the month is normalised
  into 1..12, overflowing into the year; every other field enters linearly, which is what
  Go's carrying of out-of-range values amounts to.
\<close>

definition Date :: "int \<Rightarrow> int \<Rightarrow> int \<Rightarrow> int \<Rightarrow> int \<Rightarrow> int \<Rightarrow> int \<Rightarrow> Time" where
  "Date year month day hour minute sec nsec =
     (let m0 = month - 1;
          year' = year + m0 div 12;
          month' = m0 mod 12 + 1
      in daysFromCivil year' month' day * (24 * Hour)
           + hour * Hour + minute * Minute + sec * Second + nsec * Nanosecond)"

text \<open>
  \<^verbatim>\<open>t.AddDate(years, months, days)\<close> is
  \<^verbatim>\<open>Date(year+years, month+Month(months), day+days, hour, min, sec, nsec, loc)\<close>.
\<close>

definition AddDate :: "Time \<Rightarrow> int \<Rightarrow> int \<Rightarrow> int \<Rightarrow> Time" where
  "AddDate t years months days =
     (case Date_of t of (year, month, day) \<Rightarrow>
        case Clock t of (hour, minute, sec) \<Rightarrow>
          Date (year + years) (month + months) (day + days) hour minute sec (Nanosecond_of t))"

text \<open>
  \<^verbatim>\<open>t.Format(layout)\<close> for the three layouts the archiver uses: \<^verbatim>\<open>"2006"\<close> (the year,
  zero-padded to four digits), \<^verbatim>\<open>"01"\<close> (the month, two digits) and \<^verbatim>\<open>"02"\<close> (the day of
  the month, two digits). Any other layout is returned as it is (a layout without
  reference-time fields).
\<close>

fun digits :: "nat \<Rightarrow> string" where
  "digits n = (if n < 10 then [''0123456789'' ! n]
               else digits (n div 10) @ [''0123456789'' ! (n mod 10)])"

definition appendInt :: "int \<Rightarrow> nat \<Rightarrow> string" where
  "appendInt x width =
     (let ds = digits (nat \<bar>x\<bar>)
      in (if x < 0 then ''-'' else []) @ replicate (width - length ds) (CHR ''0'') @ ds)"

definition Format :: "Time \<Rightarrow> string \<Rightarrow> string" where
  "Format t layout =
     (case Date_of t of (year, month, day) \<Rightarrow>
        if layout = ''2006'' then appendInt year 4
        else if layout = ''01'' then appendInt month 2
        else if layout = ''02'' then appendInt day 2
        else layout)"

section \<open>Package path\<close>

text \<open>
  \<^verbatim>\<open>path.Join\<close> drops empty elements and joins the rest with a slash. The result is then
  cleaned, which changes nothing for elements without dots and slashes such as the
  date fields joined by the archiver.
\<close>

fun joinSlash :: "string list \<Rightarrow> string" where
  "joinSlash [] = []"
| "joinSlash [e] = e"
| "joinSlash (e # es) = e @ ''/'' @ joinSlash es"

definition path_Join :: "string list \<Rightarrow> string" where
  "path_Join elems = joinSlash (filter (\<lambda>e. e \<noteq> []) elems)"

section \<open>Errors\<close>

text \<open>
  A Go error value is a tree: \<^verbatim>\<open>errors.New(msg)\<close>, \<^verbatim>\<open>fmt.Errorf(format, err)\<close> with the
  verb \<^verbatim>\<open>%w\<close> (an error that wraps \<open>err\<close>), or the result of \<^verbatim>\<open>errors.Join\<close> (an error
  that wraps a list). \<open>None\<close> of \<open>error option\<close> is \<^verbatim>\<open>nil\<close>.
\<close>

datatype error =
    errors_New string
  | fmt_Errorf string error
  | joinError "error list"

text \<open>\<^verbatim>\<open>errors.Join(errs...)\<close> discards the nil values and returns nil when none is left.\<close>

definition errors_Join :: "error option list \<Rightarrow> error option" where
  "errors_Join errs =
     (let es = List.map_filter id errs
      in if es = [] then None else Some (joinError es))"

text \<open>
  \<^verbatim>\<open>errors.Is(err, target)\<close>: \<open>target\<close> is \<open>err\<close> or is found in the tree that \<open>err\<close> wraps.
\<close>

fun errors_Is :: "error \<Rightarrow> error \<Rightarrow> bool" where
  "errors_Is (errors_New m) target = (errors_New m = target)"
| "errors_Is (fmt_Errorf f e) target = (fmt_Errorf f e = target \<or> errors_Is e target)"
| "errors_Is (joinError es) target = (joinError es = target \<or> list_ex (\<lambda>e. errors_Is e target) es)"

definition context_Canceled :: error where
  "context_Canceled = errors_New ''context canceled''"

definition mongo_ErrNoDocuments :: error where
  "mongo_ErrNoDocuments = errors_New ''mongo: no documents in result''"

section \<open>The observable trace\<close>

text \<open>
  The archiver writes structured log records (\<^verbatim>\<open>log/slog\<close>) and calls its two
  collaborators. Both are recorded, in order, in one trace: the log records as the code
  writes them, and one entry for each call of a collaborator's method. A
  \<^verbatim>\<open>slog.String(key, t.String())\<close> attribute of a time is kept as the time itself.
\<close>

datatype level = LevelInfo | LevelWarn | LevelError

datatype attr =
    slog_String string string
  | slog_Int string int
  | slog_TimeString string Time

datatype event =
    Slog level string "attr list"
  | Call_EarliestCreatedAt
  | Call_FindAllFromDate Time
  | Call_DeleteAllFromDate Time
  | Call_Exists string
  | Call_Create string
  | Call_Write bytes
  | Call_Close
  | Call_gzip_Close

section \<open>The collaborators' interfaces\<close>

text \<open>
  \<^verbatim>\<open>source.StreamingResult\<close>: \<open>Iter\<close> is the sequence of documents the iterator yields
  when it is drained, \<open>Err\<close> the terminal error that \<^verbatim>\<open>Err()\<close> returns afterwards.
\<close>

record streamingResult =
  Iter :: "bytes list"
  Err :: "error option"

text \<open>
  The interface \<^verbatim>\<open>documentSource\<close> over a source state \<open>'s\<close>. The two queries read the
  state; the deletion returns the new state with its result \<^verbatim>\<open>(int, error)\<close>.
\<close>

record 's documentSource =
  FindAllFromDate :: "Time \<Rightarrow> 's \<Rightarrow> streamingResult"
  DeleteAllFromDate :: "Time \<Rightarrow> 's \<Rightarrow> (int \<times> error option) \<times> 's"
  EarliestCreatedAt :: "'s \<Rightarrow> Time \<times> error option"

text \<open>
  An \<^verbatim>\<open>io.WriteCloser\<close> handed out by a store writes into the store's state \<open>'f\<close>. The
  interface \<^verbatim>\<open>store\<close>: \<open>Create\<close> returns an error or a writer, with the new state;
  \<open>Exists\<close> reads the state and returns \<^verbatim>\<open>(bool, error)\<close>.
\<close>

record 'f writeCloser =
  Write :: "bytes \<Rightarrow> 'f \<Rightarrow> error option \<times> 'f"
  Close :: "'f \<Rightarrow> error option \<times> 'f"

record 'f store =
  Create :: "string \<Rightarrow> 'f \<Rightarrow> (error + 'f writeCloser) \<times> 'f"
  Exists :: "string \<Rightarrow> 'f \<Rightarrow> bool \<times> error option"

text \<open>
  The state a run works on: the state of the document source, the state of the store, and
  the trace so far.
\<close>

record ('s, 'f) world =
  src :: 's
  sto :: 'f
  events :: "event list"

definition emit :: "event \<Rightarrow> ('s, 'f) world \<Rightarrow> ('s, 'f) world" where
  "emit e w = w\<lparr>events := events w @ [e]\<rparr>"

text \<open>
  A \<^verbatim>\<open>context.Context\<close> is seen by the archiver at one place only, the \<^verbatim>\<open>select\<close> after
  each archived day, where the run waits for \<^verbatim>\<open>ctx.Done()\<close> or for \<^verbatim>\<open>time.After(a.delay)\<close>.
  For the \<open>k\<close>-th wait of a run, \<open>ctx k = Some (t, e)\<close> says that the channel \<^verbatim>\<open>ctx.Done()\<close>
  is closed a duration \<open>t\<close> after that wait begins (it is closed already when the wait
  begins, if \<open>t \<le> 0\<close>), and that \<^verbatim>\<open>ctx.Err()\<close> is \<open>e\<close> from then on; \<open>ctx k = None\<close> says that
  the channel stays open as long as that wait lasts.
\<close>

type_synonym Context = "int \<Rightarrow> (Duration \<times> error) option"

definition context_Background :: Context where
  "context_Background = (\<lambda>k. None)"

text \<open>
  What the Go runtime adds to the \<open>k\<close>-th wait: how long after its beginning the \<^verbatim>\<open>select\<close>
  looks at its channels for the first time, how much later than asked for the timer of
  \<^verbatim>\<open>time.After\<close> delivers, and which case the \<^verbatim>\<open>select\<close> takes when both can proceed
  (\<open>True\<close> for the first, the case of \<^verbatim>\<open>ctx.Done()\<close>).
\<close>

record runtime =
  latency :: "int \<Rightarrow> nat"
  overrun :: "int \<Rightarrow> nat"
  takesFirst :: "int \<Rightarrow> bool"

text \<open>
  The \<^verbatim>\<open>select\<close> of \<^verbatim>\<open>Run\<close>, as the \<open>k\<close>-th wait of a run with the delay \<open>d\<close>:

  \<^verbatim>\<open>select { case <-ctx.Done(): return ctx.Err(); case <-time.After(a.delay): }\<close>

  The timer's channel is ready from \<open>d\<close> and the timer's overrun after the wait begins, the
  channel \<^verbatim>\<open>ctx.Done()\<close> from its closing on. A case can proceed once its channel is ready
  and the \<^verbatim>\<open>select\<close> has begun to look. The \<^verbatim>\<open>select\<close> takes the case that can proceed first;
  when both can proceed at the same moment, the runtime chooses. The result is the error
  that \<^verbatim>\<open>Run\<close> returns from the first case, and \<open>None\<close> when the second case is taken and
  the loop goes on.
\<close>

definition select_Done :: "runtime \<Rightarrow> Context \<Rightarrow> Duration \<Rightarrow> int \<Rightarrow> error option" where
  "select_Done rt ctx d k =
     (let look = int (latency rt k);
          timerAt = max look (d + int (overrun rt k))
      in case ctx k of
           None \<Rightarrow> None
         | Some (t, e) \<Rightarrow>
             (let doneAt = max look t
              in if doneAt < timerAt then Some e
                 else if timerAt < doneAt then None
                 else if takesFirst rt k then Some e else None))"

section \<open>Package compress/gzip\<close>

text \<open>
  The compressor is a parameter. \<open>onWrite gz h p\<close> is the compressed output that a
  \<^verbatim>\<open>gzip.Writer\<close> which has consumed the input \<open>h\<close> hands to the underlying writer while
  it consumes \<open>p\<close> (the header and the blocks that are complete; often nothing), and
  \<open>onClose gz h\<close> is what \<^verbatim>\<open>Close\<close> hands over (the last block and the trailer).
\<close>

record gzipImpl =
  onWrite :: "bytes \<Rightarrow> bytes \<Rightarrow> bytes"
  onClose :: "bytes \<Rightarrow> bytes"

definition HuffmanOnly :: int where
  "HuffmanOnly = - 2"

definition DefaultCompression :: int where
  "DefaultCompression = - 1"

definition BestCompression :: int where
  "BestCompression = 9"

record 'f gzip_Writer =
  gz_w :: "'f writeCloser"
  gz_level :: int
  gz_input :: bytes
  gz_err :: "error option"
  gz_closed :: bool

definition gzip_NewWriterLevel :: "'f writeCloser \<Rightarrow> int \<Rightarrow> error + 'f gzip_Writer" where
  "gzip_NewWriterLevel wc lvl =
     (if lvl < HuffmanOnly \<or> lvl > BestCompression
      then Inl (errors_New ''gzip: invalid compression level'')
      else Inr \<lparr>gz_w = wc, gz_level = lvl, gz_input = [], gz_err = None, gz_closed = False\<rparr>)"

text \<open>One call of the underlying writer's \<^verbatim>\<open>Write\<close>, recorded in the trace.\<close>

definition sink_Write ::
  "'f writeCloser \<Rightarrow> bytes \<Rightarrow> ('s, 'f) world \<Rightarrow> error option \<times> ('s, 'f) world" where
  "sink_Write wc p w =
     (let w1 = emit (Call_Write p) w
      in case Write wc p (sto w1) of (err, f) \<Rightarrow> (err, w1\<lparr>sto := f\<rparr>))"

definition sink_Close ::
  "'f writeCloser \<Rightarrow> ('s, 'f) world \<Rightarrow> error option \<times> ('s, 'f) world" where
  "sink_Close wc w =
     (let w1 = emit Call_Close w
      in case Close wc (sto w1) of (err, f) \<Rightarrow> (err, w1\<lparr>sto := f\<rparr>))"

text \<open>
  \<^verbatim>\<open>(*gzip.Writer).Write\<close>: a writer that has failed returns its error again; otherwise the
  output that is due goes to the underlying writer, whose error sticks.
\<close>

definition gzip_Write ::
  "gzipImpl \<Rightarrow> 'f gzip_Writer \<Rightarrow> bytes \<Rightarrow> ('s, 'f) world
     \<Rightarrow> error option \<times> 'f gzip_Writer \<times> ('s, 'f) world" where
  "gzip_Write gz z p w =
     (case gz_err z of
        Some e \<Rightarrow> (Some e, z, w)
      | None \<Rightarrow>
          (let out = onWrite gz (gz_input z) p;
               z1 = z\<lparr>gz_input := gz_input z @ p\<rparr>
           in if out = [] then (None, z1, w)
              else (case sink_Write (gz_w z) out w of
                      (Some e, w1) \<Rightarrow> (Some e, z1\<lparr>gz_err := Some e\<rparr>, w1)
                    | (None, w1) \<Rightarrow> (None, z1, w1))))"

text \<open>
  \<^verbatim>\<open>(*gzip.Writer).Close\<close>: returns the sticky error of a failed writer, nil for a writer
  that is closed already; otherwise it flushes the rest of the stream to the underlying
  writer. It does not close the underlying writer.
\<close>

definition gzip_Close ::
  "gzipImpl \<Rightarrow> 'f gzip_Writer \<Rightarrow> ('s, 'f) world
     \<Rightarrow> error option \<times> 'f gzip_Writer \<times> ('s, 'f) world" where
  "gzip_Close gz z w0 =
     (let w = emit Call_gzip_Close w0
      in case gz_err z of
           Some e \<Rightarrow> (Some e, z, w)
         | None \<Rightarrow>
             if gz_closed z then (None, z, w)
             else (case sink_Write (gz_w z) (onClose gz (gz_input z)) w of
                     (err, w1) \<Rightarrow> (err, z\<lparr>gz_closed := True, gz_err := err\<rparr>, w1)))"

text \<open>
  \<^verbatim>\<open>io.Copy(gw, buf)\<close> from a \<^verbatim>\<open>bytes.Buffer\<close>: the buffer writes its whole content to the
  gzip writer in one \<^verbatim>\<open>Write\<close>.
\<close>

definition io_Copy ::
  "gzipImpl \<Rightarrow> 'f gzip_Writer \<Rightarrow> bytes \<Rightarrow> ('s, 'f) world
     \<Rightarrow> error option \<times> 'f gzip_Writer \<times> ('s, 'f) world" where
  "io_Copy gz z buf w = gzip_Write gz z buf w"

section \<open>One calendar day in UTC\<close>

text \<open>
  The loop of \<^verbatim>\<open>Run\<close> advances with \<^verbatim>\<open>date.AddDate(0, 0, 1)\<close>. In UTC that is exactly 24
  hours later; the loop's termination rests on it.
\<close>

lemma split_quotient:
  "0 \<le> r \<Longrightarrow> r < k \<Longrightarrow> (k * q + r) div k = (q::int) \<and> (k * q + r) mod k = r"
  by (smt (verit) div_mult_self2 div_pos_pos_trivial mod_mult_self2 mod_pos_pos_trivial
      add.commute add.right_neutral)

lemma year_days:
  fixes n400 n100 n4 n1 :: int
  assumes "0 \<le> n100" "n100 \<le> 3" "0 \<le> n4" "n4 \<le> 24" "0 \<le> n1" "n1 \<le> 3"
  defines "y0 \<equiv> 400 * n400 + 100 * n100 + 4 * n4 + n1"
  shows "(y0 div 400) * 146097 + 365 * (y0 mod 400) + (y0 mod 400) div 4 - (y0 mod 400) div 100
           = 146097 * n400 + 36524 * n100 + 1461 * n4 + 365 * n1"
proof -
  define yoe where "yoe = 100 * n100 + 4 * n4 + n1"
  have b: "0 \<le> yoe" "yoe < 400" using assms by (simp_all add: yoe_def)
  have y: "y0 = 400 * n400 + yoe" by (simp add: y0_def yoe_def)
  have q: "y0 div 400 = n400" and r: "y0 mod 400 = yoe"
    using split_quotient [OF b, of n400] y by simp_all
  have q4: "yoe div 4 = 25 * n100 + n4"
    using split_quotient [of n1 4 "25 * n100 + n4"] assms by (simp add: yoe_def)
  have q100: "yoe div 100 = n100"
    using split_quotient [of "4 * n4 + n1" 100 n100] assms by (simp add: yoe_def)
  show ?thesis by (simp add: q r q4 q100) (simp add: yoe_def)
qed

lemma cycle_split:
  fixes d1 :: int
  assumes "0 \<le> d1" "d1 < 146097"
  defines "n100 \<equiv> min 3 (d1 div 36524)"
  defines "d2 \<equiv> d1 - 36524 * n100"
  defines "n4 \<equiv> d2 div 1461"
  defines "d3 \<equiv> d2 mod 1461"
  defines "n1 \<equiv> min 3 (d3 div 365)"
  defines "d4 \<equiv> d3 - 365 * n1"
  shows "0 \<le> n100 \<and> n100 \<le> 3 \<and> 0 \<le> n4 \<and> n4 \<le> 24 \<and> 0 \<le> n1 \<and> n1 \<le> 3
         \<and> 0 \<le> d4 \<and> d4 \<le> 365 \<and> d1 = 36524 * n100 + 1461 * n4 + 365 * n1 + d4"
proof -
  have a: "0 \<le> n100" "n100 \<le> 3" using assms(1) by (simp_all add: n100_def)
  have b: "0 \<le> d2" "d2 \<le> 36524"
  proof -
    define q where "q = d1 div 36524"
    define r where "r = d1 mod 36524"
    have "d1 = 36524 * q + r" "0 \<le> r" "r < 36524" by (simp_all add: q_def r_def)
    then show "0 \<le> d2" "d2 \<le> 36524"
      using assms(1,2) unfolding d2_def n100_def q_def [symmetric] by (auto simp: min_def)
  qed
  have c: "0 \<le> n4" "n4 \<le> 24" using b unfolding n4_def by simp_all
  have d: "0 \<le> d3" "d3 < 1461" unfolding d3_def by simp_all
  have e: "0 \<le> n1" "n1 \<le> 3" using d by (simp_all add: n1_def)
  have f: "0 \<le> d4" "d4 \<le> 365"
  proof -
    define q where "q = d3 div 365"
    define r where "r = d3 mod 365"
    have "d3 = 365 * q + r" "0 \<le> r" "r < 365" by (simp_all add: q_def r_def)
    then show "0 \<le> d4" "d4 \<le> 365"
      using d unfolding d4_def n1_def q_def [symmetric] by (auto simp: min_def)
  qed
  have g: "d2 = 1461 * n4 + d3" unfolding n4_def d3_def by simp
  show ?thesis using a b c d e f g by (simp add: d2_def d4_def)
qed

lemma civil_roundtrip:
  assumes "civil z = (y, m, d)"
  shows "1 \<le> m \<and> m \<le> 12 \<and> daysFromCivil y m d = z"
proof -
  define s where "s = z + 719468"
  define n400 where "n400 = s div 146097"
  define d1 where "d1 = s mod 146097"
  define n100 where "n100 = min 3 (d1 div 36524)"
  define d2 where "d2 = d1 - 36524 * n100"
  define n4 where "n4 = d2 div 1461"
  define d3 where "d3 = d2 mod 1461"
  define n1 where "n1 = min 3 (d3 div 365)"
  define d4 where "d4 = d3 - 365 * n1"
  define y0 where "y0 = 400 * n400 + 100 * n100 + 4 * n4 + n1"
  define mp where "mp = (5 * d4 + 2) div 153"
  have d1: "0 \<le> d1" "d1 < 146097" by (simp_all add: d1_def)
  note c = cycle_split [OF d1, folded n100_def, folded d2_def, folded n4_def d3_def,
      folded n1_def, folded d4_def]
  have mp: "0 \<le> mp" "mp \<le> 11"
  proof -
    define r where "r = (5 * d4 + 2) mod 153"
    have "5 * d4 + 2 = 153 * mp + r" "0 \<le> r" "r < 153" by (simp_all add: mp_def r_def)
    then show "0 \<le> mp" "mp \<le> 11" using c by auto
  qed
  have res: "y = (if (if mp < 10 then mp + 3 else mp - 9) \<le> 2 then y0 + 1 else y0)"
    "m = (if mp < 10 then mp + 3 else mp - 9)"
    "d = d4 - (153 * mp + 2) div 5 + 1"
    using assms
    unfolding civil_def Let_def s_def [symmetric] n400_def [symmetric] d1_def [symmetric]
      n100_def [symmetric] d2_def [symmetric] n4_def [symmetric] d3_def [symmetric]
      n1_def [symmetric] d4_def [symmetric] y0_def [symmetric] mp_def [symmetric]
    by auto
  have m: "1 \<le> m" "m \<le> 12" using mp res(2) by (simp_all split: if_splits)
  have undo: "(if m \<le> 2 then y - 1 else y) = y0" "(if m \<le> 2 then m + 9 else m - 3) = mp"
    using mp res(1,2) by (simp_all split: if_splits)
  have yd: "(y0 div 400) * 146097 + 365 * (y0 mod 400) + (y0 mod 400) div 4 - (y0 mod 400) div 100
           = 146097 * n400 + 36524 * n100 + 1461 * n4 + 365 * n1"
    unfolding y0_def using c by (intro year_days) simp_all
  have s: "s = 146097 * n400 + d1" by (simp add: n400_def d1_def)
  have "daysFromCivil y m d = 146097 * n400 + 36524 * n100 + 1461 * n4 + 365 * n1 + d4 - 719468"
    unfolding daysFromCivil_def Let_def undo using yd by (simp add: res(3))
  also have "\<dots> = z" using c s by (simp add: s_def)
  finally show ?thesis using m by simp
qed

lemma clock_recompose:
  "(case Clock t of (hour, minute, sec) \<Rightarrow>
      hour * Hour + minute * Minute + sec * Second + Nanosecond_of t * Nanosecond)
   = t mod (24 * Hour)"
proof -
  define u where "u = t div 1000000000"
  define sod where "sod = u mod 86400"
  define som where "som = sod mod 3600"
  have a: "t mod 86400000000000 = 1000000000 * sod + t mod 1000000000"
    using mod_mult2_eq' [of t 1000000000 86400] by (simp add: sod_def u_def)
  have b: "sod = 3600 * (sod div 3600) + som" by (simp add: som_def)
  have "sod mod 60 = som mod 60"
    unfolding som_def by (simp add: mod_mod_cancel)
  then have c: "som = 60 * (som div 60) + sod mod 60" by simp
  have clock: "Clock t = (sod div 3600, som div 60, sod mod 60)"
    by (simp add: Clock_def Let_def Second_def Nanosecond_def sod_def u_def som_def)
  have "(sod div 3600) * 3600000000000 + (som div 60) * 60000000000
          + (sod mod 60) * 1000000000 + t mod 1000000000
        = 1000000000 * sod + t mod 1000000000"
    using b c by linarith
  then show ?thesis
    using a by (simp add: clock Nanosecond_of_def Hour_def Minute_def Second_def Nanosecond_def)
qed

lemma next_multiple: "(a div k + 1) * k + a mod k = a + (k::int)"
  by (simp add: algebra_simps)

lemma AddDate_one_day: "AddDate t 0 0 1 = t + 24 * Hour"
proof -
  obtain y m d where ymd: "civil (t div (24 * Hour)) = (y, m, d)"
    by (cases "civil (t div (24 * Hour))")
  note rt = civil_roundtrip [OF ymd]
  have m: "(m - 1) div 12 = 0" "(m - 1) mod 12 + 1 = m" using rt by simp_all
  have lin: "daysFromCivil y m (d + 1) = t div (24 * Hour) + 1"
    using rt by (simp add: daysFromCivil_def Let_def)
  obtain hh mi ss where cl: "Clock t = (hh, mi, ss)" by (cases "Clock t")
  have rc: "hh * Hour + mi * Minute + ss * Second + Nanosecond_of t * Nanosecond
              = t mod (24 * Hour)"
    using clock_recompose [of t] cl by simp
  have "AddDate t 0 0 1 = (t div (24 * Hour) + 1) * (24 * Hour) + t mod (24 * Hour)"
    unfolding AddDate_def Date_of_def ymd cl Date_def Let_def using m lin rc by simp
  also have "\<dots> = t + 24 * Hour"
    by (rule next_multiple)
  finally show ?thesis .
qed

section \<open>The archiver\<close>

record ('s, 'f) Archiver =
  source :: "'s documentSource"
  store :: "'f store"
  skipDelete :: bool
  ignoreFileExistsError :: bool
  delay :: Duration

definition NewArchiver ::
  "'s documentSource \<Rightarrow> 'f store \<Rightarrow> bool \<Rightarrow> bool \<Rightarrow> Duration \<Rightarrow> ('s, 'f) Archiver" where
  "NewArchiver source' storage skipDelete' ignoreFileExistsError' delay' =
     \<lparr>source = source', store = storage, skipDelete = skipDelete',
      ignoreFileExistsError = ignoreFileExistsError', delay = delay'\<rparr>"

text \<open>The name of a day's file: \<^verbatim>\<open>YYYY/MM/DD.json.gz\<close>.\<close>

definition fileName_of :: "Time \<Rightarrow> string" where
  "fileName_of date =
     path_Join [Format date ''2006'', Format date ''01'', Format date ''02'' @ ''.json.gz'']"

text \<open>
  The loop \<^verbatim>\<open>for doc := range res.Iter(ctx)\<close> of \<^verbatim>\<open>archiveDocuments\<close>: each document gets
  a newline appended and is copied to the gzip writer; the first error ends the loop, and
  the function with it. The counter \<open>i\<close> is returned with the writer.
\<close>

fun iterDocuments ::
  "gzipImpl \<Rightarrow> bytes list \<Rightarrow> 'f gzip_Writer \<Rightarrow> int \<Rightarrow> ('s, 'f) world
     \<Rightarrow> error option \<times> 'f gzip_Writer \<times> int \<times> ('s, 'f) world" where
  "iterDocuments gz [] gw i w = (None, gw, i, w)"
| "iterDocuments gz (doc # docs) gw i w =
     (case io_Copy gz gw (doc @ [newline]) w of
        (Some e, gw1, w1) \<Rightarrow> (Some e, gw1, i + 1, w1)
      | (None, gw1, w1) \<Rightarrow> iterDocuments gz docs gw1 (i + 1) w1)"

text \<open>
  The part of \<^verbatim>\<open>archiveDocuments\<close> that runs once both deferred closes are registered:
  the query, the loop, and the check of the terminal error. Its error is the value of the
  named result \<open>err\<close> when the deferred functions start.
\<close>

definition writeDocuments ::
  "gzipImpl \<Rightarrow> ('s, 'f) Archiver \<Rightarrow> Context \<Rightarrow> Time \<Rightarrow> 'f gzip_Writer \<Rightarrow> ('s, 'f) world
     \<Rightarrow> error option \<times> 'f gzip_Writer \<times> ('s, 'f) world" where
  "writeDocuments gz a ctx date gw w0 =
     (let w = emit (Call_FindAllFromDate date) w0;
          res = FindAllFromDate (source a) date (src w)
      in case iterDocuments gz (Iter res) gw 0 w of
           (Some e, gw1, i, w1) \<Rightarrow> (Some e, gw1, w1)
         | (None, gw1, i, w1) \<Rightarrow>
             (case Err res of
                Some e \<Rightarrow> (Some e, gw1, w1)
              | None \<Rightarrow>
                  (None, gw1, emit (Slog LevelInfo ''documents written'' [slog_Int ''total'' i]) w1)))"

text \<open>
  A deferred close: a close error \<open>cErr\<close> is wrapped and joined to the named result
  \<open>err\<close>; without one, \<open>err\<close> stays as it is.
\<close>

definition deferredClose :: "error option \<Rightarrow> string \<Rightarrow> error option \<Rightarrow> error option" where
  "deferredClose err format cErr =
     (case cErr of
        None \<Rightarrow> err
      | Some c \<Rightarrow> errors_Join [err, Some (fmt_Errorf format c)])"

text \<open>
  \<^verbatim>\<open>archiveDocuments\<close>, from the creation of the gzip writer on: on every return after it the
  deferred close of the gzip writer runs.
\<close>

definition writeAndCloseGzip ::
  "gzipImpl \<Rightarrow> ('s, 'f) Archiver \<Rightarrow> Context \<Rightarrow> Time \<Rightarrow> 'f writeCloser \<Rightarrow> ('s, 'f) world
     \<Rightarrow> error option \<times> ('s, 'f) world" where
  "writeAndCloseGzip gz a ctx date wc w =
     (case gzip_NewWriterLevel wc DefaultCompression of
        Inl e \<Rightarrow> (Some e, w)
      | Inr gw \<Rightarrow>
          (case writeDocuments gz a ctx date gw w of
             (err, gw1, w1) \<Rightarrow>
               (case gzip_Close gz gw1 w1 of
                  (cErr, gw2, w2) \<Rightarrow>
                    (deferredClose err ''failed to close gzip writer: %w'' cErr, w2))))"

definition archiveDocuments ::
  "gzipImpl \<Rightarrow> ('s, 'f) Archiver \<Rightarrow> Context \<Rightarrow> Time \<Rightarrow> ('s, 'f) world
     \<Rightarrow> error option \<times> ('s, 'f) world" where
  "archiveDocuments gz a ctx date w0 =
     (let fileName = fileName_of date;
          w1 = emit (Call_Exists fileName) w0
      in case Exists (store a) fileName (sto w1) of
           (ex, Some e) \<Rightarrow> (Some (fmt_Errorf ''failed to check if file exists: %w'' e), w1)
         | (ex, None) \<Rightarrow>
             if ex then
               (let w2 = emit (Slog LevelError ''target file already exists''
                                 [slog_String ''file'' fileName]) w1
                in if ignoreFileExistsError a
                   then (None, emit (Slog LevelWarn ''skipping documents write'' []) w2)
                   else (Some (errors_New ''target file exists''), w2))
             else
               (let w2 = emit (Slog LevelInfo ''writing to file''
                                 [slog_String ''fileName'' fileName]) w1;
                    w3 = emit (Call_Create fileName) w2
                in case Create (store a) fileName (sto w3) of
                     (Inl e, f) \<Rightarrow> (Some e, w3\<lparr>sto := f\<rparr>)
                   | (Inr wc, f) \<Rightarrow>
                       (case writeAndCloseGzip gz a ctx date wc (w3\<lparr>sto := f\<rparr>) of
                          (err, w4) \<Rightarrow>
                            (case sink_Close wc w4 of
                               (cErr, w5) \<Rightarrow>
                                 (deferredClose err ''failed to close file: %w'' cErr, w5)))))"

definition archiveDocumentsAndDelete ::
  "gzipImpl \<Rightarrow> ('s, 'f) Archiver \<Rightarrow> Context \<Rightarrow> Time \<Rightarrow> ('s, 'f) world
     \<Rightarrow> error option \<times> ('s, 'f) world" where
  "archiveDocumentsAndDelete gz a ctx date w0 =
     (case archiveDocuments gz a ctx date w0 of
        (Some e, w1) \<Rightarrow> (Some (fmt_Errorf ''failed to archive documents: %w'' e), w1)
      | (None, w1) \<Rightarrow>
          if \<not> skipDelete a then
            (let w2 = emit (Call_DeleteAllFromDate date) w1
             in case DeleteAllFromDate (source a) date (src w2) of
                  ((deleted, Some e), s) \<Rightarrow>
                    (Some (fmt_Errorf ''failed to delete documents: %w'' e), w2\<lparr>src := s\<rparr>)
                | ((deleted, None), s) \<Rightarrow>
                    (None, emit (Slog LevelInfo ''documents deleted'' [slog_Int ''total'' deleted])
                             (w2\<lparr>src := s\<rparr>)))
          else (None, w1))"

text \<open>
  The loop of \<^verbatim>\<open>Run\<close>, from the test \<^verbatim>\<open>date.Before(target)\<close> on, with the cursor \<open>date\<close>
  and the counter \<open>total\<close> (here \<open>total'\<close>) as arguments. The \<^verbatim>\<open>select\<close> after a day is the
  wait whose number is the counter's value after \<^verbatim>\<open>total++\<close>.
\<close>

function Run_loop ::
  "gzipImpl \<Rightarrow> runtime \<Rightarrow> ('s, 'f) Archiver \<Rightarrow> Context \<Rightarrow> Time \<Rightarrow> Time \<Rightarrow> int \<Rightarrow> ('s, 'f) world
     \<Rightarrow> error option \<times> ('s, 'f) world" where
  "Run_loop gz rt a ctx target date total' w =
     (if Before date target then
        (case archiveDocumentsAndDelete gz a ctx date
                (emit (Slog LevelInfo ''archiving'' [slog_TimeString ''date'' date]) w) of
           (Some e, w1) \<Rightarrow> (Some (fmt_Errorf ''archival failed: %w'' e), w1)
         | (None, w1) \<Rightarrow>
             (case select_Done rt ctx (delay a) (total' + 1) of
                Some c \<Rightarrow> (Some c, w1)
              | None \<Rightarrow> Run_loop gz rt a ctx target (AddDate date 0 0 1) (total' + 1) w1))
      else (None, emit (Slog LevelInfo ''target reached'' [slog_Int ''datesArchived'' total']) w))"
  by pat_completeness auto
termination
  by (relation "measure (\<lambda>(gz, rt, a, ctx, target, date, total', w). nat (target - date))")
    (auto simp: Before_def AddDate_one_day Hour_def Minute_def Second_def Nanosecond_def)

declare Run_loop.simps [simp del]

definition Run ::
  "gzipImpl \<Rightarrow> runtime \<Rightarrow> ('s, 'f) Archiver \<Rightarrow> Context \<Rightarrow> Time \<Rightarrow> ('s, 'f) world
     \<Rightarrow> error option \<times> ('s, 'f) world" where
  "Run gz rt a ctx target w0 =
     (let w1 = emit Call_EarliestCreatedAt w0
      in case EarliestCreatedAt (source a) (src w1) of
           (earliest, Some e) \<Rightarrow> (Some (fmt_Errorf ''failed to get earliest created at: %w'' e), w1)
         | (earliest, None) \<Rightarrow>
             Run_loop gz rt a ctx target (Truncate earliest (Hour * 24)) 0
               (emit (Slog LevelInfo ''archiver running''
                        [slog_TimeString ''target'' target, slog_TimeString ''earliest'' earliest])
                  w1))"

section \<open>The collaborators of the repository\<close>

subsection \<open>The MongoDB document source\<close>

text \<open>
  A collection is the list of its documents in cursor order. Of a document the source
  uses two things: its \<^verbatim>\<open>createdAt\<close> time, and the bytes that \<^verbatim>\<open>bson.MarshalExtJSON\<close> makes
  of it. The driver's side of the collection is one field: \<open>fault\<close> is the error that the
  driver's \<^verbatim>\<open>Find\<close>, \<^verbatim>\<open>FindOne\<close> and \<^verbatim>\<open>DeleteMany\<close> return while the connection is broken
  (\<open>None\<close> for a healthy connection). Documents without a \<^verbatim>\<open>createdAt\<close> date are not part
  of this model.
\<close>

record document =
  createdAt :: Time
  extJSON :: bytes

record collection =
  documents :: "document list"
  fault :: "error option"

text \<open>The filter \<^verbatim>\<open>{createdAt: {$gte: t, $lt: t.AddDate(0, 0, 1)}}\<close> of a date.\<close>

definition onDate :: "Time \<Rightarrow> document \<Rightarrow> bool" where
  "onDate date d =
     (let t = Truncate date (Hour * 24)
      in t \<le> createdAt d \<and> createdAt d < AddDate t 0 0 1)"

text \<open>
  \<^verbatim>\<open>FindAllFromDate\<close>: the error of \<^verbatim>\<open>Find\<close> is kept in the result, whose iterator then
  yields nothing; otherwise the iterator yields the matching documents in order.
\<close>

definition MongoDB_FindAllFromDate :: "Time \<Rightarrow> collection \<Rightarrow> streamingResult" where
  "MongoDB_FindAllFromDate date c =
     (case fault c of
        Some e \<Rightarrow> \<lparr>Iter = [], Err = Some e\<rparr>
      | None \<Rightarrow> \<lparr>Iter = map extJSON (filter (onDate date) (documents c)), Err = None\<rparr>)"

text \<open>
  \<^verbatim>\<open>EarliestCreatedAt\<close>: \<^verbatim>\<open>FindOne\<close> with the sort \<^verbatim>\<open>{createdAt: 1}\<close> gives the least
  \<^verbatim>\<open>createdAt\<close>; \<^verbatim>\<open>Decode\<close> returns the driver's error, or \<^verbatim>\<open>mongo.ErrNoDocuments\<close> when
  there is no document, and the method then returns the zero time with the error.
\<close>

definition MongoDB_EarliestCreatedAt :: "collection \<Rightarrow> Time \<times> error option" where
  "MongoDB_EarliestCreatedAt c =
     (case fault c of
        Some e \<Rightarrow> (zeroTime, Some e)
      | None \<Rightarrow>
          (case documents c of
             [] \<Rightarrow> (zeroTime, Some mongo_ErrNoDocuments)
           | d # ds \<Rightarrow> (fold (\<lambda>x m. min (createdAt x) m) ds (createdAt d), None)))"

definition MongoDB_DeleteAllFromDate ::
  "Time \<Rightarrow> collection \<Rightarrow> (int \<times> error option) \<times> collection" where
  "MongoDB_DeleteAllFromDate date c =
     (case fault c of
        Some e \<Rightarrow> ((0, Some e), c)
      | None \<Rightarrow>
          ((int (length (filter (onDate date) (documents c))), None),
           c\<lparr>documents := filter (\<lambda>d. \<not> onDate date d) (documents c)\<rparr>))"

definition MongoDB :: "collection documentSource" where
  "MongoDB =
     \<lparr>FindAllFromDate = MongoDB_FindAllFromDate,
      DeleteAllFromDate = MongoDB_DeleteAllFromDate,
      EarliestCreatedAt = MongoDB_EarliestCreatedAt\<rparr>"

subsection \<open>The in-memory document source of the archiver's tests\<close>

text \<open>
  \<^verbatim>\<open>mockDocumentSource\<close>: a Go map from a date to the documents added for it, here an
  association list with one entry for each key. A query and a deletion look the date up
  as it is given.
\<close>

type_synonym mockDocumentSource = "(Time \<times> bytes list) list"

definition newMockDocumentSource :: mockDocumentSource where
  "newMockDocumentSource = []"

definition add :: "Time \<Rightarrow> bytes \<Rightarrow> mockDocumentSource \<Rightarrow> mockDocumentSource" where
  "add date doc m =
     (case map_of m date of
        None \<Rightarrow> m @ [(date, [doc])]
      | Some ds \<Rightarrow> map (\<lambda>(k, v). if k = date then (k, v @ [doc]) else (k, v)) m)"

definition mock_FindAllFromDate :: "Time \<Rightarrow> mockDocumentSource \<Rightarrow> streamingResult" where
  "mock_FindAllFromDate date m =
     \<lparr>Iter = (case map_of m date of None \<Rightarrow> [] | Some ds \<Rightarrow> ds), Err = None\<rparr>"

definition mock_DeleteAllFromDate ::
  "Time \<Rightarrow> mockDocumentSource \<Rightarrow> (int \<times> error option) \<times> mockDocumentSource" where
  "mock_DeleteAllFromDate date m =
     ((int (length (case map_of m date of None \<Rightarrow> [] | Some ds \<Rightarrow> ds)), None),
      filter (\<lambda>(k, v). k \<noteq> date) m)"

definition mock_EarliestCreatedAt :: "mockDocumentSource \<Rightarrow> Time \<times> error option" where
  "mock_EarliestCreatedAt m =
     (if length m = 0 then (zeroTime, Some (errors_New ''no documents found''))
      else (fold (\<lambda>(t, v) earliest. if Before t earliest \<or> earliest = zeroTime then t else earliest)
              m zeroTime, None))"

definition mockSource :: "mockDocumentSource documentSource" where
  "mockSource =
     \<lparr>FindAllFromDate = mock_FindAllFromDate,
      DeleteAllFromDate = mock_DeleteAllFromDate,
      EarliestCreatedAt = mock_EarliestCreatedAt\<rparr>"

subsection \<open>The in-memory store of the archiver's tests\<close>

text \<open>
  \<^verbatim>\<open>mockStorage\<close>: a map from paths to buffers, and an error that every writer it hands
  out returns from \<^verbatim>\<open>Close\<close>. \<^verbatim>\<open>Create\<close> puts a new empty buffer at the path; the writer
  appends to that buffer and carries the close error that was set when it was created.
\<close>

record mockStorage =
  files :: "string \<rightharpoonup> bytes"
  forceCloseError :: "error option"

definition newMockStorage :: mockStorage where
  "newMockStorage = \<lparr>files = Map.empty, forceCloseError = None\<rparr>"

definition errCloser :: "string \<Rightarrow> error option \<Rightarrow> mockStorage writeCloser" where
  "errCloser path err =
     \<lparr>Write = (\<lambda>p m. (None, case files m path of
                                None \<Rightarrow> m
                              | Some buf \<Rightarrow> m\<lparr>files := (files m)(path \<mapsto> buf @ p)\<rparr>)),
      Close = (\<lambda>m. (err, m))\<rparr>"

definition mockStorage_Create ::
  "string \<Rightarrow> mockStorage \<Rightarrow> (error + mockStorage writeCloser) \<times> mockStorage" where
  "mockStorage_Create path m =
     (Inr (errCloser path (forceCloseError m)), m\<lparr>files := (files m)(path \<mapsto> [])\<rparr>)"

definition mockStorage_Exists :: "string \<Rightarrow> mockStorage \<Rightarrow> bool \<times> error option" where
  "mockStorage_Exists path m = (files m path \<noteq> None, None)"

definition mockStore :: "mockStorage store" where
  "mockStore = \<lparr>Create = mockStorage_Create, Exists = mockStorage_Exists\<rparr>"

subsection \<open>The discarding store\<close>

text \<open>
  \<^verbatim>\<open>storage.Noop\<close>: \<^verbatim>\<open>Create\<close> returns a writer onto \<^verbatim>\<open>io.Discard\<close>, \<^verbatim>\<open>Exists\<close> returns
  \<^verbatim>\<open>false, nil\<close>. It has no state of its own.
\<close>

definition nopCloser :: "'f writeCloser" where
  "nopCloser = \<lparr>Write = (\<lambda>p f. (None, f)), Close = (\<lambda>f. (None, f))\<rparr>"

definition Noop :: "'f store" where
  "Noop = \<lparr>Create = (\<lambda>path f. (Inr nopCloser, f)), Exists = (\<lambda>path f. (False, None))\<rparr>"

section \<open>Reading a trace and an archive\<close>

text \<open>
  What a healthy underlying writer receives, in all, from a gzip writer that has consumed
  \<open>h\<close>, is written the chunks \<open>ps\<close> one by one and is then closed.
\<close>

fun gzipOutput :: "gzipImpl \<Rightarrow> bytes \<Rightarrow> bytes list \<Rightarrow> bytes" where
  "gzipOutput gz h [] = onClose gz h"
| "gzipOutput gz h (p # ps) = onWrite gz h p @ gzipOutput gz (h @ p) ps"

text \<open>
  A compressor for examples: it stores its input as it is, so that reading it back is the
  identity.
\<close>

definition storedGzip :: gzipImpl where
  "storedGzip = \<lparr>onWrite = (\<lambda>h p. p), onClose = (\<lambda>h. [])\<rparr>"

definition storedGunzip :: "bytes \<Rightarrow> bytes option" where
  "storedGunzip bs = Some bs"

text \<open>
  Splitting a byte string on newlines: every newline ends a line, and a rest without a
  newline, if it is not empty, is a last line.
\<close>

fun linesFrom :: "bytes \<Rightarrow> bytes \<Rightarrow> bytes list" where
  "linesFrom acc [] = (if acc = [] then [] else [acc])"
| "linesFrom acc (c # cs) =
     (if c = newline then acc # linesFrom [] cs else linesFrom (acc @ [c]) cs)"

definition splitLines :: "bytes \<Rightarrow> bytes list" where
  "splitLines bs = linesFrom [] bs"

text \<open>The log records of a trace, and the dates of its calls.\<close>

definition isSlog :: "event \<Rightarrow> bool" where
  "isSlog e = (case e of Slog l m as \<Rightarrow> True | _ \<Rightarrow> False)"

definition logRecords :: "event list \<Rightarrow> event list" where
  "logRecords evs = filter isSlog evs"

definition archivingDate :: "event \<Rightarrow> Time option" where
  "archivingDate e =
     (case e of
        Slog l m as \<Rightarrow>
          (if m = ''archiving'' then
             (case as of [slog_TimeString k d] \<Rightarrow> Some d | _ \<Rightarrow> None)
           else None)
      | _ \<Rightarrow> None)"

definition daysProcessed :: "event list \<Rightarrow> Time list" where
  "daysProcessed evs = List.map_filter archivingDate evs"

definition deletionDate :: "event \<Rightarrow> Time option" where
  "deletionDate e = (case e of Call_DeleteAllFromDate d \<Rightarrow> Some d | _ \<Rightarrow> None)"

definition deletions :: "event list \<Rightarrow> Time list" where
  "deletions evs = List.map_filter deletionDate evs"

definition createdPath :: "event \<Rightarrow> string option" where
  "createdPath e = (case e of Call_Create p \<Rightarrow> Some p | _ \<Rightarrow> None)"

definition creations :: "event list \<Rightarrow> string list" where
  "creations evs = List.map_filter createdPath evs"

definition isWrite :: "event \<Rightarrow> bool" where
  "isWrite e = (case e of Call_Write p \<Rightarrow> True | _ \<Rightarrow> False)"

text \<open>
  The events of the streaming part of one day, of the whole archive step of one day, and
  of one day with its deletion.
\<close>

definition streamEvent :: "event \<Rightarrow> bool" where
  "streamEvent e =
     (case e of
        Call_Write p \<Rightarrow> True
      | Call_FindAllFromDate d \<Rightarrow> True
      | Slog l m as \<Rightarrow> m = ''documents written''
      | _ \<Rightarrow> False)"

definition archiveEvent :: "event \<Rightarrow> bool" where
  "archiveEvent e =
     (case e of
        Call_Write p \<Rightarrow> True
      | Call_FindAllFromDate d \<Rightarrow> True
      | Call_Exists p \<Rightarrow> True
      | Call_Create p \<Rightarrow> True
      | Call_Close \<Rightarrow> True
      | Call_gzip_Close \<Rightarrow> True
      | Slog l m as \<Rightarrow>
          m = ''documents written'' \<or> m = ''writing to file''
            \<or> m = ''target file already exists'' \<or> m = ''skipping documents write''
      | _ \<Rightarrow> False)"

definition dayEvent :: "event \<Rightarrow> bool" where
  "dayEvent e =
     (archiveEvent e \<or>
      (case e of
         Call_DeleteAllFromDate d \<Rightarrow> True
       | Slog l m as \<Rightarrow> m = ''documents deleted''
       | _ \<Rightarrow> False))"

text \<open>
  The chunks the archiver writes for a list of documents; the output that reaches a healthy
  underlying writer before the gzip writer is closed, and the calls of \<^verbatim>\<open>Write\<close> that
  carry it (a chunk that completes no output makes no call).
\<close>

definition withNewlines :: "bytes list \<Rightarrow> bytes list" where
  "withNewlines docs = map (\<lambda>doc. doc @ [newline]) docs"

fun gzipWritten :: "gzipImpl \<Rightarrow> bytes \<Rightarrow> bytes list \<Rightarrow> bytes" where
  "gzipWritten gz h [] = []"
| "gzipWritten gz h (p # ps) = onWrite gz h p @ gzipWritten gz (h @ p) ps"

fun writeEvents :: "gzipImpl \<Rightarrow> bytes \<Rightarrow> bytes list \<Rightarrow> event list" where
  "writeEvents gz h [] = []"
| "writeEvents gz h (p # ps) =
     (if onWrite gz h p = [] then [] else [Call_Write (onWrite gz h p)]) @ writeEvents gz (h @ p) ps"

text \<open>
  \<open>carries r x\<close>: the failure \<open>x\<close>, if there is one, is found in the returned error \<open>r\<close>.
\<close>

definition carries :: "error option \<Rightarrow> error option \<Rightarrow> bool" where
  "carries r x =
     (case x of
        None \<Rightarrow> True
      | Some e \<Rightarrow> (case r of None \<Rightarrow> False | Some re \<Rightarrow> errors_Is re e))"

text \<open>\<^verbatim>\<open>time.Date(2024, time.November, d, 0, 0, 0, 0, time.UTC)\<close>, the days of the examples.\<close>

definition nov :: "int \<Rightarrow> Time" where
  "nov d = Date 2024 11 d 0 0 0 0"

text \<open>
  The example collection: one document on 2024-11-01 (at 23:59:59), two on 2024-11-02, one
  on 2024-11-03 (at midnight) and one on 2024-11-04, with any contents; and the state of
  a run that starts on it with an empty in-memory store.
\<close>

definition docA :: "bytes \<Rightarrow> document" where
  "docA r = \<lparr>createdAt = nov 1 + (23 * Hour + 59 * Minute + 59 * Second), extJSON = r\<rparr>"

definition docB :: "bytes \<Rightarrow> document" where
  "docB r = \<lparr>createdAt = nov 2, extJSON = r\<rparr>"

definition docC :: "bytes \<Rightarrow> document" where
  "docC r = \<lparr>createdAt = nov 2 + 12 * Hour, extJSON = r\<rparr>"

definition docD :: "bytes \<Rightarrow> document" where
  "docD r = \<lparr>createdAt = nov 3, extJSON = r\<rparr>"

definition docE :: "bytes \<Rightarrow> document" where
  "docE r = \<lparr>createdAt = nov 4 + 8 * Hour, extJSON = r\<rparr>"

definition scenario :: "bytes \<Rightarrow> bytes \<Rightarrow> bytes \<Rightarrow> bytes \<Rightarrow> bytes \<Rightarrow> (collection, mockStorage) world" where
  "scenario r1 r2 r3 r4 r5 =
     \<lparr>src = \<lparr>documents = [docA r1, docB r2, docC r3, docD r4, docE r5], fault = None\<rparr>,
      sto = newMockStorage,
      events = []\<rparr>"

text \<open>
  A run in trouble: the connection to the collection is broken, and the store's writers fail
  to close.
\<close>

definition brokenRun :: "(collection, mockStorage) world" where
  "brokenRun =
     \<lparr>src = \<lparr>documents = [docA ''{}''], fault = Some (errors_New ''connection reset'')\<rparr>,
      sto = \<lparr>files = Map.empty, forceCloseError = Some (errors_New ''force-close-error'')\<rparr>,
      events = []\<rparr>"

text \<open>
  A run that finds the file of 2024-11-01 in the store already, with one document of that
  day in the in-memory source.
\<close>

definition archivedRun :: "(mockDocumentSource, mockStorage) world" where
  "archivedRun =
     \<lparr>src = add (nov 1) ''doc1'' newMockDocumentSource,
      sto = \<lparr>files = [''2024/11/01.json.gz'' \<mapsto> []], forceCloseError = None\<rparr>,
      events = []\<rparr>"

text \<open>
  A runtime that looks at once, whose timers deliver on time, and that takes the first case
  when both can proceed; and one that differs from it in taking the second case then.
\<close>

definition punctual :: runtime where
  "punctual = \<lparr>latency = (\<lambda>k. 0), overrun = (\<lambda>k. 0), takesFirst = (\<lambda>k. True)\<rparr>"

definition timerFirst :: runtime where
  "timerFirst = \<lparr>latency = (\<lambda>k. 0), overrun = (\<lambda>k. 0), takesFirst = (\<lambda>k. False)\<rparr>"

text \<open>
  A context that is cancelled five seconds after the first day is done, and one that is
  cancelled at the moment the first day is done. Both stay cancelled.
\<close>

definition cancelledAfterFirst :: Context where
  "cancelledAfterFirst = (\<lambda>k. Some (if k = 1 then 5 * Second else 0, context_Canceled))"

definition cancelledAtFirst :: Context where
  "cancelledAtFirst = (\<lambda>k. Some (0, context_Canceled))"

text \<open>
  A run on the in-memory source and store of the tests, with one document of 2024-11-01
  and one of 2024-11-02.
\<close>

definition twoDayRun :: "(mockDocumentSource, mockStorage) world" where
  "twoDayRun =
     \<lparr>src = add (nov 2) ''doc2'' (add (nov 1) ''doc1'' newMockDocumentSource),
      sto = newMockStorage,
      events = []\<rparr>"

text \<open>
  A run whose only document is of 2024-11-02, 12:00; it is used with a cutoff at 06:00 of
  the same day.
\<close>

definition middayRun :: "(collection, mockStorage) world" where
  "middayRun =
     \<lparr>src = \<lparr>documents = [docC ''c''], fault = None\<rparr>, sto = newMockStorage, events = []\<rparr>"

text \<open>The run in trouble again, on the discarding store.\<close>

definition discardedRun :: "(collection, unit) world" where
  "discardedRun =
     \<lparr>src = \<lparr>documents = [docA ''{}''], fault = Some (errors_New ''connection reset'')\<rparr>,
      sto = (),
      events = []\<rparr>"

text \<open>
  A run on the in-memory source of the tests, with one document of 2024-11-01 that has a
  newline in it.
\<close>

definition twoLineRun :: "(mockDocumentSource, mockStorage) world" where
  "twoLineRun =
     \<lparr>src = add (nov 1) (''a'' @ [newline] @ ''b'') newMockDocumentSource,
      sto = newMockStorage,
      events = []\<rparr>"

text \<open>
  The entries of a trace that say which day the run is at and what it asks of its
  collaborators for a day: the log record that opens a day, and the calls of
  \<^verbatim>\<open>EarliestCreatedAt\<close>, \<^verbatim>\<open>Exists\<close>, \<^verbatim>\<open>Create\<close>, \<^verbatim>\<open>FindAllFromDate\<close> and \<^verbatim>\<open>DeleteAllFromDate\<close>.
  The other log records, the writes and the closes are left out.
\<close>

definition isCall :: "event \<Rightarrow> bool" where
  "isCall e =
     (case e of
        Call_EarliestCreatedAt \<Rightarrow> True
      | Call_Exists p \<Rightarrow> True
      | Call_Create p \<Rightarrow> True
      | Call_FindAllFromDate d \<Rightarrow> True
      | Call_DeleteAllFromDate d \<Rightarrow> True
      | Slog l m as \<Rightarrow> m = ''archiving''
      | _ \<Rightarrow> False)"

definition calls :: "event list \<Rightarrow> event list" where
  "calls evs = filter isCall evs"

text \<open>
  The calls of one day, in the five forms they can take: the check whether the day's file
  exists; after it, unless the file exists, the creation of the file and, once it is
  created, the query for the day's documents; at the end, or not at all, the deletion of
  the day's documents. Every path is the name of the day's file and every date is the day.
\<close>

definition dayCalls :: "Time \<Rightarrow> event list \<Rightarrow> bool" where
  "dayCalls date cs =
     (cs = [Call_Exists (fileName_of date)]
      \<or> cs = [Call_Exists (fileName_of date), Call_DeleteAllFromDate date]
      \<or> cs = [Call_Exists (fileName_of date), Call_Create (fileName_of date)]
      \<or> cs = [Call_Exists (fileName_of date), Call_Create (fileName_of date),
               Call_FindAllFromDate date]
      \<or> cs = [Call_Exists (fileName_of date), Call_Create (fileName_of date),
               Call_FindAllFromDate date, Call_DeleteAllFromDate date])"

text \<open>A day in the trace: the log record that opens it, and then its calls.\<close>

definition dayTrace :: "Time \<Rightarrow> event list \<Rightarrow> event list" where
  "dayTrace date cs = Slog LevelInfo ''archiving'' [slog_TimeString ''date'' date] # cs"

text \<open>
  The first \<open>n\<close> values of the cursor \<open>date\<close> of the loop of \<^verbatim>\<open>Run\<close>, which starts at \<open>t\<close>
  and goes on by \<^verbatim>\<open>date.AddDate(0, 0, 1)\<close>.
\<close>

definition daysFrom :: "Time \<Rightarrow> nat \<Rightarrow> Time list" where
  "daysFrom t n = map (\<lambda>k. ((\<lambda>d. AddDate d 0 0 1) ^^ k) t) [0..<n]"

text \<open>
  What the loop of \<^verbatim>\<open>Run\<close>, started at the cursor \<open>date\<close> in the state \<open>w\<close>, has done when
  it ends with the result \<open>R\<close>: it went through \<open>n\<close> days with the calls \<open>css\<close> and
  deleted the documents of the days \<open>ds\<close>.
\<close>

definition loopTrace ::
  "('s, 'f) Archiver \<Rightarrow> Time \<Rightarrow> Time \<Rightarrow> ('s, 'f) world \<Rightarrow> error option \<times> ('s, 'f) world
     \<Rightarrow> nat \<Rightarrow> event list list \<Rightarrow> Time list \<Rightarrow> bool" where
  "loopTrace a target date w R n css ds =
     (calls (events (snd R)) = calls (events w) @ concat (map2 dayTrace (daysFrom date n) css)
      \<and> list_all2 dayCalls (daysFrom date n) css
      \<and> deletions (events (snd R)) = deletions (events w) @ ds
      \<and> (skipDelete a \<longrightarrow> ds = [])
      \<and> (\<not> skipDelete a \<longrightarrow> ds = daysFrom date n \<or> ds = butlast (daysFrom date n))
      \<and> (\<not> skipDelete a \<and> fst R = None \<longrightarrow> ds = daysFrom date n)
      \<and> src (snd R) = foldl (\<lambda>s d. snd (DeleteAllFromDate (source a) d s)) (src w) ds
      \<and> (\<forall>k<n. Before (date + int k * (24 * Hour)) target)
      \<and> (fst R = None \<longrightarrow> \<not> Before (date + int n * (24 * Hour)) target)
      \<and> (n = 0 \<longleftrightarrow> \<not> Before date target))"

text \<open>\<open>appended P w w'\<close>: the trace of \<open>w'\<close> is the trace of \<open>w\<close> and then events in \<open>P\<close>.\<close>

definition appended ::
  "(event \<Rightarrow> bool) \<Rightarrow> ('s, 'f) world \<Rightarrow> ('s, 'f) world \<Rightarrow> bool" where
  "appended P w w' = (\<exists>evs. events w' = events w @ evs \<and> list_all P evs)"

section \<open>Basic facts about the trace\<close>

lemma select_Done_Background [simp]: "select_Done rt context_Background d k = None"
  by (simp add: select_Done_def context_Background_def)

lemma emit_simps [simp]:
  "src (emit e w) = src w" "sto (emit e w) = sto w" "events (emit e w) = events w @ [e]"
  by (simp_all add: emit_def)

lemma appended_refl: "appended P w w"
  by (simp add: appended_def)

lemma appended_trans: "appended P w w1 \<Longrightarrow> appended P w1 w2 \<Longrightarrow> appended P w w2"
  by (auto simp: appended_def)

lemma appended_emit: "P e \<Longrightarrow> appended P w (emit e w)"
  by (simp add: appended_def)

lemma appended_mono: "appended P w w' \<Longrightarrow> (\<And>e. P e \<Longrightarrow> Q e) \<Longrightarrow> appended Q w w'"
  by (auto simp: appended_def list_all_iff)

lemma appended_sto: "appended P w w' \<Longrightarrow> appended P w (w'\<lparr>sto := f\<rparr>)"
  by (simp add: appended_def)

lemma appended_src: "appended P w w' \<Longrightarrow> appended P w (w'\<lparr>src := s\<rparr>)"
  by (simp add: appended_def)

lemma map_filter_append: "List.map_filter g (xs @ ys) = List.map_filter g xs @ List.map_filter g ys"
  by (simp add: List.map_filter_def)

lemma map_filter_none: "list_all P evs \<Longrightarrow> (\<And>e. P e \<Longrightarrow> g e = None) \<Longrightarrow> List.map_filter g evs = []"
  by (induction evs) (simp_all add: List.map_filter_def)

lemma appended_map_filter:
  "appended P w w' \<Longrightarrow> (\<And>e. P e \<Longrightarrow> g e = None)
     \<Longrightarrow> List.map_filter g (events w') = List.map_filter g (events w)"
  by (auto simp: appended_def map_filter_append map_filter_none)

lemma sink_Write_frame:
  "sink_Write wc p w = (err, w') \<Longrightarrow>
     src w' = src w \<and> events w' = events w @ [Call_Write p]
     \<and> sto w' = snd (Write wc p (sto w)) \<and> err = fst (Write wc p (sto w))"
  by (auto simp: sink_Write_def Let_def split: prod.splits)

lemma sink_Close_frame:
  "sink_Close wc w = (err, w') \<Longrightarrow>
     src w' = src w \<and> events w' = events w @ [Call_Close]
     \<and> sto w' = snd (Close wc (sto w)) \<and> err = fst (Close wc (sto w))"
  by (auto simp: sink_Close_def Let_def split: prod.splits)

lemma gzip_Write_frame:
  assumes "gzip_Write gz z p w = (err, z', w')"
  shows "src w' = src w \<and> appended isWrite w w' \<and> gz_w z' = gz_w z"
  using assms
  by (auto simp: gzip_Write_def Let_def appended_def isWrite_def
      split: option.splits if_splits prod.splits dest!: sink_Write_frame)

lemma iterDocuments_frame:
  "iterDocuments gz docs gw i w = (err, gw', i', w')
     \<Longrightarrow> src w' = src w \<and> appended isWrite w w' \<and> gz_w gw' = gz_w gw"
proof (induction docs arbitrary: gw i w)
  case Nil
  then show ?case by (simp add: appended_refl)
next
  case (Cons doc docs)
  obtain e1 gw1 w1 where c: "io_Copy gz gw (doc @ [newline]) w = (e1, gw1, w1)"
    by (cases "io_Copy gz gw (doc @ [newline]) w")
  then have f: "src w1 = src w" "appended isWrite w w1" "gz_w gw1 = gz_w gw"
    using gzip_Write_frame [of gz gw "doc @ [newline]" w e1 gw1 w1] by (simp_all add: io_Copy_def)
  show ?case
  proof (cases e1)
    case None
    with Cons.prems c have "iterDocuments gz docs gw1 (i + 1) w1 = (err, gw', i', w')" by simp
    from Cons.IH [OF this] f show ?thesis by (auto intro: appended_trans)
  next
    case (Some e)
    with Cons.prems c f show ?thesis by auto
  qed
qed

lemma writeDocuments_frame:
  assumes "writeDocuments gz a ctx date gw w = (err, gw', w')"
  shows "src w' = src w \<and> appended streamEvent w w' \<and> gz_w gw' = gz_w gw"
proof -
  define w0 where "w0 = emit (Call_FindAllFromDate date) w"
  define res where "res = FindAllFromDate (source a) date (src w0)"
  obtain e1 gw1 i1 w1 where it: "iterDocuments gz (Iter res) gw 0 w0 = (e1, gw1, i1, w1)"
    by (cases "iterDocuments gz (Iter res) gw 0 w0") auto
  note f = iterDocuments_frame [OF it]
  have a0: "appended streamEvent w w0"
    unfolding w0_def by (rule appended_emit) (simp add: streamEvent_def)
  have a1: "appended streamEvent w0 w1"
    using f by (auto intro: appended_mono simp: isWrite_def streamEvent_def split: event.splits)
  have a2: "appended streamEvent w1 (emit (Slog LevelInfo ''documents written'' [slog_Int ''total'' i1]) w1)"
    by (rule appended_emit) (simp add: streamEvent_def)
  show ?thesis
    using assms it f a0 a1 a2
    unfolding writeDocuments_def Let_def w0_def [symmetric] res_def [symmetric]
    by (auto split: option.splits intro: appended_trans simp: w0_def)
qed

lemma gzip_Close_frame:
  assumes "gzip_Close gz z w = (err, z', w')"
  shows "src w' = src w \<and> (\<exists>fl. events w' = events w @ Call_gzip_Close # fl \<and> list_all isWrite fl)"
  using assms
  by (auto simp: gzip_Close_def Let_def isWrite_def
      split: option.splits if_splits prod.splits dest!: sink_Write_frame)

lemma NewWriterLevel_default:
  "gzip_NewWriterLevel wc DefaultCompression =
     Inr \<lparr>gz_w = wc, gz_level = DefaultCompression, gz_input = [], gz_err = None, gz_closed = False\<rparr>"
  by (simp add: gzip_NewWriterLevel_def DefaultCompression_def HuffmanOnly_def BestCompression_def)

lemma errors_Is_refl: "errors_Is e e"
  by (cases e) simp_all

lemma deferredClose_carries:
  "carries (deferredClose err fmt cErr) cErr"
  "carries err x \<Longrightarrow> carries (deferredClose err fmt cErr) x"
  "deferredClose err fmt cErr = None \<longleftrightarrow> err = None \<and> cErr = None"
  by (auto simp: carries_def deferredClose_def errors_Join_def List.map_filter_def errors_Is_refl
      split: option.splits)

lemma carries_refl: "carries x x"
  by (simp add: carries_def errors_Is_refl split: option.splits)

lemma gzipOutput_split: "gzipOutput gz h ps = gzipWritten gz h ps @ onClose gz (h @ concat ps)"
  by (induction ps arbitrary: h) simp_all

lemma mock_Write:
  "Write (errCloser p err) bs m =
     (None, case files m p of None \<Rightarrow> m | Some buf \<Rightarrow> m\<lparr>files := (files m)(p \<mapsto> buf @ bs)\<rparr>)"
  "Close (errCloser p err) m = (err, m)"
  by (simp_all add: errCloser_def)

lemma mock_gzip_Write:
  assumes "gz_err z = None" "gz_w z = errCloser p err" "files (sto w) p = Some buf"
  shows "gzip_Write gz z bs w =
           (None, z\<lparr>gz_input := gz_input z @ bs\<rparr>,
            w\<lparr>sto := (sto w)\<lparr>files := (files (sto w))(p \<mapsto> buf @ onWrite gz (gz_input z) bs)\<rparr>,
              events := events w @ writeEvents gz (gz_input z) [bs]\<rparr>)"
proof (cases "onWrite gz (gz_input z) bs = []")
  case True
  have "(files (sto w))(p \<mapsto> buf) = files (sto w)" using assms(3) by (rule map_upd_triv)
  then show ?thesis using assms True by (simp add: gzip_Write_def Let_def)
next
  case False
  then show ?thesis using assms
    by (simp add: gzip_Write_def Let_def sink_Write_def mock_Write emit_def)
qed

lemma mock_iterDocuments:
  assumes "gz_err z = None" "gz_w z = errCloser p err" "files (sto w) p = Some buf"
  shows "iterDocuments gz docs z i w =
           (None, z\<lparr>gz_input := gz_input z @ concat (withNewlines docs)\<rparr>, i + int (length docs),
            w\<lparr>sto := (sto w)\<lparr>files := (files (sto w))
                         (p \<mapsto> buf @ gzipWritten gz (gz_input z) (withNewlines docs))\<rparr>,
              events := events w @ writeEvents gz (gz_input z) (withNewlines docs)\<rparr>)"
  using assms
proof (induction docs arbitrary: z i w buf)
  case Nil
  have "(files (sto w))(p \<mapsto> buf) = files (sto w)" using Nil(3) by (rule map_upd_triv)
  then show ?case by (simp add: withNewlines_def)
next
  case (Cons doc docs)
  define out where "out = onWrite gz (gz_input z) (doc @ [newline])"
  define z1 where "z1 = z\<lparr>gz_input := gz_input z @ doc @ [newline]\<rparr>"
  define w1 where "w1 = w\<lparr>sto := (sto w)\<lparr>files := (files (sto w))(p \<mapsto> buf @ out)\<rparr>,
                          events := events w @ writeEvents gz (gz_input z) [doc @ [newline]]\<rparr>"
  have step: "io_Copy gz z (doc @ [newline]) w = (None, z1, w1)"
    unfolding io_Copy_def z1_def w1_def out_def
    by (rule mock_gzip_Write [OF Cons.prems])
  have z1: "gz_err z1 = None" "gz_w z1 = errCloser p err"
    using Cons.prems by (simp_all add: z1_def)
  have w1: "files (sto w1) p = Some (buf @ out)" by (simp add: w1_def)
  note ih = Cons.IH [OF z1 w1, of "i + 1"]
  have "iterDocuments gz (doc # docs) z i w = iterDocuments gz docs z1 (i + 1) w1"
    by (simp add: step)
  also have "\<dots> = (None, z1\<lparr>gz_input := gz_input z1 @ concat (withNewlines docs)\<rparr>,
            i + 1 + int (length docs),
            w1\<lparr>sto := (sto w1)\<lparr>files := (files (sto w1))
                         (p \<mapsto> (buf @ out) @ gzipWritten gz (gz_input z1) (withNewlines docs))\<rparr>,
              events := events w1 @ writeEvents gz (gz_input z1) (withNewlines docs)\<rparr>)"
    by (rule ih)
  also have "\<dots> = (None, z\<lparr>gz_input := gz_input z @ concat (withNewlines (doc # docs))\<rparr>,
            i + int (length (doc # docs)),
            w\<lparr>sto := (sto w)\<lparr>files := (files (sto w))
                         (p \<mapsto> buf @ gzipWritten gz (gz_input z) (withNewlines (doc # docs)))\<rparr>,
              events := events w @ writeEvents gz (gz_input z) (withNewlines (doc # docs))\<rparr>)"
    by (simp add: z1_def w1_def out_def withNewlines_def)
  finally show ?case .
qed


lemma mock_writeDocuments:
  assumes "gz_w z = errCloser p err" "gz_err z = None" "files (sto w) p = Some buf"
    and "FindAllFromDate (source a) date (src w) = res"
  shows "writeDocuments gz a ctx date z w =
           (Err res, z\<lparr>gz_input := gz_input z @ concat (withNewlines (Iter res))\<rparr>,
            w\<lparr>sto := (sto w)\<lparr>files := (files (sto w))
                         (p \<mapsto> buf @ gzipWritten gz (gz_input z) (withNewlines (Iter res)))\<rparr>,
              events := events w @ [Call_FindAllFromDate date]
                 @ writeEvents gz (gz_input z) (withNewlines (Iter res))
                 @ (case Err res of
                      None \<Rightarrow> [Slog LevelInfo ''documents written''
                                  [slog_Int ''total'' (int (length (Iter res)))]]
                    | Some e \<Rightarrow> [])\<rparr>)"
proof -
  define w0 where "w0 = emit (Call_FindAllFromDate date) w"
  have w0: "files (sto w0) p = Some buf" by (simp add: w0_def assms(3))
  note it = mock_iterDocuments [OF assms(2) assms(1) w0, of gz "Iter res" 0]
  have s0: "src w0 = src w" by (simp add: w0_def)
  show ?thesis
    unfolding writeDocuments_def Let_def w0_def [symmetric] s0 assms(4) it
    by (simp add: w0_def emit_def split: option.splits)
qed

lemma mock_gzip_Close:
  assumes "gz_w z = errCloser p err" "gz_err z = None" "\<not> gz_closed z" "files (sto w) p = Some buf"
  shows "gzip_Close gz z w =
           (None, z\<lparr>gz_closed := True, gz_err := None\<rparr>,
            w\<lparr>sto := (sto w)\<lparr>files := (files (sto w))(p \<mapsto> buf @ onClose gz (gz_input z))\<rparr>,
              events := events w @ [Call_gzip_Close, Call_Write (onClose gz (gz_input z))]\<rparr>)"
  using assms
  by (simp add: gzip_Close_def Let_def sink_Write_def mock_Write emit_def)

lemma deferredClose_None [simp]: "deferredClose err format None = err"
  by (simp add: deferredClose_def)

lemma mock_archiveDocuments:
  assumes st: "store a = mockStore"
    and absent: "files (sto w) (fileName_of date) = None"
    and find: "FindAllFromDate (source a) date (src w) = res"
  shows "archiveDocuments gz a ctx date w =
     (deferredClose (Err res) ''failed to close file: %w'' (forceCloseError (sto w)),
      w\<lparr>sto := (sto w)\<lparr>files := (files (sto w))
                   (fileName_of date \<mapsto> gzipOutput gz [] (withNewlines (Iter res)))\<rparr>,
        events := events w
          @ [Call_Exists (fileName_of date),
             Slog LevelInfo ''writing to file'' [slog_String ''fileName'' (fileName_of date)],
             Call_Create (fileName_of date),
             Call_FindAllFromDate date]
          @ writeEvents gz [] (withNewlines (Iter res))
          @ (case Err res of
               None \<Rightarrow> [Slog LevelInfo ''documents written''
                           [slog_Int ''total'' (int (length (Iter res)))]]
             | Some e \<Rightarrow> [])
          @ [Call_gzip_Close, Call_Write (onClose gz (concat (withNewlines (Iter res)))),
             Call_Close]\<rparr>)"
proof -
  define p where "p = fileName_of date"
  define err where "err = forceCloseError (sto w)"
  define wc where "wc = errCloser p err"
  define z where "z = \<lparr>gz_w = wc, gz_level = DefaultCompression, gz_input = [], gz_err = None,
                       gz_closed = False\<rparr>"
  define wC where "wC = (emit (Call_Create p)
                  (emit (Slog LevelInfo ''writing to file'' [slog_String ''fileName'' p])
                     (emit (Call_Exists p) w)))\<lparr>sto := (sto w)\<lparr>files := (files (sto w))(p \<mapsto> [])\<rparr>\<rparr>"
  have z: "gz_w z = errCloser p err" "gz_err z = None" "\<not> gz_closed z" "gz_input z = []"
    by (simp_all add: z_def wc_def)
  have wC: "files (sto wC) p = Some []" "src wC = src w" by (simp_all add: wC_def)
  define z1 where "z1 = z\<lparr>gz_input := gz_input z @ concat (withNewlines (Iter res))\<rparr>"
  define w1 where "w1 = wC\<lparr>sto := (sto wC)\<lparr>files := (files (sto wC))
                         (p \<mapsto> [] @ gzipWritten gz (gz_input z) (withNewlines (Iter res)))\<rparr>,
              events := events wC @ [Call_FindAllFromDate date]
                 @ writeEvents gz (gz_input z) (withNewlines (Iter res))
                 @ (case Err res of
                      None \<Rightarrow> [Slog LevelInfo ''documents written''
                                  [slog_Int ''total'' (int (length (Iter res)))]]
                    | Some e \<Rightarrow> [])\<rparr>"
  have wd: "writeDocuments gz a ctx date z wC = (Err res, z1, w1)"
    unfolding z1_def w1_def
    by (rule mock_writeDocuments [OF z(1,2) wC(1)]) (simp add: wC(2) find)
  have z1: "gz_w z1 = errCloser p err" "gz_err z1 = None" "\<not> gz_closed z1"
    "gz_input z1 = concat (withNewlines (Iter res))"
    using z by (simp_all add: z1_def)
  have w1: "files (sto w1) p = Some (gzipWritten gz [] (withNewlines (Iter res)))"
    by (simp add: w1_def z(4))
  note gc = mock_gzip_Close [OF z1(1,2,3) w1, of gz]
  have ex: "Exists (store a) p (sto (emit (Call_Exists p) w)) = (False, None)"
    using absent by (simp add: st mockStore_def mockStorage_Exists_def p_def)
  have cr: "Create (store a) p (sto w) = (Inr wc, (sto w)\<lparr>files := (files (sto w))(p \<mapsto> [])\<rparr>)"
    by (simp add: st mockStore_def mockStorage_Create_def wc_def err_def)
  have "archiveDocuments gz a ctx date w =
          (case gzip_Close gz z1 w1 of
             (cErr, gw2, w2) \<Rightarrow>
               (case sink_Close wc w2 of
                  (cErr', w5) \<Rightarrow>
                    (deferredClose (deferredClose (Err res) ''failed to close gzip writer: %w'' cErr)
                       ''failed to close file: %w'' cErr', w5)))"
    unfolding archiveDocuments_def Let_def p_def [symmetric]
    using ex cr wd
    by (simp add: writeAndCloseGzip_def NewWriterLevel_default z_def [symmetric] wC_def [symmetric]
        split: prod.splits)
  also have "\<dots> = (deferredClose (Err res) ''failed to close file: %w'' err,
      w\<lparr>sto := (sto w)\<lparr>files := (files (sto w))
                   (p \<mapsto> gzipOutput gz [] (withNewlines (Iter res)))\<rparr>,
        events := events w
          @ [Call_Exists p,
             Slog LevelInfo ''writing to file'' [slog_String ''fileName'' p],
             Call_Create p,
             Call_FindAllFromDate date]
          @ writeEvents gz [] (withNewlines (Iter res))
          @ (case Err res of
               None \<Rightarrow> [Slog LevelInfo ''documents written''
                           [slog_Int ''total'' (int (length (Iter res)))]]
             | Some e \<Rightarrow> [])
          @ [Call_gzip_Close, Call_Write (onClose gz (concat (withNewlines (Iter res)))),
             Call_Close]\<rparr>)"
    unfolding gc
    by (simp add: sink_Close_def Let_def wc_def mock_Write emit_def z1(4)
        w1_def wC_def z(4) gzipOutput_split)
  finally show ?thesis by (simp add: p_def err_def)
qed

section \<open>Evaluating the examples\<close>

lemma nov_val: "nov d = (20027 + d) * (24 * Hour)"
  by (simp add: nov_def Date_def daysFromCivil_def Let_def)

lemma fileName_nov:
  "fileName_of (nov 1) = ''2024/11/01.json.gz''"
  "fileName_of (nov 2) = ''2024/11/02.json.gz''"
  "fileName_of (nov 3) = ''2024/11/03.json.gz''"
  "fileName_of (nov 4) = ''2024/11/04.json.gz''"
  by code_simp+

lemma Truncate_day:
  assumes "0 \<le> x" "x < 24 * Hour"
  shows "Truncate (k * (24 * Hour) + x) (Hour * 24) = k * (24 * Hour)"
proof -
  have z: "zeroTime = - 719162 * (24 * Hour)"
    by (simp add: zeroTime_def Hour_def Minute_def Second_def Nanosecond_def)
  have "(k * (24 * Hour) + x - zeroTime) mod (24 * Hour) = (x + (k + 719162) * (24 * Hour)) mod (24 * Hour)"
    by (simp add: z algebra_simps)
  also have "\<dots> = x mod (24 * Hour)" by (rule mod_mult_self1)
  also have "\<dots> = x" using assms by simp
  finally have "(k * (24 * Hour) + x - zeroTime) mod (Hour * 24) = x" by (simp add: mult.commute)
  moreover have "\<not> Hour * 24 \<le> 0" by (simp add: Hour_def Minute_def Second_def Nanosecond_def)
  ultimately show ?thesis by (simp add: Truncate_def)
qed

lemma Truncate_nov: "0 \<le> x \<Longrightarrow> x < 24 * Hour \<Longrightarrow> Truncate (nov d + x) (Hour * 24) = nov d"
  unfolding nov_val by (rule Truncate_day)

lemma AddDate_nov: "AddDate (nov d) 0 0 1 = nov (d + 1)"
  by (simp add: AddDate_one_day nov_val algebra_simps)

lemma Before_nov: "Before (nov d) (nov e) = (d < e)"
  by (simp add: Before_def nov_val Hour_def Minute_def Second_def Nanosecond_def)


lemmas mock_archive_eq = mock_archiveDocuments [OF _ _ refl]

lemma onDate_nov:
  "onDate (nov d) doc = (nov d \<le> createdAt doc \<and> createdAt doc < nov (d + 1))"
  using Truncate_nov [of 0 d] by (simp add: onDate_def Let_def AddDate_nov Hour_def Minute_def Second_def Nanosecond_def)

lemma logRecords_simps [simp]:
  "logRecords [] = []"
  "logRecords (xs @ ys) = logRecords xs @ logRecords ys"
  "logRecords (Slog l m as # xs) = Slog l m as # logRecords xs"
  "logRecords (Call_EarliestCreatedAt # xs) = logRecords xs"
  "logRecords (Call_FindAllFromDate d # xs) = logRecords xs"
  "logRecords (Call_DeleteAllFromDate d # xs) = logRecords xs"
  "logRecords (Call_Exists p # xs) = logRecords xs"
  "logRecords (Call_Create p # xs) = logRecords xs"
  "logRecords (Call_Write bs # xs) = logRecords xs"
  "logRecords (Call_Close # xs) = logRecords xs"
  "logRecords (Call_gzip_Close # xs) = logRecords xs"
  by (simp_all add: logRecords_def isSlog_def)

lemma logRecords_writeEvents [simp]: "logRecords (writeEvents gz h ps) = []"
  by (induction ps arbitrary: h) simp_all

lemmas doc_defs = docA_def docB_def docC_def docD_def docE_def

lemmas unit_defs = Hour_def Minute_def Second_def Nanosecond_def

lemma extJSON_docs [simp]:
  "extJSON (docA r) = r" "extJSON (docB r) = r" "extJSON (docC r) = r"
  "extJSON (docD r) = r" "extJSON (docE r) = r"
  by (simp_all add: doc_defs)

lemma onDate_docs [simp]:
  "onDate (nov 1) (docA r)" "\<not> onDate (nov 1) (docB r)" "\<not> onDate (nov 1) (docC r)"
  "\<not> onDate (nov 1) (docD r)" "\<not> onDate (nov 1) (docE r)"
  "\<not> onDate (nov 2) (docA r)" "onDate (nov 2) (docB r)" "onDate (nov 2) (docC r)"
  "\<not> onDate (nov 2) (docD r)" "\<not> onDate (nov 2) (docE r)"
  unfolding onDate_nov by (simp_all add: doc_defs nov_val unit_defs)

lemma earliest_scenario:
  "MongoDB_EarliestCreatedAt \<lparr>documents = [docA r1, docB r2, docC r3, docD r4, docE r5], fault = None\<rparr>
     = (createdAt (docA r1), None)"
  by (simp add: MongoDB_EarliestCreatedAt_def doc_defs nov_val unit_defs)

lemma trunc_scenario: "Truncate (createdAt (docA r)) (Hour * 24) = nov 1"
  unfolding docA_def by (simp, rule Truncate_nov) (simp_all add: unit_defs)

lemma deletions_simps [simp]:
  "deletions [] = []"
  "deletions (xs @ ys) = deletions xs @ deletions ys"
  "deletions (Slog l m as # xs) = deletions xs"
  "deletions (Call_EarliestCreatedAt # xs) = deletions xs"
  "deletions (Call_FindAllFromDate d # xs) = deletions xs"
  "deletions (Call_DeleteAllFromDate d # xs) = d # deletions xs"
  "deletions (Call_Exists p # xs) = deletions xs"
  "deletions (Call_Create p # xs) = deletions xs"
  "deletions (Call_Write bs # xs) = deletions xs"
  "deletions (Call_Close # xs) = deletions xs"
  "deletions (Call_gzip_Close # xs) = deletions xs"
  by (simp_all add: deletions_def deletionDate_def List.map_filter_def)

lemma deletions_writeEvents [simp]: "deletions (writeEvents gz h ps) = []"
  by (induction ps arbitrary: h) simp_all

lemma creations_simps [simp]:
  "creations [] = []"
  "creations (xs @ ys) = creations xs @ creations ys"
  "creations (Slog l m as # xs) = creations xs"
  "creations (Call_EarliestCreatedAt # xs) = creations xs"
  "creations (Call_FindAllFromDate d # xs) = creations xs"
  "creations (Call_DeleteAllFromDate d # xs) = creations xs"
  "creations (Call_Exists p # xs) = creations xs"
  "creations (Call_Create p # xs) = p # creations xs"
  "creations (Call_Write bs # xs) = creations xs"
  "creations (Call_Close # xs) = creations xs"
  "creations (Call_gzip_Close # xs) = creations xs"
  by (simp_all add: creations_def createdPath_def List.map_filter_def)

lemma creations_writeEvents [simp]: "creations (writeEvents gz h ps) = []"
  by (induction ps arbitrary: h) simp_all

lemmas run_eval =
  Run_def NewArchiver_def MongoDB_def Before_nov archiveDocumentsAndDelete_def mock_archive_eq
  fileName_nov newMockStorage_def MongoDB_FindAllFromDate_def MongoDB_DeleteAllFromDate_def
  AddDate_nov withNewlines_def emit_def
  Run_loop.simps [where date = "nov 1"] Run_loop.simps [where date = "nov 2"]
  Run_loop.simps [where date = "nov 3"] Run_loop.simps [where date = "nov 4"]

lemma Truncate_nov0: "Truncate (nov d) (Hour * 24) = nov d"
  using Truncate_nov [of 0 d] by (simp add: unit_defs)

lemma archivedRun_src: "src archivedRun = [(nov 1, [''doc1''])]"
  by (simp add: archivedRun_def add_def newMockDocumentSource_def)

lemma mock_earliest_one: "mock_EarliestCreatedAt [(nov 1, ds)] = (nov 1, None)"
  by (simp add: mock_EarliestCreatedAt_def)

lemma nov_neq: "(nov d = nov e) = (d = e)"
  by (simp add: nov_val unit_defs)

lemma nov_not_zero: "0 \<le> d \<Longrightarrow> nov d \<noteq> zeroTime"
  by (simp add: nov_val zeroTime_def unit_defs)

lemma twoDayRun_eq:
  "twoDayRun = \<lparr>src = [(nov 1, [''doc1'']), (nov 2, [''doc2''])], sto = newMockStorage, events = []\<rparr>"
  by (simp add: twoDayRun_def add_def newMockDocumentSource_def nov_neq)

lemma mock_earliest_two: "mock_EarliestCreatedAt [(nov 1, ds), (nov 2, ds')] = (nov 1, None)"
  by (simp add: mock_EarliestCreatedAt_def Before_nov nov_not_zero)

section \<open>What one day and the loop add to the trace\<close>

lemma writeAndCloseGzip_frame:
  assumes "writeAndCloseGzip gz a ctx date wc w = (err, w')"
  shows "src w' = src w \<and> appended archiveEvent w w'"
proof -
  define z where "z = \<lparr>gz_w = wc, gz_level = DefaultCompression, gz_input = [], gz_err = None,
                       gz_closed = False\<rparr>"
  obtain e1 z1 w1 where wd: "writeDocuments gz a ctx date z w = (e1, z1, w1)"
    by (cases "writeDocuments gz a ctx date z w")
  obtain e2 z2 w2 where gc: "gzip_Close gz z1 w1 = (e2, z2, w2)"
    by (cases "gzip_Close gz z1 w1")
  have w': "w' = w2"
    using assms wd gc by (simp add: writeAndCloseGzip_def NewWriterLevel_default z_def)
  have a1: "appended archiveEvent w w1"
    using writeDocuments_frame [OF wd]
    by (auto intro: appended_mono simp: streamEvent_def archiveEvent_def split: event.splits)
  have a2: "appended archiveEvent w1 w2"
    using gzip_Close_frame [OF gc]
    by (auto simp: appended_def archiveEvent_def isWrite_def list_all_iff split: event.splits)
  show ?thesis
    using writeDocuments_frame [OF wd] gzip_Close_frame [OF gc] a1 a2 w'
    by (auto intro: appended_trans)
qed

lemma archiveDocuments_frame:
  assumes "archiveDocuments gz a ctx date w = (err, w')"
  shows "src w' = src w \<and> appended archiveEvent w w'"
proof -
  define p where "p = fileName_of date"
  define w1 where "w1 = emit (Call_Exists p) w"
  define w2x where "w2x = emit (Slog LevelError ''target file already exists''
                                 [slog_String ''file'' p]) w1"
  define w2 where "w2 = emit (Slog LevelInfo ''writing to file'' [slog_String ''fileName'' p]) w1"
  define w3 where "w3 = emit (Call_Create p) w2"
  have a1: "appended archiveEvent w w1" "src w1 = src w"
    unfolding w1_def by (simp_all add: appended_emit archiveEvent_def)
  have a2x: "appended archiveEvent w1 w2x" "src w2x = src w1"
    unfolding w2x_def by (simp_all add: appended_emit archiveEvent_def)
  have a2y: "appended archiveEvent w2x (emit (Slog LevelWarn ''skipping documents write'' []) w2x)"
    by (simp add: appended_emit archiveEvent_def)
  have a2: "appended archiveEvent w1 w2" "src w2 = src w1"
    unfolding w2_def by (simp_all add: appended_emit archiveEvent_def)
  have a3: "appended archiveEvent w2 w3" "src w3 = src w2"
    unfolding w3_def by (simp_all add: appended_emit archiveEvent_def)
  have a03: "appended archiveEvent w w3"
    using a1 a2 a3 by (blast intro: appended_trans)
  have st: "sto w1 = sto w" "sto w2 = sto w" "sto w3 = sto w"
    by (simp_all add: w1_def w2_def w3_def)
  obtain ex xe where ex: "Exists (store a) p (sto w) = (ex, xe)"
    by (cases "Exists (store a) p (sto w)")
  show ?thesis
  proof (cases xe)
    case (Some e)
    with assms ex a1 show ?thesis
      by (auto simp: archiveDocuments_def Let_def p_def [symmetric] w1_def [symmetric] st)
  next
    case None
    show ?thesis
    proof (cases ex)
      case True
      with None assms ex a1 a2x a2y show ?thesis
        by (auto simp: archiveDocuments_def Let_def p_def [symmetric] w1_def [symmetric]
            w2x_def [symmetric] st split: if_splits intro: appended_trans)
    next
      case False
      obtain cr f where cr: "Create (store a) p (sto w) = (cr, f)"
        by (cases "Create (store a) p (sto w)")
      show ?thesis
      proof (cases cr)
        case (Inl e)
        with None False assms ex cr a03 a1 a2 a3 show ?thesis
          by (auto simp: archiveDocuments_def Let_def p_def [symmetric] w1_def [symmetric]
              w2_def [symmetric] w3_def [symmetric] st intro: appended_sto)
      next
        case (Inr wc)
        obtain e4 w4 where wg: "writeAndCloseGzip gz a ctx date wc (w3\<lparr>sto := f\<rparr>) = (e4, w4)"
          by (cases "writeAndCloseGzip gz a ctx date wc (w3\<lparr>sto := f\<rparr>)")
        obtain e5 w5 where sc: "sink_Close wc w4 = (e5, w5)"
          by (cases "sink_Close wc w4")
        have w': "w' = w5"
          using None False assms ex cr Inr wg sc
          by (simp add: archiveDocuments_def Let_def p_def [symmetric] w1_def [symmetric]
              w2_def [symmetric] w3_def [symmetric] st)
        have b1: "appended archiveEvent w (w3\<lparr>sto := f\<rparr>)" by (rule appended_sto [OF a03])
        have b2: "appended archiveEvent (w3\<lparr>sto := f\<rparr>) w4" "src w4 = src w3"
          using writeAndCloseGzip_frame [OF wg] by simp_all
        have b3: "appended archiveEvent w4 w5" "src w5 = src w4"
          using sink_Close_frame [OF sc] by (simp_all add: appended_def archiveEvent_def)
        show ?thesis
          unfolding w' using b1 b2 b3 a1 a2 a3 by (auto intro: appended_trans)
      qed
    qed
  qed
qed

lemma archiveDocumentsAndDelete_frame:
  assumes "archiveDocumentsAndDelete gz a ctx date w = (err, w')"
  shows "appended dayEvent w w' \<and> sto w' = sto (snd (archiveDocuments gz a ctx date w))
         \<and> (skipDelete a \<longrightarrow> src w' = src w \<and> appended archiveEvent w w')"
proof -
  obtain e1 w1 where ad: "archiveDocuments gz a ctx date w = (e1, w1)"
    by (cases "archiveDocuments gz a ctx date w")
  note f = archiveDocuments_frame [OF ad]
  have d1: "appended dayEvent w w1"
    using f by (auto intro: appended_mono simp: dayEvent_def)
  define w2 where "w2 = emit (Call_DeleteAllFromDate date) w1"
  have d2: "appended dayEvent w1 w2"
    unfolding w2_def by (simp add: appended_emit dayEvent_def)
  have d3: "appended dayEvent w2 (emit (Slog LevelInfo ''documents deleted'' [slog_Int ''total'' n])
                             (w2\<lparr>src := s\<rparr>))" for n s
    by (simp add: appended_def dayEvent_def)
  have d4: "appended dayEvent w2 (w2\<lparr>src := s\<rparr>)" for s
    by (simp add: appended_def)
  show ?thesis
    using assms ad f d1 d2 d3 d4
    unfolding archiveDocumentsAndDelete_def Let_def w2_def [symmetric]
    by (auto split: option.splits if_splits prod.splits intro: appended_trans simp: w2_def)
qed


lemma deletions_append_emit:
  "deletions (events (emit e w)) = deletions (events w) @ deletions [e]"
  by (simp add: deletions_def map_filter_append)

lemma archiveEvent_no_deletion: "archiveEvent e \<Longrightarrow> deletionDate e = None"
  by (cases e) (simp_all add: archiveEvent_def deletionDate_def)

lemma dayEvent_no_archiving: "dayEvent e \<Longrightarrow> archivingDate e = None"
  by (cases e) (auto simp: dayEvent_def archiveEvent_def archivingDate_def)

lemma Run_loop_skipDelete:
  assumes "skipDelete a"
  shows "src (snd (Run_loop gz rt a ctx target date total' w)) = src w
         \<and> deletions (events (snd (Run_loop gz rt a ctx target date total' w))) = deletions (events w)"
  using assms
proof (induction gz rt a ctx target date total' w rule: Run_loop.induct)
  case (1 gz rt a ctx target date total' w)
  define w0 where "w0 = emit (Slog LevelInfo ''archiving'' [slog_TimeString ''date'' date]) w"
  obtain e1 w1 where st: "archiveDocumentsAndDelete gz a ctx date w0 = (e1, w1)"
    by (cases "archiveDocumentsAndDelete gz a ctx date w0")
  have f: "src w1 = src w0" "appended archiveEvent w0 w1"
    using archiveDocumentsAndDelete_frame [OF st] "1.prems" by simp_all
  have d1: "deletions (events w1) = deletions (events w)"
    using appended_map_filter [OF f(2), of deletionDate] archiveEvent_no_deletion
    by (simp add: deletions_def w0_def map_filter_append List.map_filter_def deletionDate_def)
  have s1: "src w1 = src w" using f(1) by (simp add: w0_def)
  show ?case
  proof (cases "Before date target")
    case False
    then show ?thesis
      by (subst Run_loop.simps, subst (2) Run_loop.simps)
        (simp add: deletions_def map_filter_append List.map_filter_def deletionDate_def)
  next
    case True
    show ?thesis
    proof (cases e1)
      case (Some e)
      with True st d1 s1 show ?thesis
        by (subst Run_loop.simps, subst (2) Run_loop.simps) (simp add: w0_def)
    next
      case None
      show ?thesis
      proof (cases "select_Done rt ctx (delay a) (total' + 1)")
        case (Some c)
        with True st d1 s1 None show ?thesis
          by (subst Run_loop.simps, subst (2) Run_loop.simps) (simp add: w0_def)
      next
        case N2: None
        have ih: "src (snd (Run_loop gz rt a ctx target (AddDate date 0 0 1) (total' + 1) w1)) = src w1
          \<and> deletions (events (snd (Run_loop gz rt a ctx target (AddDate date 0 0 1) (total' + 1) w1)))
               = deletions (events w1)"
          by (rule "1.IH" [OF True st [unfolded w0_def, symmetric] None N2 "1.prems"])
        have "Run_loop gz rt a ctx target date total' w
                = Run_loop gz rt a ctx target (AddDate date 0 0 1) (total' + 1) w1"
          using True st None N2 by (subst Run_loop.simps) (simp add: w0_def)
        with ih d1 s1 show ?thesis by simp
      qed
    qed
  qed
qed

lemma daysProcessed_simps:
  "daysProcessed [] = []"
  "daysProcessed (xs @ ys) = daysProcessed xs @ daysProcessed ys"
  "daysProcessed (Slog LevelInfo ''archiving'' [slog_TimeString k d] # xs) = d # daysProcessed xs"
  "daysProcessed (Slog l ''target reached'' as # xs) = daysProcessed xs"
  "daysProcessed (Slog l ''archiver running'' as # xs) = daysProcessed xs"
  "daysProcessed (Call_EarliestCreatedAt # xs) = daysProcessed xs"
  by (simp_all add: daysProcessed_def map_filter_append List.map_filter_def archivingDate_def)

lemma upt_shift:
  "map (\<lambda>k. d + int k * x) [0..<Suc n] = d # map (\<lambda>k. (d + x) + int k * x) [0..<n]"
proof -
  have "[0..<Suc n] = 0 # map Suc [0..<n]"
    by (simp add: upt_conv_Cons map_Suc_upt del: upt_Suc)
  then show ?thesis by (simp add: algebra_simps comp_def del: upt_Suc)
qed

lemma Truncate_bounds:
  assumes "0 < d"
  shows "Truncate t d \<le> t \<and> t < Truncate t d + d \<and> (Truncate t d - zeroTime) mod d = 0"
proof -
  have "0 \<le> (t - zeroTime) mod d" "(t - zeroTime) mod d < d" using assms by simp_all
  moreover have "(t - (t - zeroTime) mod d - zeroTime) mod d = 0"
    by (metis diff_diff_eq2 diff_add_eq minus_mod_self2 mod_self diff_self mod_0 add.commute
        diff_diff_eq mod_diff_right_eq)
  ultimately show ?thesis using assms by (simp add: Truncate_def)
qed

lemma funpow_AddDate: "((\<lambda>d. AddDate d 0 0 1) ^^ k) t = t + int k * (24 * Hour)"
  by (induction k) (simp_all add: AddDate_one_day algebra_simps)

lemma Before_nov_offset:
  "Before (nov 2) (nov 2 + 6 * Hour)" "\<not> Before (nov 3) (nov 2 + 6 * Hour)"
  "\<not> Before (nov 2 + 12 * Hour) (nov 2 + 6 * Hour)"
  by (simp_all add: Before_def nov_val unit_defs)

subsection \<open>The calls of a day and of the loop\<close>

lemma isCall_simps [simp]:
  "isCall Call_EarliestCreatedAt" "isCall (Call_Exists p)" "isCall (Call_Create p)"
  "isCall (Call_FindAllFromDate d)" "isCall (Call_DeleteAllFromDate d)"
  "isCall (Slog l m as) = (m = ''archiving'')"
  "\<not> isCall (Call_Write bs)" "\<not> isCall Call_Close" "\<not> isCall Call_gzip_Close"
  by (simp_all add: isCall_def)

lemma calls_simps [simp]:
  "calls [] = []" "calls (xs @ ys) = calls xs @ calls ys"
  "calls (e # xs) = (if isCall e then e # calls xs else calls xs)"
  by (simp_all add: calls_def)

lemma calls_none: "list_all P evs \<Longrightarrow> (\<And>e. P e \<Longrightarrow> \<not> isCall e) \<Longrightarrow> calls evs = []"
  by (induction evs) simp_all

lemma appended_calls:
  "appended P w w' \<Longrightarrow> (\<And>e. P e \<Longrightarrow> \<not> isCall e) \<Longrightarrow> calls (events w') = calls (events w)"
  by (auto simp: appended_def calls_none)

lemma isWrite_no_call: "isWrite e \<Longrightarrow> \<not> isCall e"
  by (cases e) (simp_all add: isWrite_def)

lemma writeDocuments_calls:
  assumes "writeDocuments gz a ctx date gw w = (err, gw', w')"
  shows "calls (events w') = calls (events w) @ [Call_FindAllFromDate date]"
proof -
  define w0 where "w0 = emit (Call_FindAllFromDate date) w"
  define res where "res = FindAllFromDate (source a) date (src w0)"
  obtain e1 gw1 i1 w1 where it: "iterDocuments gz (Iter res) gw 0 w0 = (e1, gw1, i1, w1)"
    by (cases "iterDocuments gz (Iter res) gw 0 w0") auto
  have "appended isWrite w0 w1" using iterDocuments_frame [OF it] by simp
  then have "calls (events w1) = calls (events w0)"
    by (rule appended_calls) (rule isWrite_no_call)
  then have c1: "calls (events w1) = calls (events w) @ [Call_FindAllFromDate date]"
    by (simp add: w0_def)
  show ?thesis
    using assms it c1
    unfolding writeDocuments_def Let_def w0_def [symmetric] res_def [symmetric]
    by (auto split: option.splits)
qed

lemma writeAndCloseGzip_calls:
  assumes "writeAndCloseGzip gz a ctx date wc w = (err, w')"
  shows "calls (events w') = calls (events w) @ [Call_FindAllFromDate date]"
proof -
  define z where "z = \<lparr>gz_w = wc, gz_level = DefaultCompression, gz_input = [], gz_err = None,
                       gz_closed = False\<rparr>"
  obtain e1 z1 w1 where wd: "writeDocuments gz a ctx date z w = (e1, z1, w1)"
    by (cases "writeDocuments gz a ctx date z w")
  obtain e2 z2 w2 where gc: "gzip_Close gz z1 w1 = (e2, z2, w2)"
    by (cases "gzip_Close gz z1 w1")
  have w': "w' = w2"
    using assms wd gc by (simp add: writeAndCloseGzip_def NewWriterLevel_default z_def)
  from gzip_Close_frame [OF gc] obtain fl where
    fl: "events w2 = events w1 @ Call_gzip_Close # fl" "list_all isWrite fl" by blast
  have "calls fl = []" using fl(2) by (rule calls_none) (rule isWrite_no_call)
  then have "calls (events w2) = calls (events w1)" using fl(1) by simp
  with writeDocuments_calls [OF wd] w' show ?thesis by simp
qed

lemma archiveDocuments_calls:
  assumes "archiveDocuments gz a ctx date w = (err, w')"
  shows "\<exists>cs. calls (events w') = calls (events w) @ cs
           \<and> (cs = [Call_Exists (fileName_of date)]
              \<or> cs = [Call_Exists (fileName_of date), Call_Create (fileName_of date)] \<and> err \<noteq> None
              \<or> cs = [Call_Exists (fileName_of date), Call_Create (fileName_of date),
                       Call_FindAllFromDate date])"
proof -
  define p where "p = fileName_of date"
  define w1 where "w1 = emit (Call_Exists p) w"
  define w2 where "w2 = emit (Slog LevelInfo ''writing to file'' [slog_String ''fileName'' p]) w1"
  define w3 where "w3 = emit (Call_Create p) w2"
  have st: "sto w1 = sto w" "sto w2 = sto w" "sto w3 = sto w"
    by (simp_all add: w1_def w2_def w3_def)
  have c1: "calls (events w1) = calls (events w) @ [Call_Exists p]" by (simp add: w1_def)
  have c3: "calls (events w3) = calls (events w) @ [Call_Exists p, Call_Create p]"
    by (simp add: w1_def w2_def w3_def)
  obtain ex xe where ex: "Exists (store a) p (sto w) = (ex, xe)"
    by (cases "Exists (store a) p (sto w)")
  show ?thesis
  proof (cases xe)
    case (Some e)
    with assms ex have "w' = w1"
      by (auto simp: archiveDocuments_def Let_def p_def [symmetric] w1_def [symmetric] st)
    with c1 show ?thesis by (simp add: p_def)
  next
    case None
    show ?thesis
    proof (cases ex)
      case True
      with None assms ex have "calls (events w') = calls (events w1)"
        by (auto simp: archiveDocuments_def Let_def p_def [symmetric] w1_def [symmetric] st
            split: if_splits)
      with c1 show ?thesis by (simp add: p_def)
    next
      case False
      obtain cr f where cr: "Create (store a) p (sto w) = (cr, f)"
        by (cases "Create (store a) p (sto w)")
      show ?thesis
      proof (cases cr)
        case (Inl e)
        with None False assms ex cr have "w' = w3\<lparr>sto := f\<rparr>" "err \<noteq> None"
          by (auto simp: archiveDocuments_def Let_def p_def [symmetric] w1_def [symmetric]
              w2_def [symmetric] w3_def [symmetric] st)
        with c3 show ?thesis by (simp add: p_def)
      next
        case (Inr wc)
        obtain e4 w4 where wg: "writeAndCloseGzip gz a ctx date wc (w3\<lparr>sto := f\<rparr>) = (e4, w4)"
          by (cases "writeAndCloseGzip gz a ctx date wc (w3\<lparr>sto := f\<rparr>)")
        obtain e5 w5 where sc: "sink_Close wc w4 = (e5, w5)"
          by (cases "sink_Close wc w4")
        have w': "w' = w5"
          using None False assms ex cr Inr wg sc
          by (simp add: archiveDocuments_def Let_def p_def [symmetric] w1_def [symmetric]
              w2_def [symmetric] w3_def [symmetric] st)
        have "calls (events w4) = calls (events w3) @ [Call_FindAllFromDate date]"
          using writeAndCloseGzip_calls [OF wg] by simp
        moreover have "calls (events w5) = calls (events w4)"
          using sink_Close_frame [OF sc] by simp
        ultimately show ?thesis using c3 w' by (simp add: p_def)
      qed
    qed
  qed
qed

lemma archiveDocumentsAndDelete_calls:
  assumes "archiveDocumentsAndDelete gz a ctx date w = (err, w')"
  shows "\<exists>cs ds. calls (events w') = calls (events w) @ cs \<and> dayCalls date cs
           \<and> deletions (events w') = deletions (events w) @ ds
           \<and> (ds = [] \<or> ds = [date])
           \<and> (skipDelete a \<longrightarrow> ds = [])
           \<and> (\<not> skipDelete a \<and> err = None \<longrightarrow> ds = [date])
           \<and> src w' = foldl (\<lambda>s d. snd (DeleteAllFromDate (source a) d s)) (src w) ds"
proof -
  obtain e1 w1 where ad: "archiveDocuments gz a ctx date w = (e1, w1)"
    by (cases "archiveDocuments gz a ctx date w")
  note f = archiveDocuments_frame [OF ad]
  have d1: "deletions (events w1) = deletions (events w)"
    using appended_map_filter [of archiveEvent w w1 deletionDate] f archiveEvent_no_deletion
    by (simp add: deletions_def)
  have s1: "src w1 = src w" using f by simp
  from archiveDocuments_calls [OF ad] obtain cs1 where cs1:
    "calls (events w1) = calls (events w) @ cs1"
    "cs1 = [Call_Exists (fileName_of date)]
       \<or> cs1 = [Call_Exists (fileName_of date), Call_Create (fileName_of date)] \<and> e1 \<noteq> None
       \<or> cs1 = [Call_Exists (fileName_of date), Call_Create (fileName_of date),
                Call_FindAllFromDate date]"
    by blast
  show ?thesis
  proof (cases "e1 = None \<and> \<not> skipDelete a")
    case False
    then have w': "w' = w1" and e: "skipDelete a \<or> err \<noteq> None"
      using assms ad by (auto simp: archiveDocumentsAndDelete_def split: option.splits)
    have "dayCalls date cs1" using cs1(2) by (auto simp: dayCalls_def)
    with cs1(1) d1 s1 w' e show ?thesis
      by (intro exI [of _ cs1] exI [of _ "[]"]) auto
  next
    case True
    define w2 where "w2 = emit (Call_DeleteAllFromDate date) w1"
    obtain n de s where dl: "DeleteAllFromDate (source a) date (src w1) = ((n, de), s)"
      by (cases "DeleteAllFromDate (source a) date (src w1)") auto
    have ev: "calls (events w') = calls (events w2)" "deletions (events w') = deletions (events w2)"
      "src w' = s"
      using assms ad True dl
      by (auto simp: archiveDocumentsAndDelete_def Let_def w2_def deletions_def map_filter_append
          List.map_filter_def deletionDate_def split: option.splits)
    have c2: "calls (events w2) = calls (events w) @ cs1 @ [Call_DeleteAllFromDate date]"
      using cs1(1) by (simp add: w2_def)
    have d2: "deletions (events w2) = deletions (events w) @ [date]"
      using d1 by (simp add: w2_def deletions_def map_filter_append List.map_filter_def
          deletionDate_def)
    have dc: "dayCalls date (cs1 @ [Call_DeleteAllFromDate date])"
      using cs1(2) True by (auto simp: dayCalls_def)
    have sr: "src w' = foldl (\<lambda>s d. snd (DeleteAllFromDate (source a) d s)) (src w) [date]"
      using ev(3) dl s1 by simp
    show ?thesis
      using ev c2 d2 dc sr True
      by (intro exI [of _ "cs1 @ [Call_DeleteAllFromDate date]"] exI [of _ "[date]"]) simp
  qed
qed

lemma daysFrom_eq: "daysFrom t n = map (\<lambda>k. t + int k * (24 * Hour)) [0..<n]"
  by (simp add: daysFrom_def funpow_AddDate)

lemma daysFrom_simps:
  "daysFrom t 0 = []" "daysFrom t (Suc n) = t # daysFrom (t + 24 * Hour) n"
  unfolding daysFrom_eq using upt_shift [of t "24 * Hour" n] by (simp_all del: upt_Suc)

lemma loopTrace_stop:
  assumes "\<not> Before date target" "calls (events w') = calls (events w)"
    "deletions (events w') = deletions (events w)" "src w' = src w"
  shows "loopTrace a target date w (None, w') 0 [] []"
  using assms by (simp add: loopTrace_def daysFrom_simps)

lemma loopTrace_last:
  assumes "Before date target"
    and "calls (events w1) = calls (events w) @ dayTrace date cs" "dayCalls date cs"
    and "deletions (events w1) = deletions (events w) @ ds" "ds = [] \<or> ds = [date]"
    and "skipDelete a \<longrightarrow> ds = []"
    and "src w1 = foldl (\<lambda>s d. snd (DeleteAllFromDate (source a) d s)) (src w) ds"
    and "r \<noteq> None"
  shows "loopTrace a target date w (r, w1) (Suc 0) [cs] ds"
  using assms by (auto simp: loopTrace_def daysFrom_simps)

lemma loopTrace_step:
  assumes "Before date target"
    and "calls (events w1) = calls (events w) @ dayTrace date cs" "dayCalls date cs"
    and "deletions (events w1) = deletions (events w) @ ds1"
    and "skipDelete a \<longrightarrow> ds1 = []" "\<not> skipDelete a \<longrightarrow> ds1 = [date]"
    and "src w1 = foldl (\<lambda>s d. snd (DeleteAllFromDate (source a) d s)) (src w) ds1"
    and "loopTrace a target (date + 24 * Hour) w1 R m css ds"
  shows "loopTrace a target date w R (Suc m) (cs # css) (ds1 @ ds)"
proof -
  note l = assms(8) [unfolded loopTrace_def]
  have bd: "\<forall>k<Suc m. Before (date + int k * (24 * Hour)) target"
  proof (intro allI impI)
    fix k assume "k < Suc m"
    show "Before (date + int k * (24 * Hour)) target"
    proof (cases k)
      case 0
      with assms(1) show ?thesis by simp
    next
      case (Suc j)
      with \<open>k < Suc m\<close> l have "Before (date + 24 * Hour + int j * (24 * Hour)) target" by simp
      then show ?thesis by (simp add: Suc algebra_simps)
    qed
  qed
  have fin: "fst R = None \<longrightarrow> \<not> Before (date + int (Suc m) * (24 * Hour)) target"
    using l by (simp add: algebra_simps)
  have c: "calls (events (snd R))
             = calls (events w) @ concat (map2 dayTrace (daysFrom date (Suc m)) (cs # css))"
    using l assms(2) by (simp add: daysFrom_simps)
  have la: "list_all2 dayCalls (daysFrom date (Suc m)) (cs # css)"
    using l assms(3) by (simp add: daysFrom_simps)
  have d: "deletions (events (snd R)) = deletions (events w) @ ds1 @ ds"
    using l assms(4) by simp
  have sk: "skipDelete a \<longrightarrow> ds1 @ ds = []" using l assms(5) by simp
  have bl: "\<not> skipDelete a \<longrightarrow>
              ds1 @ ds = daysFrom date (Suc m) \<or> ds1 @ ds = butlast (daysFrom date (Suc m))"
  proof
    assume ns: "\<not> skipDelete a"
    then have d1: "ds1 = [date]" using assms(6) by simp
    from ns l have "ds = daysFrom (date + 24 * Hour) m \<or> ds = butlast (daysFrom (date + 24 * Hour) m)"
      by simp
    then show "ds1 @ ds = daysFrom date (Suc m) \<or> ds1 @ ds = butlast (daysFrom date (Suc m))"
      unfolding d1 daysFrom_simps by (cases "daysFrom (date + 24 * Hour) m = []") auto
  qed
  have ex: "\<not> skipDelete a \<and> fst R = None \<longrightarrow> ds1 @ ds = daysFrom date (Suc m)"
    using l assms(6) by (simp add: daysFrom_simps)
  have sr: "src (snd R) = foldl (\<lambda>s d. snd (DeleteAllFromDate (source a) d s)) (src w) (ds1 @ ds)"
    using l assms(7) by simp
  show ?thesis
    unfolding loopTrace_def using c la d sk bl ex sr bd fin assms(1) by (intro conjI) simp_all
qed

lemma Run_loop_trace:
  "\<exists>n css ds. loopTrace a target date w (Run_loop gz rt a ctx target date total' w) n css ds"
proof (induction gz rt a ctx target date total' w rule: Run_loop.induct)
  case (1 gz rt a ctx target date total' w)
  define w0 where "w0 = emit (Slog LevelInfo ''archiving'' [slog_TimeString ''date'' date]) w"
  obtain e1 w1 where st: "archiveDocumentsAndDelete gz a ctx date w0 = (e1, w1)"
    by (cases "archiveDocumentsAndDelete gz a ctx date w0")
  from archiveDocumentsAndDelete_calls [OF st] obtain cs ds1 where day:
    "calls (events w1) = calls (events w0) @ cs" "dayCalls date cs"
    "deletions (events w1) = deletions (events w0) @ ds1"
    "ds1 = [] \<or> ds1 = [date]" "skipDelete a \<longrightarrow> ds1 = []"
    "\<not> skipDelete a \<and> e1 = None \<longrightarrow> ds1 = [date]"
    "src w1 = foldl (\<lambda>s d. snd (DeleteAllFromDate (source a) d s)) (src w0) ds1"
    by blast
  have c1: "calls (events w1) = calls (events w) @ dayTrace date cs"
    using day(1) by (simp add: w0_def dayTrace_def)
  have d1: "deletions (events w1) = deletions (events w) @ ds1"
    using day(3) by (simp add: w0_def deletions_def map_filter_append List.map_filter_def
        deletionDate_def)
  have s1: "src w1 = foldl (\<lambda>s d. snd (DeleteAllFromDate (source a) d s)) (src w) ds1"
    using day(7) by (simp add: w0_def)
  show ?case
  proof (cases "Before date target")
    case False
    have "Run_loop gz rt a ctx target date total' w
            = (None, emit (Slog LevelInfo ''target reached'' [slog_Int ''datesArchived'' total']) w)"
      using False by (subst Run_loop.simps) simp
    moreover have "loopTrace a target date w
        (None, emit (Slog LevelInfo ''target reached'' [slog_Int ''datesArchived'' total']) w) 0 [] []"
      using False
      by (intro loopTrace_stop)
        (simp_all add: deletions_def map_filter_append List.map_filter_def deletionDate_def)
    ultimately show ?thesis by auto
  next
    case True
    show ?thesis
    proof (cases e1)
      case (Some e)
      have "Run_loop gz rt a ctx target date total' w
              = (Some (fmt_Errorf ''archival failed: %w'' e), w1)"
        using True st Some by (subst Run_loop.simps) (simp add: w0_def)
      moreover have "loopTrace a target date w (Some (fmt_Errorf ''archival failed: %w'' e), w1)
                       (Suc 0) [cs] ds1"
        using True c1 day(2) d1 day(4) day(5) s1 by (intro loopTrace_last) simp_all
      ultimately show ?thesis by auto
    next
      case None
      show ?thesis
      proof (cases "select_Done rt ctx (delay a) (total' + 1)")
        case (Some c)
        have "Run_loop gz rt a ctx target date total' w = (Some c, w1)"
          using True st None Some by (subst Run_loop.simps) (simp add: w0_def)
        moreover have "loopTrace a target date w (Some c, w1) (Suc 0) [cs] ds1"
          using True c1 day(2) d1 day(4) day(5) s1 by (intro loopTrace_last) simp_all
        ultimately show ?thesis by auto
      next
        case N2: None
        have eq: "Run_loop gz rt a ctx target date total' w
                = Run_loop gz rt a ctx target (AddDate date 0 0 1) (total' + 1) w1"
          using True st None N2 by (subst Run_loop.simps) (simp add: w0_def)
        note ih = "1.IH" [OF True st [unfolded w0_def, symmetric] None N2,
            unfolded AddDate_one_day]
        then obtain m css ds where
          l: "loopTrace a target (date + 24 * Hour) w1
                (Run_loop gz rt a ctx target (date + 24 * Hour) (total' + 1) w1) m css ds"
          by blast
        have "loopTrace a target date w
                (Run_loop gz rt a ctx target (date + 24 * Hour) (total' + 1) w1)
                (Suc m) (cs # css) (ds1 @ ds)"
          using True c1 day(2) d1 day(5) day(6) None s1 l by (intro loopTrace_step) simp_all
        then show ?thesis unfolding eq AddDate_one_day by blast
      qed
    qed
  qed
qed

lemma daysProcessed_calls: "daysProcessed (calls evs) = daysProcessed evs"
proof (induction evs)
  case Nil
  show ?case by simp
next
  case (Cons e evs)
  have "\<not> isCall e \<Longrightarrow> archivingDate e = None"
    by (cases e) (simp_all add: archivingDate_def)
  with Cons show ?case
    by (simp add: daysProcessed_def List.map_filter_def)
qed

lemma daysProcessed_dayTrace: "dayCalls d cs \<Longrightarrow> daysProcessed (dayTrace d cs) = [d]"
  by (auto simp: dayCalls_def dayTrace_def daysProcessed_def List.map_filter_def archivingDate_def)

lemma daysProcessed_dayTraces:
  "list_all2 dayCalls ds css \<Longrightarrow> daysProcessed (concat (map2 dayTrace ds css)) = ds"
  by (induction rule: list_all2_induct) (simp_all add: daysProcessed_simps daysProcessed_dayTrace)

section \<open>What the writes of one day preserve\<close>

lemma gzip_Write_inv:
  assumes "gzip_Write gz z p w = (e, z', w')" "I (sto w)"
    and "\<And>bs f. I f \<Longrightarrow> I (snd (Write (gz_w z) bs f))"
  shows "I (sto w')"
  using assms
  by (auto simp: gzip_Write_def Let_def split: option.splits if_splits prod.splits
      dest!: sink_Write_frame)

lemma iterDocuments_inv:
  assumes "iterDocuments gz docs z i w = (e, z', i', w')" "I (sto w)"
    and "\<And>bs f. I f \<Longrightarrow> I (snd (Write (gz_w z) bs f))"
  shows "I (sto w')"
  using assms
proof (induction docs arbitrary: z i w)
  case Nil
  then show ?case by simp
next
  case (Cons doc docs)
  obtain e1 z1 w1 where c: "io_Copy gz z (doc @ [newline]) w = (e1, z1, w1)"
    by (cases "io_Copy gz z (doc @ [newline]) w")
  then have g: "gzip_Write gz z (doc @ [newline]) w = (e1, z1, w1)" by (simp add: io_Copy_def)
  have i1: "I (sto w1)"
    by (rule gzip_Write_inv [where I = I, OF g Cons.prems(2)]) (rule Cons.prems(3))
  have zw: "gz_w z1 = gz_w z" using gzip_Write_frame [OF g] by simp
  show ?case
  proof (cases e1)
    case None
    with Cons.prems(1) c have "iterDocuments gz docs z1 (i + 1) w1 = (e, z', i', w')" by simp
    show ?thesis
      by (rule Cons.IH [OF \<open>iterDocuments gz docs z1 (i + 1) w1 = (e, z', i', w')\<close> i1])
        (simp add: zw Cons.prems(3))
  next
    case (Some x)
    with Cons.prems(1) c i1 show ?thesis by auto
  qed
qed

lemma writeAndCloseGzip_inv:
  assumes "writeAndCloseGzip gz a ctx date wc w = (e, w')" "I (sto w)"
    and "\<And>bs f. I f \<Longrightarrow> I (snd (Write wc bs f))"
  shows "I (sto w')"
proof -
  define z where "z = \<lparr>gz_w = wc, gz_level = DefaultCompression, gz_input = [], gz_err = None,
                       gz_closed = False\<rparr>"
  define w0 where "w0 = emit (Call_FindAllFromDate date) w"
  define res where "res = FindAllFromDate (source a) date (src w0)"
  obtain e1 z1 i1 w1 where it: "iterDocuments gz (Iter res) z 0 w0 = (e1, z1, i1, w1)"
    by (cases "iterDocuments gz (Iter res) z 0 w0") auto
  have zw: "gz_w z = wc" by (simp add: z_def)
  have i1: "I (sto w1)"
    by (rule iterDocuments_inv [where I = I, OF it]) (simp_all add: w0_def zw assms(2,3))
  have z1: "gz_w z1 = wc" using iterDocuments_frame [OF it] zw by simp
  obtain e2 z2 w2 where wd: "writeDocuments gz a ctx date z w = (e2, z2, w2)"
    by (cases "writeDocuments gz a ctx date z w")
  have w2: "I (sto w2) \<and> z2 = z1"
    using wd it i1
    unfolding writeDocuments_def Let_def w0_def [symmetric] res_def [symmetric]
    by (auto split: option.splits)
  obtain e3 z3 w3 where gc: "gzip_Close gz z2 w2 = (e3, z3, w3)"
    by (cases "gzip_Close gz z2 w2")
  have i3: "I (sto w3)"
    using gc w2 z1 assms(3)
    by (auto simp: gzip_Close_def Let_def split: option.splits if_splits prod.splits
        dest!: sink_Write_frame)
  have "w' = w3"
    using assms(1) wd gc by (simp add: writeAndCloseGzip_def NewWriterLevel_default z_def)
  with i3 show ?thesis by simp
qed

section \<open>Writing to a file that keeps what it is given\<close>

lemma linesFrom_line:
  "newline \<notin> set doc \<Longrightarrow> linesFrom acc (doc @ newline # rest) = (acc @ doc) # linesFrom [] rest"
  by (induction doc arbitrary: acc) auto

lemma splitLines_withNewlines:
  "\<forall>doc\<in>set docs. newline \<notin> set doc \<Longrightarrow> splitLines (concat (withNewlines docs)) = docs"
  unfolding splitLines_def withNewlines_def
  by (induction docs) (simp_all add: linesFrom_line)

lemma appending_gzip_Write:
  assumes wr: "\<And>bs f b. content f = Some b \<Longrightarrow>
                 fst (Write wc bs f) = None \<and> content (snd (Write wc bs f)) = Some (b @ bs)"
    and z: "gz_w z = wc" "gz_err z = None"
    and c: "content (sto w) = Some b"
  shows "\<exists>w'. gzip_Write gz z bs w = (None, z\<lparr>gz_input := gz_input z @ bs\<rparr>, w')
              \<and> content (sto w') = Some (b @ onWrite gz (gz_input z) bs) \<and> src w' = src w"
proof (cases "onWrite gz (gz_input z) bs = []")
  case True
  then show ?thesis using z c by (simp add: gzip_Write_def Let_def)
next
  case False
  obtain e f where w: "Write wc (onWrite gz (gz_input z) bs) (sto w) = (e, f)"
    by (cases "Write wc (onWrite gz (gz_input z) bs) (sto w)")
  with wr [OF c, of "onWrite gz (gz_input z) bs"] have "e = None"
    "content f = Some (b @ onWrite gz (gz_input z) bs)" by simp_all
  with False w z show ?thesis
    by (simp add: gzip_Write_def Let_def sink_Write_def)
qed

lemma appending_iterDocuments:
  assumes wr: "\<And>bs f b. content f = Some b \<Longrightarrow>
                 fst (Write wc bs f) = None \<and> content (snd (Write wc bs f)) = Some (b @ bs)"
    and z: "gz_w z = wc" "gz_err z = None"
    and c: "content (sto w) = Some b"
  shows "\<exists>w'. iterDocuments gz docs z i w
                 = (None, z\<lparr>gz_input := gz_input z @ concat (withNewlines docs)\<rparr>,
                    i + int (length docs), w')
              \<and> content (sto w') = Some (b @ gzipWritten gz (gz_input z) (withNewlines docs))
              \<and> src w' = src w"
  using z c
proof (induction docs arbitrary: z i w b)
  case Nil
  then show ?case by (simp add: withNewlines_def)
next
  case (Cons doc docs)
  define z1 where "z1 = z\<lparr>gz_input := gz_input z @ doc @ [newline]\<rparr>"
  obtain w1 where s: "gzip_Write gz z (doc @ [newline]) w = (None, z1, w1)"
    "content (sto w1) = Some (b @ onWrite gz (gz_input z) (doc @ [newline]))" "src w1 = src w"
    using appending_gzip_Write [where content = content, OF wr Cons.prems, of gz "doc @ [newline]"]
    unfolding z1_def by blast
  have z1: "gz_w z1 = wc" "gz_err z1 = None" using Cons.prems by (simp_all add: z1_def)
  obtain w2 where t: "iterDocuments gz docs z1 (i + 1) w1
                 = (None, z1\<lparr>gz_input := gz_input z1 @ concat (withNewlines docs)\<rparr>,
                    i + 1 + int (length docs), w2)"
      "content (sto w2) = Some ((b @ onWrite gz (gz_input z) (doc @ [newline]))
                                  @ gzipWritten gz (gz_input z1) (withNewlines docs))"
      "src w2 = src w1"
    using Cons.IH [OF z1 s(2), of "i + 1"] by blast
  have "iterDocuments gz (doc # docs) z i w
          = (None, z\<lparr>gz_input := gz_input z @ concat (withNewlines (doc # docs))\<rparr>,
             i + int (length (doc # docs)), w2)"
    using s(1) t(1) by (simp add: io_Copy_def z1_def withNewlines_def)
  moreover have "content (sto w2)
      = Some (b @ gzipWritten gz (gz_input z) (withNewlines (doc # docs)))"
    using t(2) by (simp add: z1_def withNewlines_def)
  ultimately show ?case using t(3) s(3) by simp
qed

section \<open>The run fails at once when the earliest timestamp cannot be resolved\<close>

text \<open>
  Claim C8. When \<^verbatim>\<open>EarliestCreatedAt\<close> returns an error \<open>e\<close>, \<^verbatim>\<open>Run\<close> returns \<open>e\<close> wrapped
  in "failed to get earliest created at", and the state it leaves is the state it started
  from with one more entry in the trace, the call of \<^verbatim>\<open>EarliestCreatedAt\<close> itself: no day
  is logged or processed, the store is neither asked nor written, nothing is deleted. The
  MongoDB source returns such an error (\<^verbatim>\<open>mongo.ErrNoDocuments\<close>) for a collection without
  documents.
\<close>

theorem Run_earliest_error:
  assumes "EarliestCreatedAt (source a) (src w) = (t, Some e)"
  shows "Run gz rt a ctx target w =
           (Some (fmt_Errorf ''failed to get earliest created at: %w'' e),
            emit Call_EarliestCreatedAt w)
         \<and> EarliestCreatedAt MongoDB \<lparr>documents = [], fault = None\<rparr>
             = (zeroTime, Some mongo_ErrNoDocuments)"
  using assms by (simp add: Run_def Let_def MongoDB_def MongoDB_EarliestCreatedAt_def)

theorem Run_earliest_error_witness:
  "Run storedGzip punctual (NewArchiver MongoDB mockStore False False 0) context_Background
       (1730592000 * Second) \<lparr>src = \<lparr>documents = [], fault = None\<rparr>, sto = newMockStorage, events = []\<rparr>
     = (Some (fmt_Errorf ''failed to get earliest created at: %w'' mongo_ErrNoDocuments),
        \<lparr>src = \<lparr>documents = [], fault = None\<rparr>, sto = newMockStorage,
         events = [Call_EarliestCreatedAt]\<rparr>)"
proof -
  have h: "EarliestCreatedAt (source (NewArchiver MongoDB mockStore False False 0))
             (src \<lparr>src = \<lparr>documents = [], fault = None\<rparr>, sto = newMockStorage, events = []\<rparr>)
           = (zeroTime, Some mongo_ErrNoDocuments)"
    by (simp add: NewArchiver_def MongoDB_def MongoDB_EarliestCreatedAt_def)
  show ?thesis
    using Run_earliest_error [OF h, of storedGzip punctual context_Background "1730592000 * Second"]
    by (simp add: emit_def)
qed

section \<open>The scenario of the four days\<close>

text \<open>
  Claim C1. On the example collection (earliest document at 2024-11-01T23:59:59Z; one
  document on 11/01, two on 11/02, one on 11/03, one on 11/04), with an empty store, the
  default policies, no delay and a context that is never done, \<^verbatim>\<open>Run\<close> with the cutoff
  2024-11-03T00:00:00Z returns nil. The store then holds exactly two files: the one of
  11/01 with the one document of that day, and the one of 11/02 with its two documents,
  each document followed by a newline, through the gzip writer. The collection is left
  with the documents of 11/03 and 11/04; the deletions were those of 11/01 and 11/02; and
  the log reports one and two documents written and deleted, and two dates archived.
\<close>

theorem scenario_run:
  "fst (Run gz rt (NewArchiver MongoDB mockStore False False 0) context_Background (nov 3)
          (scenario r1 r2 r3 r4 r5)) = None
   \<and> files (sto (snd (Run gz rt (NewArchiver MongoDB mockStore False False 0) context_Background
                         (nov 3) (scenario r1 r2 r3 r4 r5))))
       = [''2024/11/01.json.gz'' \<mapsto> gzipOutput gz [] [r1 @ [newline]],
          ''2024/11/02.json.gz'' \<mapsto> gzipOutput gz [] [r2 @ [newline], r3 @ [newline]]]
   \<and> documents (src (snd (Run gz rt (NewArchiver MongoDB mockStore False False 0) context_Background
                             (nov 3) (scenario r1 r2 r3 r4 r5))))
       = [docD r4, docE r5]
   \<and> deletions (events (snd (Run gz rt (NewArchiver MongoDB mockStore False False 0) context_Background
                             (nov 3) (scenario r1 r2 r3 r4 r5))))
       = [nov 1, nov 2]
   \<and> creations (events (snd (Run gz rt (NewArchiver MongoDB mockStore False False 0) context_Background
                             (nov 3) (scenario r1 r2 r3 r4 r5))))
       = [''2024/11/01.json.gz'', ''2024/11/02.json.gz'']
   \<and> logRecords (events (snd (Run gz rt (NewArchiver MongoDB mockStore False False 0) context_Background
                             (nov 3) (scenario r1 r2 r3 r4 r5))))
       = [Slog LevelInfo ''archiver running''
            [slog_TimeString ''target'' (nov 3),
             slog_TimeString ''earliest'' (nov 1 + (23 * Hour + 59 * Minute + 59 * Second))],
          Slog LevelInfo ''archiving'' [slog_TimeString ''date'' (nov 1)],
          Slog LevelInfo ''writing to file'' [slog_String ''fileName'' ''2024/11/01.json.gz''],
          Slog LevelInfo ''documents written'' [slog_Int ''total'' 1],
          Slog LevelInfo ''documents deleted'' [slog_Int ''total'' 1],
          Slog LevelInfo ''archiving'' [slog_TimeString ''date'' (nov 2)],
          Slog LevelInfo ''writing to file'' [slog_String ''fileName'' ''2024/11/02.json.gz''],
          Slog LevelInfo ''documents written'' [slog_Int ''total'' 2],
          Slog LevelInfo ''documents deleted'' [slog_Int ''total'' 2],
          Slog LevelInfo ''target reached'' [slog_Int ''datesArchived'' 2]]"
proof -
  have c: "createdAt (docA r1) = nov 1 + (23 * Hour + 59 * Minute + 59 * Second)"
    by (simp add: docA_def)
  show ?thesis
    by (simp add: run_eval scenario_def earliest_scenario trunc_scenario c [symmetric]
        del: gzipOutput.simps writeEvents.simps)
qed

section \<open>Closing the gzip writer and the file\<close>

text \<open>
  Claim C6. Take a day whose file did not exist and was created: \<^verbatim>\<open>Create\<close> returned the
  writer \<open>wc\<close>. Let \<open>primary\<close> be the error (or nil) of the streaming part, \<open>gzErr\<close> the
  result of closing the gzip writer and \<open>fileErr\<close> the result of closing \<open>wc\<close>. Then
  \<^verbatim>\<open>archiveDocuments\<close> returns \<open>primary\<close> with the wrapped \<open>gzErr\<close> joined to it and the
  wrapped \<open>fileErr\<close> joined to that. In the trace the close of the gzip writer comes
  once, after everything else of the day, followed only by the writes it flushes and then by
  the close of the file, which is the last entry. Each of the three failures that
  occurred is found in the returned error, and the returned error is nil only if none
  occurred.
\<close>

theorem archiveDocuments_closes:
  assumes ex: "Exists (store a) (fileName_of date) (sto w) = (False, None)"
    and cr: "Create (store a) (fileName_of date) (sto w) = (Inr wc, f)"
    and wd: "writeDocuments gz a ctx date
               \<lparr>gz_w = wc, gz_level = DefaultCompression, gz_input = [], gz_err = None, gz_closed = False\<rparr>
               ((emit (Call_Create (fileName_of date))
                  (emit (Slog LevelInfo ''writing to file'' [slog_String ''fileName'' (fileName_of date)])
                     (emit (Call_Exists (fileName_of date)) w)))\<lparr>sto := f\<rparr>)
             = (primary, gw1, w1)"
    and gc: "gzip_Close gz gw1 w1 = (gzErr, gw2, w2)"
    and fc: "sink_Close wc w2 = (fileErr, w3)"
  shows "archiveDocuments gz a ctx date w =
           (deferredClose (deferredClose primary ''failed to close gzip writer: %w'' gzErr)
              ''failed to close file: %w'' fileErr, w3)
         \<and> (\<exists>pre fl. events w3 = events w @ pre @ [Call_gzip_Close] @ fl @ [Call_Close]
               \<and> Call_gzip_Close \<notin> set pre \<and> Call_Close \<notin> set pre \<and> list_all isWrite fl)
         \<and> carries (fst (archiveDocuments gz a ctx date w)) primary
         \<and> carries (fst (archiveDocuments gz a ctx date w)) gzErr
         \<and> carries (fst (archiveDocuments gz a ctx date w)) fileErr
         \<and> (fst (archiveDocuments gz a ctx date w) = None
              \<longleftrightarrow> primary = None \<and> gzErr = None \<and> fileErr = None)"
proof -
  define p where "p = fileName_of date"
  define wC where "wC = (emit (Call_Create p)
                  (emit (Slog LevelInfo ''writing to file'' [slog_String ''fileName'' p])
                     (emit (Call_Exists p) w)))\<lparr>sto := f\<rparr>"
  have res: "archiveDocuments gz a ctx date w =
           (deferredClose (deferredClose primary ''failed to close gzip writer: %w'' gzErr)
              ''failed to close file: %w'' fileErr, w3)"
    using ex cr wd gc fc
    by (simp add: archiveDocuments_def Let_def writeAndCloseGzip_def NewWriterLevel_default)
  have "appended streamEvent wC w1"
    using writeDocuments_frame [OF wd [folded p_def, folded wC_def]] by simp
  then obtain e1 where e1: "events w1 = events wC @ e1" "list_all streamEvent e1"
    by (auto simp: appended_def)
  obtain fl where fl: "events w2 = events w1 @ Call_gzip_Close # fl" "list_all isWrite fl"
    using gzip_Close_frame [OF gc] by auto
  have e3: "events w3 = events w2 @ [Call_Close]"
    using sink_Close_frame [OF fc] by simp
  define pre where "pre = [Call_Exists p, Slog LevelInfo ''writing to file'' [slog_String ''fileName'' p],
                            Call_Create p] @ e1"
  have no: "Call_gzip_Close \<notin> set e1" "Call_Close \<notin> set e1"
    using e1(2) by (auto simp: list_all_iff streamEvent_def)
  have shape: "events w3 = events w @ pre @ [Call_gzip_Close] @ fl @ [Call_Close]"
    by (simp add: e3 fl e1 pre_def wC_def)
  have "Call_gzip_Close \<notin> set pre" "Call_Close \<notin> set pre"
    using no by (simp_all add: pre_def)
  with shape fl(2) have tr: "\<exists>pre fl. events w3 = events w @ pre @ [Call_gzip_Close] @ fl @ [Call_Close]
               \<and> Call_gzip_Close \<notin> set pre \<and> Call_Close \<notin> set pre \<and> list_all isWrite fl"
    by blast
  show ?thesis
    unfolding res using tr
    by (simp add: deferredClose_carries carries_refl)
qed

theorem archiveDocuments_closes_witness:
  "archiveDocuments storedGzip (NewArchiver MongoDB mockStore False False 0) context_Background
       (nov 1) brokenRun
     = (Some (joinError [errors_New ''connection reset'',
                         fmt_Errorf ''failed to close file: %w'' (errors_New ''force-close-error'')]),
        brokenRun\<lparr>sto := \<lparr>files = [''2024/11/01.json.gz'' \<mapsto> []],
                             forceCloseError = Some (errors_New ''force-close-error'')\<rparr>,
                  events := [Call_Exists ''2024/11/01.json.gz'',
                             Slog LevelInfo ''writing to file''
                               [slog_String ''fileName'' ''2024/11/01.json.gz''],
                             Call_Create ''2024/11/01.json.gz'',
                             Call_FindAllFromDate (nov 1),
                             Call_gzip_Close, Call_Write [], Call_Close]\<rparr>)
   \<and> carries (fst (archiveDocuments storedGzip (NewArchiver MongoDB mockStore False False 0)
                      context_Background (nov 1) brokenRun))
        (Some (errors_New ''connection reset''))
   \<and> carries (fst (archiveDocuments storedGzip (NewArchiver MongoDB mockStore False False 0)
                      context_Background (nov 1) brokenRun))
        (Some (errors_New ''force-close-error''))"
proof -
  define a where "a = NewArchiver MongoDB mockStore False False (0::int)"
  define p where "p = ''2024/11/01.json.gz''"
  define wc where "wc = errCloser p (Some (errors_New ''force-close-error''))"
  define f where "f = (sto brokenRun)\<lparr>files := (files (sto brokenRun))(p \<mapsto> [])\<rparr>"
  define z where "z = \<lparr>gz_w = wc, gz_level = DefaultCompression, gz_input = [], gz_err = None,
                       gz_closed = False\<rparr>"
  define wC where "wC = (emit (Call_Create (fileName_of (nov 1)))
                  (emit (Slog LevelInfo ''writing to file'' [slog_String ''fileName'' (fileName_of (nov 1))])
                     (emit (Call_Exists (fileName_of (nov 1))) brokenRun)))\<lparr>sto := f\<rparr>"
  have ex: "Exists (store a) (fileName_of (nov 1)) (sto brokenRun) = (False, None)"
    by (simp add: a_def NewArchiver_def mockStore_def mockStorage_Exists_def brokenRun_def)
  have cr: "Create (store a) (fileName_of (nov 1)) (sto brokenRun) = (Inr wc, f)"
    by (simp add: a_def NewArchiver_def mockStore_def mockStorage_Create_def brokenRun_def wc_def
        f_def fileName_nov p_def)
  obtain primary gw1 w1 where wd: "writeDocuments storedGzip a context_Background (nov 1) z wC
      = (primary, gw1, w1)"
    by (cases "writeDocuments storedGzip a context_Background (nov 1) z wC")
  have fw: "files (sto wC) p = Some []" by (simp add: wC_def f_def)
  have pr: "primary = Some (errors_New ''connection reset'')"
    using wd mock_writeDocuments [of z p "Some (errors_New ''force-close-error'')" wC "[]" a "nov 1"
        "FindAllFromDate (source a) (nov 1) (src wC)" storedGzip context_Background] fw
    by (simp add: z_def wc_def a_def NewArchiver_def MongoDB_def MongoDB_FindAllFromDate_def
        wC_def brokenRun_def)
  obtain gzErr gw2 w2 where gc: "gzip_Close storedGzip gw1 w1 = (gzErr, gw2, w2)"
    by (cases "gzip_Close storedGzip gw1 w1")
  obtain fileErr w3 where fc: "sink_Close wc w2 = (fileErr, w3)"
    by (cases "sink_Close wc w2")
  have fe: "fileErr = Some (errors_New ''force-close-error'')"
    using fc by (simp add: sink_Close_def Let_def wc_def mock_Write split: prod.splits)
  note T = archiveDocuments_closes [OF ex cr wd [unfolded z_def wC_def] gc fc]
  have ev: "archiveDocuments storedGzip a context_Background (nov 1) brokenRun
     = (Some (joinError [errors_New ''connection reset'',
                         fmt_Errorf ''failed to close file: %w'' (errors_New ''force-close-error'')]),
        brokenRun\<lparr>sto := \<lparr>files = [''2024/11/01.json.gz'' \<mapsto> []],
                             forceCloseError = Some (errors_New ''force-close-error'')\<rparr>,
                  events := [Call_Exists ''2024/11/01.json.gz'',
                             Slog LevelInfo ''writing to file''
                               [slog_String ''fileName'' ''2024/11/01.json.gz''],
                             Call_Create ''2024/11/01.json.gz'',
                             Call_FindAllFromDate (nov 1),
                             Call_gzip_Close, Call_Write [], Call_Close]\<rparr>)"
    by (simp add: a_def NewArchiver_def mock_archive_eq brokenRun_def fileName_nov MongoDB_def
        MongoDB_FindAllFromDate_def deferredClose_def errors_Join_def List.map_filter_def
        storedGzip_def withNewlines_def)
  have c1: "carries (fst (archiveDocuments storedGzip a context_Background (nov 1) brokenRun))
              (Some (errors_New ''connection reset''))"
    using T pr by blast
  have c3: "carries (fst (archiveDocuments storedGzip a context_Background (nov 1) brokenRun))
              (Some (errors_New ''force-close-error''))"
    using T fe by blast
  show ?thesis
    using ev c1 c3 unfolding a_def by (intro conjI)
qed

section \<open>An existing file under the default policy\<close>

text \<open>
  Claim C4. When the loop of \<^verbatim>\<open>Run\<close> comes to a day whose file the store reports as
  existing, and existing files are not ignored, the run ends there with the conflict error
  "target file exists" (wrapped by \<^verbatim>\<open>archiveDocumentsAndDelete\<close> and by \<^verbatim>\<open>Run\<close>). The state
  it leaves differs from the state before the day in the trace only, by the log record of
  the day, the call of \<^verbatim>\<open>Exists\<close> and the log record of the conflict: the document source
  is as it was, \<^verbatim>\<open>DeleteAllFromDate\<close> is not called, nothing is created or written. So a
  run over a state that is archived already fails before it deletes anything.
\<close>

theorem conflict_fails_before_delete:
  assumes "Before date target"
    and "\<not> ignoreFileExistsError a"
    and "Exists (store a) (fileName_of date) (sto w) = (True, None)"
  shows "Run_loop gz rt a ctx target date total' w =
           (Some (fmt_Errorf ''archival failed: %w''
                    (fmt_Errorf ''failed to archive documents: %w''
                       (errors_New ''target file exists''))),
            w\<lparr>events := events w @
                 [Slog LevelInfo ''archiving'' [slog_TimeString ''date'' date],
                  Call_Exists (fileName_of date),
                  Slog LevelError ''target file already exists''
                    [slog_String ''file'' (fileName_of date)]]\<rparr>)"
  using assms
  by (subst Run_loop.simps)
    (simp add: archiveDocumentsAndDelete_def archiveDocuments_def Let_def emit_def)

theorem conflict_fails_before_delete_witness:
  "Run storedGzip punctual (NewArchiver mockSource mockStore False False 0) context_Background (nov 2)
       archivedRun
     = (Some (fmt_Errorf ''archival failed: %w''
                (fmt_Errorf ''failed to archive documents: %w''
                   (errors_New ''target file exists''))),
        archivedRun\<lparr>events :=
           [Call_EarliestCreatedAt,
            Slog LevelInfo ''archiver running''
              [slog_TimeString ''target'' (nov 2), slog_TimeString ''earliest'' (nov 1)],
            Slog LevelInfo ''archiving'' [slog_TimeString ''date'' (nov 1)],
            Call_Exists ''2024/11/01.json.gz'',
            Slog LevelError ''target file already exists''
              [slog_String ''file'' ''2024/11/01.json.gz'']]\<rparr>)"
proof -
  define a where "a = NewArchiver mockSource mockStore False False (0::int)"
  define w where "w = emit (Slog LevelInfo ''archiver running''
              [slog_TimeString ''target'' (nov 2), slog_TimeString ''earliest'' (nov 1)])
              (emit Call_EarliestCreatedAt archivedRun)"
  have h1: "Before (nov 1) (nov 2)" by (simp add: Before_nov)
  have h2: "\<not> ignoreFileExistsError a" by (simp add: a_def NewArchiver_def)
  have h3: "Exists (store a) (fileName_of (nov 1)) (sto w) = (True, None)"
    by (simp add: a_def NewArchiver_def w_def archivedRun_def mockStore_def mockStorage_Exists_def
        fileName_nov)
  note T = conflict_fails_before_delete [OF h1 h2 h3, of storedGzip punctual context_Background 0]
  have "Run storedGzip punctual a context_Background (nov 2) archivedRun
          = Run_loop storedGzip punctual a context_Background (nov 2) (nov 1) 0 w"
    by (simp add: Run_def Let_def a_def NewArchiver_def mockSource_def archivedRun_src
        mock_earliest_one Truncate_nov0 w_def)
  also note T
  finally show ?thesis
    unfolding a_def by (simp add: w_def fileName_nov emit_def archivedRun_def)
qed

section \<open>An existing file under the ignore-existing policy\<close>

text \<open>
  Claim C5. When the loop of \<^verbatim>\<open>Run\<close> comes to a day whose file the store reports as
  existing, and existing files are ignored, the day's step succeeds without creating or
  writing anything: the store is as it was, and the trace gets the log record of the day,
  the call of \<^verbatim>\<open>Exists\<close>, the log record of the conflict and the warning that the write is
  skipped. Unless deletion is skipped, \<^verbatim>\<open>DeleteAllFromDate\<close> is then called for the day and,
  when it returns no error, the source is in the state it returns. The day counts as
  archived: the loop goes on with the next day and the counter raised by one, and when
  there is no next day before the cutoff the run returns nil.
\<close>

theorem ignore_existing_skips_write:
  assumes "Before date target"
    and "ignoreFileExistsError a"
    and "Exists (store a) (fileName_of date) (sto w) = (True, None)"
    and "DeleteAllFromDate (source a) date (src w) = ((n, None), s)"
    and "select_Done rt ctx (delay a) (total' + 1) = None"
  shows "Run_loop gz rt a ctx target date total' w =
           Run_loop gz rt a ctx target (AddDate date 0 0 1) (total' + 1)
             (if skipDelete a then
                w\<lparr>events := events w @
                     [Slog LevelInfo ''archiving'' [slog_TimeString ''date'' date],
                      Call_Exists (fileName_of date),
                      Slog LevelError ''target file already exists''
                        [slog_String ''file'' (fileName_of date)],
                      Slog LevelWarn ''skipping documents write'' []]\<rparr>
              else
                w\<lparr>src := s,
                  events := events w @
                     [Slog LevelInfo ''archiving'' [slog_TimeString ''date'' date],
                      Call_Exists (fileName_of date),
                      Slog LevelError ''target file already exists''
                        [slog_String ''file'' (fileName_of date)],
                      Slog LevelWarn ''skipping documents write'' [],
                      Call_DeleteAllFromDate date,
                      Slog LevelInfo ''documents deleted'' [slog_Int ''total'' n]]\<rparr>)
         \<and> (\<not> Before (AddDate date 0 0 1) target
              \<longrightarrow> fst (Run_loop gz rt a ctx target date total' w) = None)"
  using assms
  by (subst Run_loop.simps, subst (2) Run_loop.simps)
    (simp add: archiveDocumentsAndDelete_def archiveDocuments_def Let_def emit_def
      Run_loop.simps [where date = "AddDate date 0 0 1"])

theorem ignore_existing_skips_write_witness:
  "Run storedGzip punctual (NewArchiver mockSource mockStore False True 0) context_Background (nov 2)
       archivedRun
     = (None,
        archivedRun\<lparr>src := [],
          events :=
           [Call_EarliestCreatedAt,
            Slog LevelInfo ''archiver running''
              [slog_TimeString ''target'' (nov 2), slog_TimeString ''earliest'' (nov 1)],
            Slog LevelInfo ''archiving'' [slog_TimeString ''date'' (nov 1)],
            Call_Exists ''2024/11/01.json.gz'',
            Slog LevelError ''target file already exists''
              [slog_String ''file'' ''2024/11/01.json.gz''],
            Slog LevelWarn ''skipping documents write'' [],
            Call_DeleteAllFromDate (nov 1),
            Slog LevelInfo ''documents deleted'' [slog_Int ''total'' 1],
            Slog LevelInfo ''target reached'' [slog_Int ''datesArchived'' 1]]\<rparr>)"
proof -
  define a where "a = NewArchiver mockSource mockStore False True (0::int)"
  define w where "w = emit (Slog LevelInfo ''archiver running''
              [slog_TimeString ''target'' (nov 2), slog_TimeString ''earliest'' (nov 1)])
              (emit Call_EarliestCreatedAt archivedRun)"
  have h1: "Before (nov 1) (nov 2)" by (simp add: Before_nov)
  have h2: "ignoreFileExistsError a" by (simp add: a_def NewArchiver_def)
  have h3: "Exists (store a) (fileName_of (nov 1)) (sto w) = (True, None)"
    by (simp add: a_def NewArchiver_def w_def archivedRun_def mockStore_def mockStorage_Exists_def
        fileName_nov)
  have h4: "DeleteAllFromDate (source a) (nov 1) (src w) = ((1, None), [])"
    by (simp add: a_def NewArchiver_def w_def archivedRun_src mockSource_def
        mock_DeleteAllFromDate_def)
  have h5: "select_Done punctual context_Background (delay a) (0 + 1) = None"
    by (simp add: select_Done_def context_Background_def)
  note T = ignore_existing_skips_write
    [where ctx = context_Background and total' = 0 and gz = storedGzip and rt = punctual,
      OF h1 h2 h3 h4 h5,
      THEN conjunct1]
  have "Run storedGzip punctual a context_Background (nov 2) archivedRun
          = Run_loop storedGzip punctual a context_Background (nov 2) (nov 1) 0 w"
    by (simp add: Run_def Let_def a_def NewArchiver_def mockSource_def archivedRun_src
        mock_earliest_one Truncate_nov0 w_def)
  also note T
  finally show ?thesis
    unfolding a_def
    by (simp add: w_def fileName_nov emit_def archivedRun_def NewArchiver_def AddDate_nov
        Run_loop.simps [where date = "nov 2"] Before_nov)
qed

section \<open>Cancellation between two days\<close>

text \<open>
  Claim C7, as the code has it. A day's archive and deletion have completed, leaving the
  state \<open>w1\<close>, and the context is cancelled a duration \<open>t\<close> after the wait that follows has
  begun (or was cancelled before, \<open>t \<le> 0\<close>). If the delay has not passed by then, nor when
  the \<^verbatim>\<open>select\<close> first looks at its channels, the run returns \<^verbatim>\<open>ctx.Err()\<close> and leaves
  exactly \<open>w1\<close>: the file and the deletion of the completed day stay, and nothing is logged,
  asked, created, written or deleted for a later day.

  The claim as it was stated has no condition on the delay. It fails when the delay has
  passed: with no delay the timer's case can proceed as soon as the \<^verbatim>\<open>select\<close> begins, the
  \<^verbatim>\<open>select\<close> may take it although the context is cancelled, and the next day is then
  archived and deleted.
\<close>

theorem cancel_between_days:
  assumes "Before date target"
    and "archiveDocumentsAndDelete gz a ctx date
           (emit (Slog LevelInfo ''archiving'' [slog_TimeString ''date'' date]) w) = (None, w1)"
    and "ctx (total' + 1) = Some (t, c)"
    and "t < delay a"
    and "int (latency rt (total' + 1)) < delay a"
  shows "Run_loop gz rt a ctx target date total' w = (Some c, w1)"
  using assms by (subst Run_loop.simps) (simp add: select_Done_def Let_def max_def)

theorem cancel_between_days_witness:
  "fst (Run storedGzip punctual (NewArchiver MongoDB mockStore False False (30 * Second))
          cancelledAfterFirst (nov 3) (scenario ''a'' ''b'' ''c'' ''d'' ''e''))
     = Some context_Canceled
   \<and> files (sto (snd (Run storedGzip punctual (NewArchiver MongoDB mockStore False False (30 * Second))
                         cancelledAfterFirst (nov 3) (scenario ''a'' ''b'' ''c'' ''d'' ''e''))))
       = [''2024/11/01.json.gz'' \<mapsto> ''a'' @ [newline]]
   \<and> documents (src (snd (Run storedGzip punctual
                             (NewArchiver MongoDB mockStore False False (30 * Second))
                             cancelledAfterFirst (nov 3) (scenario ''a'' ''b'' ''c'' ''d'' ''e''))))
       = [docB ''b'', docC ''c'', docD ''d'', docE ''e'']
   \<and> daysProcessed (events (snd (Run storedGzip punctual
                                   (NewArchiver MongoDB mockStore False False (30 * Second))
                                   cancelledAfterFirst (nov 3)
                                   (scenario ''a'' ''b'' ''c'' ''d'' ''e''))))
       = [nov 1]
   \<and> deletions (events (snd (Run storedGzip punctual
                               (NewArchiver MongoDB mockStore False False (30 * Second))
                               cancelledAfterFirst (nov 3)
                               (scenario ''a'' ''b'' ''c'' ''d'' ''e''))))
       = [nov 1]
   \<and> creations (events (snd (Run storedGzip punctual
                               (NewArchiver MongoDB mockStore False False (30 * Second))
                               cancelledAfterFirst (nov 3)
                               (scenario ''a'' ''b'' ''c'' ''d'' ''e''))))
       = [''2024/11/01.json.gz'']"
proof -
  define a where "a = NewArchiver MongoDB mockStore False False (30 * Second)"
  define w where "w = emit (Slog LevelInfo ''archiver running''
              [slog_TimeString ''target'' (nov 3),
               slog_TimeString ''earliest'' (createdAt (docA ''a''))])
              (emit Call_EarliestCreatedAt (scenario ''a'' ''b'' ''c'' ''d'' ''e''))"
  define w1 where "w1 = snd (archiveDocumentsAndDelete storedGzip a cancelledAfterFirst (nov 1)
           (emit (Slog LevelInfo ''archiving'' [slog_TimeString ''date'' (nov 1)]) w))"
  have h1: "Before (nov 1) (nov 3)" by (simp add: Before_nov)
  have ev: "archiveDocumentsAndDelete storedGzip a cancelledAfterFirst (nov 1)
           (emit (Slog LevelInfo ''archiving'' [slog_TimeString ''date'' (nov 1)]) w)
         = (None,
            \<lparr>src = \<lparr>documents = [docB ''b'', docC ''c'', docD ''d'', docE ''e''], fault = None\<rparr>,
             sto = \<lparr>files = [''2024/11/01.json.gz'' \<mapsto> ''a'' @ [newline]], forceCloseError = None\<rparr>,
             events =
               [Call_EarliestCreatedAt,
                Slog LevelInfo ''archiver running''
                  [slog_TimeString ''target'' (nov 3),
                   slog_TimeString ''earliest'' (createdAt (docA ''a''))],
                Slog LevelInfo ''archiving'' [slog_TimeString ''date'' (nov 1)],
                Call_Exists ''2024/11/01.json.gz'',
                Slog LevelInfo ''writing to file'' [slog_String ''fileName'' ''2024/11/01.json.gz''],
                Call_Create ''2024/11/01.json.gz'',
                Call_FindAllFromDate (nov 1),
                Call_Write (''a'' @ [newline]),
                Slog LevelInfo ''documents written'' [slog_Int ''total'' 1],
                Call_gzip_Close, Call_Write [], Call_Close,
                Call_DeleteAllFromDate (nov 1),
                Slog LevelInfo ''documents deleted'' [slog_Int ''total'' 1]]\<rparr>)"
    by (simp add: a_def w_def run_eval scenario_def storedGzip_def)
  have h3: "cancelledAfterFirst (0 + 1) = Some (5 * Second, context_Canceled)"
    by (simp add: cancelledAfterFirst_def)
  have h4: "5 * Second < delay a"
    by (simp add: a_def NewArchiver_def unit_defs)
  have h5: "int (latency punctual (0 + 1)) < delay a"
    by (simp add: a_def NewArchiver_def punctual_def unit_defs)
  note T = cancel_between_days
    [where ctx = cancelledAfterFirst and total' = 0 and target = "nov 3" and rt = punctual,
      OF h1 ev h3 h4 h5]
  have "Run storedGzip punctual a cancelledAfterFirst (nov 3) (scenario ''a'' ''b'' ''c'' ''d'' ''e'')
          = Run_loop storedGzip punctual a cancelledAfterFirst (nov 3) (nov 1) 0 w"
    by (simp add: Run_def Let_def a_def NewArchiver_def MongoDB_def scenario_def earliest_scenario
        trunc_scenario w_def)
  also note T
  finally show ?thesis
    unfolding a_def by (simp add: daysProcessed_def archivingDate_def List.map_filter_def)
qed

text \<open>
  The tests' in-memory source and store, which do not look at the context, with one
  document of 2024-11-01 and one of 2024-11-02, no delay, and a context that is cancelled
  at the moment the first day is done: when the \<^verbatim>\<open>select\<close> takes the timer's case, the day
  2024-11-02 is archived and deleted too, and the run returns nil.
\<close>

theorem cancel_between_days_counterexample:
  "cancelledAtFirst 1 = Some (0, context_Canceled)
   \<and> fst (Run storedGzip timerFirst (NewArchiver mockSource mockStore False False 0)
            cancelledAtFirst (nov 3) twoDayRun) = None
   \<and> daysProcessed (events (snd (Run storedGzip timerFirst
                                   (NewArchiver mockSource mockStore False False 0)
                                   cancelledAtFirst (nov 3) twoDayRun)))
       = [nov 1, nov 2]
   \<and> creations (events (snd (Run storedGzip timerFirst
                               (NewArchiver mockSource mockStore False False 0)
                               cancelledAtFirst (nov 3) twoDayRun)))
       = [''2024/11/01.json.gz'', ''2024/11/02.json.gz'']
   \<and> deletions (events (snd (Run storedGzip timerFirst
                               (NewArchiver mockSource mockStore False False 0)
                               cancelledAtFirst (nov 3) twoDayRun)))
       = [nov 1, nov 2]
   \<and> files (sto (snd (Run storedGzip timerFirst (NewArchiver mockSource mockStore False False 0)
                         cancelledAtFirst (nov 3) twoDayRun)))
       = [''2024/11/01.json.gz'' \<mapsto> ''doc1'' @ [newline],
          ''2024/11/02.json.gz'' \<mapsto> ''doc2'' @ [newline]]
   \<and> src (snd (Run storedGzip timerFirst (NewArchiver mockSource mockStore False False 0)
                  cancelledAtFirst (nov 3) twoDayRun)) = []"
proof -
  have sel: "select_Done timerFirst cancelledAtFirst 0 k = None" for k
    by (simp add: select_Done_def timerFirst_def cancelledAtFirst_def)
  have c: "cancelledAtFirst 1 = Some (0, context_Canceled)"
    by (simp add: cancelledAtFirst_def)
  have r: "Run storedGzip timerFirst (NewArchiver mockSource mockStore False False 0)
             cancelledAtFirst (nov 3) twoDayRun
           = (None,
              \<lparr>src = [],
               sto = \<lparr>files = [''2024/11/01.json.gz'' \<mapsto> ''doc1'' @ [newline],
                               ''2024/11/02.json.gz'' \<mapsto> ''doc2'' @ [newline]],
                      forceCloseError = None\<rparr>,
               events =
                 [Call_EarliestCreatedAt,
                  Slog LevelInfo ''archiver running''
                    [slog_TimeString ''target'' (nov 3), slog_TimeString ''earliest'' (nov 1)],
                  Slog LevelInfo ''archiving'' [slog_TimeString ''date'' (nov 1)],
                  Call_Exists ''2024/11/01.json.gz'',
                  Slog LevelInfo ''writing to file'' [slog_String ''fileName'' ''2024/11/01.json.gz''],
                  Call_Create ''2024/11/01.json.gz'',
                  Call_FindAllFromDate (nov 1),
                  Call_Write (''doc1'' @ [newline]),
                  Slog LevelInfo ''documents written'' [slog_Int ''total'' 1],
                  Call_gzip_Close, Call_Write [], Call_Close,
                  Call_DeleteAllFromDate (nov 1),
                  Slog LevelInfo ''documents deleted'' [slog_Int ''total'' 1],
                  Slog LevelInfo ''archiving'' [slog_TimeString ''date'' (nov 2)],
                  Call_Exists ''2024/11/02.json.gz'',
                  Slog LevelInfo ''writing to file'' [slog_String ''fileName'' ''2024/11/02.json.gz''],
                  Call_Create ''2024/11/02.json.gz'',
                  Call_FindAllFromDate (nov 2),
                  Call_Write (''doc2'' @ [newline]),
                  Slog LevelInfo ''documents written'' [slog_Int ''total'' 1],
                  Call_gzip_Close, Call_Write [], Call_Close,
                  Call_DeleteAllFromDate (nov 2),
                  Slog LevelInfo ''documents deleted'' [slog_Int ''total'' 1],
                  Slog LevelInfo ''target reached'' [slog_Int ''datesArchived'' 2]]\<rparr>)"
    by (simp add: run_eval sel twoDayRun_eq mock_earliest_two mockSource_def
        mock_FindAllFromDate_def mock_DeleteAllFromDate_def Truncate_nov0 storedGzip_def nov_neq)
  show ?thesis
    unfolding r using c
    by (simp add: daysProcessed_def archivingDate_def List.map_filter_def)
qed


section \<open>Skipping the deletion\<close>

text \<open>
  Claim C9. With \<^verbatim>\<open>skipDelete\<close> set, a run, whatever its outcome, leaves the document source
  in the state it found it in, and adds no call of \<^verbatim>\<open>DeleteAllFromDate\<close> to the trace: the
  documents of every day are as they were, and only files are produced.
\<close>

theorem skipDelete_never_deletes:
  assumes "skipDelete a"
  shows "src (snd (Run gz rt a ctx target w)) = src w
         \<and> deletions (events (snd (Run gz rt a ctx target w))) = deletions (events w)"
proof -
  obtain t e where ea: "EarliestCreatedAt (source a) (src w) = (t, e)"
    by (cases "EarliestCreatedAt (source a) (src w)")
  show ?thesis
  proof (cases e)
    case (Some x)
    with ea show ?thesis by (simp add: Run_def Let_def)
  next
    case None
    with ea show ?thesis
      using Run_loop_skipDelete [OF assms, of gz rt ctx target "Truncate t (Hour * 24)" 0
          "emit (Slog LevelInfo ''archiver running''
                        [slog_TimeString ''target'' target, slog_TimeString ''earliest'' t])
                  (emit Call_EarliestCreatedAt w)"]
      by (simp add: Run_def Let_def)
  qed
qed

theorem skipDelete_never_deletes_witness:
  "skipDelete (NewArchiver MongoDB mockStore True False 0)
   \<and> fst (Run storedGzip punctual (NewArchiver MongoDB mockStore True False 0) context_Background (nov 3)
          (scenario ''a'' ''b'' ''c'' ''d'' ''e'')) = None
   \<and> src (snd (Run storedGzip punctual (NewArchiver MongoDB mockStore True False 0) context_Background
                  (nov 3) (scenario ''a'' ''b'' ''c'' ''d'' ''e'')))
       = \<lparr>documents = [docA ''a'', docB ''b'', docC ''c'', docD ''d'', docE ''e''], fault = None\<rparr>
   \<and> deletions (events (snd (Run storedGzip punctual (NewArchiver MongoDB mockStore True False 0)
                  context_Background (nov 3) (scenario ''a'' ''b'' ''c'' ''d'' ''e'')))) = []
   \<and> files (sto (snd (Run storedGzip punctual (NewArchiver MongoDB mockStore True False 0)
                  context_Background (nov 3) (scenario ''a'' ''b'' ''c'' ''d'' ''e''))))
       = [''2024/11/01.json.gz'' \<mapsto> ''a'' @ [newline],
          ''2024/11/02.json.gz'' \<mapsto> ''b'' @ [newline] @ ''c'' @ [newline]]"
proof -
  have h: "skipDelete (NewArchiver MongoDB mockStore True False 0)"
    by (simp add: NewArchiver_def)
  note T = skipDelete_never_deletes [OF h, of storedGzip punctual context_Background "nov 3"
      "scenario ''a'' ''b'' ''c'' ''d'' ''e''"]
  have s0: "src (scenario ''a'' ''b'' ''c'' ''d'' ''e'')
      = \<lparr>documents = [docA ''a'', docB ''b'', docC ''c'', docD ''d'', docE ''e''], fault = None\<rparr>"
    "deletions (events (scenario ''a'' ''b'' ''c'' ''d'' ''e'')) = []"
    by (simp_all add: scenario_def)
  have ev: "fst (Run storedGzip punctual (NewArchiver MongoDB mockStore True False 0) context_Background (nov 3)
          (scenario ''a'' ''b'' ''c'' ''d'' ''e'')) = None
     \<and> files (sto (snd (Run storedGzip punctual (NewArchiver MongoDB mockStore True False 0)
                  context_Background (nov 3) (scenario ''a'' ''b'' ''c'' ''d'' ''e''))))
       = [''2024/11/01.json.gz'' \<mapsto> ''a'' @ [newline],
          ''2024/11/02.json.gz'' \<mapsto> ''b'' @ [newline] @ ''c'' @ [newline]]"
    by (simp add: run_eval scenario_def earliest_scenario trunc_scenario storedGzip_def)
  show ?thesis using h T ev unfolding s0 by simp
qed

section \<open>The days of a run\<close>

text \<open>
  Claim C2, as the code has it. Let \<open>earliest\<close> be the result of \<^verbatim>\<open>EarliestCreatedAt\<close>. The
  days that \<^verbatim>\<open>Run\<close> goes through are, in order, the first \<open>n\<close> members of the sequence that
  starts at \<^verbatim>\<open>earliest.Truncate(24h)\<close> and goes on by \<^verbatim>\<open>AddDate(0, 0, 1)\<close>, and the run
  works on these days and on no other:

  \<^item> after the call of \<^verbatim>\<open>EarliestCreatedAt\<close>, the calls of the run are those of the first
    day, then those of the second, and so on; the calls of a day begin after the log record
    of that day, and they are the check, the creation, the query and the deletion for
    that day's file name and date, in one of the five forms of \<open>dayCalls\<close>;
  \<^item> the days logged are these \<open>n\<close> days;
  \<^item> the days whose documents are deleted are none if \<^verbatim>\<open>skipDelete\<close> is set, and otherwise
    all of the \<open>n\<close> days or all but the last, and all of them when the run returns nil;
    the document source is left in the state that these deletions, and nothing else,
    make of the state it was in;
  \<^item> all of the \<open>n\<close> days are before the cutoff; when the run returns nil they are exactly
    the members of the sequence that are before the cutoff; there is no day exactly when
    the truncated \<open>earliest\<close> is not before the cutoff;
  \<^item> the \<open>k\<close>-th member of the sequence is \<open>k\<close> times 24 hours after the first, and the
    first is the UTC midnight (a multiple of 24 hours since the epoch) of the day of
    \<open>earliest\<close>.

  The claim as it was stated also says that the sequence is empty whenever
  \<open>earliest >= cutoff\<close>. That fails for a cutoff inside the day of \<open>earliest\<close>: with the only
  document at 12:00 of 2024-11-02 and the cutoff at 06:00 of that day, the day 2024-11-02
  is processed and its document deleted.
\<close>

theorem Run_days:
  assumes "EarliestCreatedAt (source a) (src w) = (earliest, None)"
  shows "\<exists>n css ds.
           calls (events (snd (Run gz rt a ctx target w)))
             = calls (events w) @ Call_EarliestCreatedAt
                 # concat (map2 dayTrace (daysFrom (Truncate earliest (Hour * 24)) n) css)
         \<and> list_all2 dayCalls (daysFrom (Truncate earliest (Hour * 24)) n) css
         \<and> daysProcessed (events (snd (Run gz rt a ctx target w)))
             = daysProcessed (events w) @ daysFrom (Truncate earliest (Hour * 24)) n
         \<and> deletions (events (snd (Run gz rt a ctx target w))) = deletions (events w) @ ds
         \<and> (skipDelete a \<longrightarrow> ds = [])
         \<and> (\<not> skipDelete a \<longrightarrow>
               ds = daysFrom (Truncate earliest (Hour * 24)) n
               \<or> ds = butlast (daysFrom (Truncate earliest (Hour * 24)) n))
         \<and> (\<not> skipDelete a \<and> fst (Run gz rt a ctx target w) = None \<longrightarrow>
               ds = daysFrom (Truncate earliest (Hour * 24)) n)
         \<and> src (snd (Run gz rt a ctx target w))
             = foldl (\<lambda>s d. snd (DeleteAllFromDate (source a) d s)) (src w) ds
         \<and> (\<forall>k<n. Before (((\<lambda>d. AddDate d 0 0 1) ^^ k) (Truncate earliest (Hour * 24))) target)
         \<and> (fst (Run gz rt a ctx target w) = None \<longrightarrow>
               (\<forall>k. Before (((\<lambda>d. AddDate d 0 0 1) ^^ k) (Truncate earliest (Hour * 24))) target
                      \<longleftrightarrow> k < n))
         \<and> (n = 0 \<longleftrightarrow> \<not> Before (Truncate earliest (Hour * 24)) target)
         \<and> (\<forall>k. ((\<lambda>d. AddDate d 0 0 1) ^^ k) (Truncate earliest (Hour * 24))
                    = Truncate earliest (Hour * 24) + int k * (24 * Hour))
         \<and> Truncate earliest (Hour * 24) \<le> earliest
         \<and> earliest < Truncate earliest (Hour * 24) + 24 * Hour
         \<and> Truncate earliest (Hour * 24) mod (24 * Hour) = 0"
proof -
  define T where "T = Truncate earliest (Hour * 24)"
  define w0 where "w0 = emit (Slog LevelInfo ''archiver running''
                        [slog_TimeString ''target'' target, slog_TimeString ''earliest'' earliest])
                  (emit Call_EarliestCreatedAt w)"
  have run: "Run gz rt a ctx target w = Run_loop gz rt a ctx target T 0 w0"
    using assms by (simp add: Run_def Let_def T_def w0_def)
  have c0: "calls (events w0) = calls (events w) @ [Call_EarliestCreatedAt]"
    by (simp add: w0_def)
  have d0: "deletions (events w0) = deletions (events w)"
    by (simp add: w0_def deletions_def map_filter_append List.map_filter_def deletionDate_def)
  have s0: "src w0 = src w" by (simp add: w0_def)
  from Run_loop_trace [of a target T w0 gz rt ctx 0] obtain n css ds where
    "loopTrace a target T w0 (Run_loop gz rt a ctx target T 0 w0) n css ds" by blast
  note l = this [unfolded loopTrace_def c0 d0 s0]
  have cl: "calls (events (snd (Run_loop gz rt a ctx target T 0 w0)))
              = calls (events w) @ Call_EarliestCreatedAt # concat (map2 dayTrace (daysFrom T n) css)"
    using l by simp
  have la: "list_all2 dayCalls (daysFrom T n) css" using l by simp
  have "daysProcessed (events (snd (Run_loop gz rt a ctx target T 0 w0)))
          = daysProcessed (calls (events (snd (Run_loop gz rt a ctx target T 0 w0))))"
    by (simp add: daysProcessed_calls)
  also have "\<dots> = daysProcessed (calls (events w))
                  @ daysProcessed (concat (map2 dayTrace (daysFrom T n) css))"
    unfolding cl by (simp add: daysProcessed_simps)
  also have "\<dots> = daysProcessed (events w) @ daysFrom T n"
    by (simp add: daysProcessed_calls daysProcessed_dayTraces [OF la])
  finally have dp: "daysProcessed (events (snd (Run_loop gz rt a ctx target T 0 w0)))
                      = daysProcessed (events w) @ daysFrom T n" .
  have pos: "(0::int) < Hour * 24" "Hour * 24 = 24 * Hour" by (simp_all add: unit_defs)
  have exact: "\<forall>k. Before (T + int k * (24 * Hour)) target \<longleftrightarrow> k < n"
    if "fst (Run_loop gz rt a ctx target T 0 w0) = None"
  proof (intro allI iffI)
    fix k assume b: "Before (T + int k * (24 * Hour)) target"
    show "k < n"
    proof (rule ccontr)
      assume "\<not> k < n"
      then have "int n * (24 * Hour) \<le> int k * (24 * Hour)" using pos by simp
      with b have "Before (T + int n * (24 * Hour)) target" by (simp add: Before_def)
      with l that show False by simp
    qed
  next
    fix k assume "k < n"
    with l show "Before (T + int k * (24 * Hour)) target" by simp
  qed
  have z: "zeroTime mod (24 * Hour) = 0" by (simp add: zeroTime_def unit_defs)
  have tb: "T \<le> earliest" "earliest < T + 24 * Hour" "(T - zeroTime) mod (24 * Hour) = 0"
    using Truncate_bounds [OF pos(1), of earliest] by (simp_all add: T_def pos(2))
  have "T mod (24 * Hour) = ((T - zeroTime) + zeroTime) mod (24 * Hour)" by simp
  also have "\<dots> = 0" using tb(3) z by (metis mod_add_eq add.right_neutral mod_0)
  finally have tm: "T mod (24 * Hour) = 0" .
  show ?thesis
    unfolding T_def [symmetric] run funpow_AddDate
    using cl la dp l exact tb tm by (intro exI [of _ n] exI [of _ css] exI [of _ ds]) simp
qed

theorem Run_days_witness:
  "EarliestCreatedAt (source (NewArchiver MongoDB mockStore False False 0))
       (src (scenario ''a'' ''b'' ''c'' ''d'' ''e''))
     = (nov 1 + (23 * Hour + 59 * Minute + 59 * Second), None)
   \<and> Truncate (nov 1 + (23 * Hour + 59 * Minute + 59 * Second)) (Hour * 24) = nov 1
   \<and> fst (Run storedGzip punctual (NewArchiver MongoDB mockStore False False 0) context_Background
            (nov 3) (scenario ''a'' ''b'' ''c'' ''d'' ''e'')) = None
   \<and> calls (events (snd (Run storedGzip punctual (NewArchiver MongoDB mockStore False False 0)
         context_Background (nov 3) (scenario ''a'' ''b'' ''c'' ''d'' ''e''))))
       = [Call_EarliestCreatedAt,
          Slog LevelInfo ''archiving'' [slog_TimeString ''date'' (nov 1)],
          Call_Exists ''2024/11/01.json.gz'', Call_Create ''2024/11/01.json.gz'',
          Call_FindAllFromDate (nov 1), Call_DeleteAllFromDate (nov 1),
          Slog LevelInfo ''archiving'' [slog_TimeString ''date'' (nov 2)],
          Call_Exists ''2024/11/02.json.gz'', Call_Create ''2024/11/02.json.gz'',
          Call_FindAllFromDate (nov 2), Call_DeleteAllFromDate (nov 2)]
   \<and> daysProcessed (events (snd (Run storedGzip punctual (NewArchiver MongoDB mockStore False False 0)
         context_Background (nov 3) (scenario ''a'' ''b'' ''c'' ''d'' ''e'')))) = [nov 1, nov 2]
   \<and> deletions (events (snd (Run storedGzip punctual (NewArchiver MongoDB mockStore False False 0)
         context_Background (nov 3) (scenario ''a'' ''b'' ''c'' ''d'' ''e'')))) = [nov 1, nov 2]
   \<and> (\<exists>n css.
         [nov 1, nov 2] = daysFrom (nov 1) n
       \<and> (\<forall>k. Before (((\<lambda>d. AddDate d 0 0 1) ^^ k) (nov 1)) (nov 3) \<longleftrightarrow> k < n)
       \<and> calls (events (snd (Run storedGzip punctual (NewArchiver MongoDB mockStore False False 0)
             context_Background (nov 3) (scenario ''a'' ''b'' ''c'' ''d'' ''e''))))
           = Call_EarliestCreatedAt # concat (map2 dayTrace (daysFrom (nov 1) n) css)
       \<and> list_all2 dayCalls (daysFrom (nov 1) n) css)"
proof -
  define a where "a = NewArchiver MongoDB mockStore False False (0::int)"
  define w where "w = scenario ''a'' ''b'' ''c'' ''d'' ''e''"
  have c: "createdAt (docA ''a'') = nov 1 + (23 * Hour + 59 * Minute + 59 * Second)"
    by (simp add: docA_def)
  have h: "EarliestCreatedAt (source a) (src w)
             = (nov 1 + (23 * Hour + 59 * Minute + 59 * Second), None)"
    by (simp add: a_def w_def NewArchiver_def MongoDB_def scenario_def earliest_scenario c)
  have tr: "Truncate (nov 1 + (23 * Hour + 59 * Minute + 59 * Second)) (Hour * 24) = nov 1"
    using trunc_scenario [of "''a''"] by (simp add: c)
  have ev: "fst (Run storedGzip punctual a context_Background (nov 3) w) = None"
    "calls (events (snd (Run storedGzip punctual a context_Background (nov 3) w)))
       = [Call_EarliestCreatedAt,
          Slog LevelInfo ''archiving'' [slog_TimeString ''date'' (nov 1)],
          Call_Exists ''2024/11/01.json.gz'', Call_Create ''2024/11/01.json.gz'',
          Call_FindAllFromDate (nov 1), Call_DeleteAllFromDate (nov 1),
          Slog LevelInfo ''archiving'' [slog_TimeString ''date'' (nov 2)],
          Call_Exists ''2024/11/02.json.gz'', Call_Create ''2024/11/02.json.gz'',
          Call_FindAllFromDate (nov 2), Call_DeleteAllFromDate (nov 2)]"
    "daysProcessed (events (snd (Run storedGzip punctual a context_Background (nov 3) w)))
       = [nov 1, nov 2]"
    "deletions (events (snd (Run storedGzip punctual a context_Background (nov 3) w)))
       = [nov 1, nov 2]"
    by (simp_all add: a_def w_def run_eval scenario_def earliest_scenario trunc_scenario
        storedGzip_def daysProcessed_def archivingDate_def List.map_filter_def)
  have e0: "daysProcessed (events w) = []" "calls (events w) = []"
    by (simp_all add: w_def scenario_def daysProcessed_simps)
  from Run_days [OF h, of storedGzip punctual context_Background "nov 3"] obtain n css where n:
    "daysProcessed (events (snd (Run storedGzip punctual a context_Background (nov 3) w)))
               = daysProcessed (events w) @ daysFrom (nov 1) n"
    "fst (Run storedGzip punctual a context_Background (nov 3) w) = None \<longrightarrow>
                 (\<forall>k. Before (((\<lambda>d. AddDate d 0 0 1) ^^ k) (nov 1)) (nov 3) \<longleftrightarrow> k < n)"
    "calls (events (snd (Run storedGzip punctual a context_Background (nov 3) w)))
       = calls (events w) @ Call_EarliestCreatedAt # concat (map2 dayTrace (daysFrom (nov 1) n) css)"
    "list_all2 dayCalls (daysFrom (nov 1) n) css"
    unfolding tr by (elim exE conjE) (rule that, assumption+)
  have "[nov 1, nov 2] = daysFrom (nov 1) n
       \<and> (\<forall>k. Before (((\<lambda>d. AddDate d 0 0 1) ^^ k) (nov 1)) (nov 3) \<longleftrightarrow> k < n)
       \<and> calls (events (snd (Run storedGzip punctual a context_Background (nov 3) w)))
           = Call_EarliestCreatedAt # concat (map2 dayTrace (daysFrom (nov 1) n) css)
       \<and> list_all2 dayCalls (daysFrom (nov 1) n) css"
    using n ev(1,3) e0 by simp
  then have ex: "\<exists>n css. [nov 1, nov 2] = daysFrom (nov 1) n
       \<and> (\<forall>k. Before (((\<lambda>d. AddDate d 0 0 1) ^^ k) (nov 1)) (nov 3) \<longleftrightarrow> k < n)
       \<and> calls (events (snd (Run storedGzip punctual a context_Background (nov 3) w)))
           = Call_EarliestCreatedAt # concat (map2 dayTrace (daysFrom (nov 1) n) css)
       \<and> list_all2 dayCalls (daysFrom (nov 1) n) css" by blast
  show ?thesis
    using h tr ev ex unfolding a_def w_def by (intro conjI)
qed


theorem Run_days_counterexample:
  "EarliestCreatedAt (source (NewArchiver MongoDB mockStore False False 0)) (src middayRun)
     = (nov 2 + 12 * Hour, None)
   \<and> \<not> Before (nov 2 + 12 * Hour) (nov 2 + 6 * Hour)
   \<and> daysProcessed (events (snd (Run storedGzip punctual (NewArchiver MongoDB mockStore False False 0)
         context_Background (nov 2 + 6 * Hour) middayRun))) = [nov 2]
   \<and> deletions (events (snd (Run storedGzip punctual (NewArchiver MongoDB mockStore False False 0)
         context_Background (nov 2 + 6 * Hour) middayRun))) = [nov 2]
   \<and> documents (src (snd (Run storedGzip punctual (NewArchiver MongoDB mockStore False False 0)
         context_Background (nov 2 + 6 * Hour) middayRun))) = []"
proof -
  have c: "createdAt (docC ''c'') = nov 2 + 12 * Hour" by (simp add: docC_def)
  have e: "MongoDB_EarliestCreatedAt \<lparr>documents = [docC ''c''], fault = None\<rparr>
             = (nov 2 + 12 * Hour, None)"
    by (simp add: MongoDB_EarliestCreatedAt_def c)
  have t: "Truncate (nov 2 + 12 * Hour) (Hour * 24) = nov 2"
    by (rule Truncate_nov) (simp_all add: unit_defs)
  show ?thesis
    by (simp add: run_eval middayRun_def e t Before_nov_offset storedGzip_def
        daysProcessed_def archivingDate_def List.map_filter_def)
qed

section \<open>A created file is not removed\<close>

text \<open>
  Claim C10, as the code has it. \<^verbatim>\<open>archiveDocuments\<close> never removes what it created: the
  interface of the store has no operation for it. So for a store in which the created path
  exists from \<^verbatim>\<open>Create\<close> on, and stays in existence when the writer is written to and
  closed (the store on disk and the in-memory store are such stores), the path exists
  after the archive step of the day, whatever its outcome and so also when it failed; and
  archiving the day again under the default policy returns the conflict error "target
  file exists".

  The claim as it was stated holds this of every store. It fails for the discarding store
  \<^verbatim>\<open>Noop\<close>, whose \<^verbatim>\<open>Create\<close> succeeds and whose \<^verbatim>\<open>Exists\<close> is always false: after a failed
  archive step the path is not reported, and archiving the day again fails as before, not
  with a conflict.
\<close>

theorem created_file_stays:
  assumes ex: "Exists (store a) (fileName_of date) (sto w) = (False, None)"
    and cr: "Create (store a) (fileName_of date) (sto w) = (Inr wc, f)"
    and created: "Exists (store a) (fileName_of date) f = (True, None)"
    and keepW: "\<And>bs f'. Exists (store a) (fileName_of date) f' = (True, None)
                  \<Longrightarrow> Exists (store a) (fileName_of date) (snd (Write wc bs f')) = (True, None)"
    and keepC: "\<And>f'. Exists (store a) (fileName_of date) f' = (True, None)
                  \<Longrightarrow> Exists (store a) (fileName_of date) (snd (Close wc f')) = (True, None)"
    and dflt: "\<not> ignoreFileExistsError a"
  shows "Exists (store a) (fileName_of date) (sto (snd (archiveDocuments gz a ctx date w)))
           = (True, None)
         \<and> fst (archiveDocuments gz a ctx date (snd (archiveDocuments gz a ctx date w)))
             = Some (errors_New ''target file exists'')"
proof -
  define p where "p = fileName_of date"
  define I where "I = (\<lambda>f'. Exists (store a) p f' = (True, None))"
  define wC where "wC = (emit (Call_Create p)
                  (emit (Slog LevelInfo ''writing to file'' [slog_String ''fileName'' p])
                     (emit (Call_Exists p) w)))\<lparr>sto := f\<rparr>"
  obtain e4 w4 where wg: "writeAndCloseGzip gz a ctx date wc wC = (e4, w4)"
    by (cases "writeAndCloseGzip gz a ctx date wc wC")
  obtain e5 w5 where sc: "sink_Close wc w4 = (e5, w5)"
    by (cases "sink_Close wc w4")
  have i0: "I (sto wC)" using created by (simp add: I_def wC_def p_def)
  have i4: "I (sto w4)"
    by (rule writeAndCloseGzip_inv [where I = I, OF wg i0]) (simp add: I_def p_def keepW)
  have i5: "I (sto w5)"
    using sink_Close_frame [OF sc] i4 keepC by (simp add: I_def p_def)
  have res: "snd (archiveDocuments gz a ctx date w) = w5"
    using ex cr wg sc
    by (simp add: archiveDocuments_def Let_def p_def [symmetric] wC_def [symmetric])
  have again: "fst (archiveDocuments gz a ctx date w5) = Some (errors_New ''target file exists'')"
    using i5 dflt by (simp add: archiveDocuments_def Let_def I_def p_def)
  show ?thesis
    unfolding res using i5 again by (simp add: I_def p_def)
qed

theorem created_file_stays_witness:
  "fst (archiveDocuments storedGzip (NewArchiver MongoDB mockStore False False 0) context_Background
          (nov 1) brokenRun)
     = Some (joinError [errors_New ''connection reset'',
                        fmt_Errorf ''failed to close file: %w'' (errors_New ''force-close-error'')])
   \<and> Exists mockStore ''2024/11/01.json.gz''
         (sto (snd (archiveDocuments storedGzip (NewArchiver MongoDB mockStore False False 0)
                      context_Background (nov 1) brokenRun)))
       = (True, None)
   \<and> fst (archiveDocuments storedGzip (NewArchiver MongoDB mockStore False False 0)
            context_Background (nov 1)
            (snd (archiveDocuments storedGzip (NewArchiver MongoDB mockStore False False 0)
                    context_Background (nov 1) brokenRun)))
       = Some (errors_New ''target file exists'')"
proof -
  define a where "a = NewArchiver MongoDB mockStore False False (0::int)"
  define p where "p = ''2024/11/01.json.gz''"
  define wc where "wc = errCloser p (Some (errors_New ''force-close-error''))"
  define f where "f = (sto brokenRun)\<lparr>files := (files (sto brokenRun))(p \<mapsto> [])\<rparr>"
  have fn: "fileName_of (nov 1) = p" by (simp add: fileName_nov p_def)
  have sa: "store a = mockStore" by (simp add: a_def NewArchiver_def)
  have ex: "Exists (store a) (fileName_of (nov 1)) (sto brokenRun) = (False, None)"
    by (simp add: sa mockStore_def mockStorage_Exists_def brokenRun_def)
  have cr: "Create (store a) (fileName_of (nov 1)) (sto brokenRun) = (Inr wc, f)"
    by (simp add: sa mockStore_def mockStorage_Create_def brokenRun_def wc_def f_def fn)
  have created: "Exists (store a) (fileName_of (nov 1)) f = (True, None)"
    by (simp add: sa mockStore_def mockStorage_Exists_def f_def fn)
  have keepW: "Exists (store a) (fileName_of (nov 1)) (snd (Write wc bs f')) = (True, None)"
    if "Exists (store a) (fileName_of (nov 1)) f' = (True, None)" for bs f'
    using that by (auto simp: sa mockStore_def mockStorage_Exists_def wc_def mock_Write fn)
  have keepC: "Exists (store a) (fileName_of (nov 1)) (snd (Close wc f')) = (True, None)"
    if "Exists (store a) (fileName_of (nov 1)) f' = (True, None)" for f'
    using that by (simp add: wc_def mock_Write)
  have dflt: "\<not> ignoreFileExistsError a" by (simp add: a_def NewArchiver_def)
  note T = created_file_stays [OF ex cr created keepW keepC dflt, of storedGzip context_Background]
  have ev: "fst (archiveDocuments storedGzip a context_Background (nov 1) brokenRun)
     = Some (joinError [errors_New ''connection reset'',
                        fmt_Errorf ''failed to close file: %w'' (errors_New ''force-close-error'')])"
    by (simp add: a_def NewArchiver_def mock_archive_eq brokenRun_def fileName_nov MongoDB_def
        MongoDB_FindAllFromDate_def deferredClose_def errors_Join_def List.map_filter_def)
  show ?thesis
    using T ev unfolding a_def [symmetric] by (simp add: sa fn p_def)
qed

theorem created_file_stays_counterexample:
  "fst (Create Noop (fileName_of (nov 1)) (sto discardedRun)) = Inr nopCloser
   \<and> fst (archiveDocuments storedGzip (NewArchiver MongoDB Noop False False 0) context_Background
            (nov 1) discardedRun)
       = Some (errors_New ''connection reset'')
   \<and> Exists Noop (fileName_of (nov 1))
         (sto (snd (archiveDocuments storedGzip (NewArchiver MongoDB Noop False False 0)
                      context_Background (nov 1) discardedRun)))
       = (False, None)
   \<and> fst (archiveDocuments storedGzip (NewArchiver MongoDB Noop False False 0) context_Background
            (nov 1)
            (snd (archiveDocuments storedGzip (NewArchiver MongoDB Noop False False 0)
                    context_Background (nov 1) discardedRun)))
       = Some (errors_New ''connection reset'')
   \<and> errors_New ''connection reset'' \<noteq> errors_New ''target file exists''"
  by (simp add: archiveDocuments_def Let_def NewArchiver_def Noop_def nopCloser_def discardedRun_def
      writeAndCloseGzip_def NewWriterLevel_default writeDocuments_def MongoDB_def
      MongoDB_FindAllFromDate_def gzip_Close_def sink_Write_def sink_Close_def storedGzip_def)

section \<open>Reading an archive back\<close>

text \<open>
  Claim C3, as the code has it. Take a day whose file does not exist yet, in a store that
  creates it empty and whose writer appends what it is given and closes without error;
  \<open>content\<close> reads the day's file in a state of the store. Let the extraction yield the
  documents \<open>docs\<close> and no terminal error, and let no document contain a newline byte.
  Then \<^verbatim>\<open>archiveDocuments\<close> returns nil, and the file holds the gzip stream of the documents,
  each followed by one newline, in the order of extraction. If \<open>gunzip\<close> decodes that
  stream (the one assumption on the compressor), splitting the decoded bytes on newlines
  gives back \<open>docs\<close>.

  The claim as it was stated holds this of every sequence of byte strings. The archiver
  writes a document as it is, so a document with a newline byte in it comes back as two
  lines: the document \<^verbatim>\<open>a\nb\<close> of the in-memory source is read back as \<^verbatim>\<open>a\<close> and \<^verbatim>\<open>b\<close>.
\<close>

theorem archive_roundtrip:
  assumes ex: "Exists (store a) (fileName_of date) (sto w) = (False, None)"
    and cr: "Create (store a) (fileName_of date) (sto w) = (Inr wc, f)"
    and empty: "content f = Some []"
    and wr: "\<And>bs f' b. content f' = Some b \<Longrightarrow>
               fst (Write wc bs f') = None \<and> content (snd (Write wc bs f')) = Some (b @ bs)"
    and cl: "\<And>f' b. content f' = Some b \<Longrightarrow>
               fst (Close wc f') = None \<and> content (snd (Close wc f')) = Some b"
    and find: "FindAllFromDate (source a) date (src w) = \<lparr>Iter = docs, Err = None\<rparr>"
    and nl: "\<forall>doc\<in>set docs. newline \<notin> set doc"
    and codec: "gunzip (gzipOutput gz [] (withNewlines docs)) = Some (concat (withNewlines docs))"
  shows "fst (archiveDocuments gz a ctx date w) = None
         \<and> content (sto (snd (archiveDocuments gz a ctx date w)))
             = Some (gzipOutput gz [] (withNewlines docs))
         \<and> gunzip (gzipOutput gz [] (withNewlines docs))
             = Some (concat (map (\<lambda>doc. doc @ [newline]) docs))
         \<and> map_option splitLines (gunzip (gzipOutput gz [] (withNewlines docs))) = Some docs"
proof -
  define p where "p = fileName_of date"
  define z where "z = \<lparr>gz_w = wc, gz_level = DefaultCompression, gz_input = [], gz_err = None,
                       gz_closed = False\<rparr>"
  define wC where "wC = (emit (Call_Create p)
                  (emit (Slog LevelInfo ''writing to file'' [slog_String ''fileName'' p])
                     (emit (Call_Exists p) w)))\<lparr>sto := f\<rparr>"
  define w0 where "w0 = emit (Call_FindAllFromDate date) wC"
  have z: "gz_w z = wc" "gz_err z = None" "gz_input z = []" "\<not> gz_closed z"
    by (simp_all add: z_def)
  have c0: "content (sto w0) = Some []" by (simp add: w0_def wC_def empty)
  have fr: "FindAllFromDate (source a) date (src w0) = \<lparr>Iter = docs, Err = None\<rparr>"
    by (simp add: w0_def wC_def find)
  define z1 where "z1 = z\<lparr>gz_input := gz_input z @ concat (withNewlines docs)\<rparr>"
  obtain w1 where it: "iterDocuments gz docs z 0 w0 = (None, z1, 0 + int (length docs), w1)"
    "content (sto w1) = Some ([] @ gzipWritten gz (gz_input z) (withNewlines docs))"
    using appending_iterDocuments [where content = content, OF wr z(1,2) c0, of gz docs 0]
    unfolding z1_def by blast
  define w2 where "w2 = emit (Slog LevelInfo ''documents written''
                                 [slog_Int ''total'' (int (length docs))]) w1"
  have wd: "writeDocuments gz a ctx date z wC = (None, z1, w2)"
    unfolding writeDocuments_def Let_def w0_def [symmetric] fr
    using it(1) by (simp add: w2_def)
  have c2: "content (sto w2) = Some (gzipWritten gz [] (withNewlines docs))"
    using it(2) by (simp add: w2_def z(3))
  define out where "out = onClose gz (concat (withNewlines docs))"
  define w3 where "w3 = emit Call_gzip_Close w2"
  obtain e4 f4 where w4: "Write wc out (sto w3) = (e4, f4)" by (cases "Write wc out (sto w3)")
  have c3: "content (sto w3) = Some (gzipWritten gz [] (withNewlines docs))"
    using c2 by (simp add: w3_def)
  have r4: "e4 = None" "content f4 = Some (gzipOutput gz [] (withNewlines docs))"
    using wr [OF c3, of out] w4 by (simp_all add: gzipOutput_split out_def)
  have z1p: "gz_err z1 = None" "\<not> gz_closed z1" "gz_w z1 = wc"
    "gz_input z1 = concat (withNewlines docs)"
    by (simp_all add: z1_def z_def)
  define w5 where "w5 = (emit (Call_Write out) w3)\<lparr>sto := f4\<rparr>"
  have gc: "gzip_Close gz z1 w2 = (None, z1\<lparr>gz_closed := True, gz_err := None\<rparr>, w5)"
    using z1p w4 r4(1)
    by (simp add: gzip_Close_def Let_def sink_Write_def w3_def [symmetric] out_def [symmetric]
        w5_def)
  have c5: "content (sto w5) = Some (gzipOutput gz [] (withNewlines docs))"
    by (simp add: w5_def r4(2))
  obtain e6 f6 where w6: "Close wc (sto (emit Call_Close w5)) = (e6, f6)"
    by (cases "Close wc (sto (emit Call_Close w5))")
  have r6: "e6 = None" "content f6 = Some (gzipOutput gz [] (withNewlines docs))"
    using cl [OF c5] w6 by simp_all
  have res: "archiveDocuments gz a ctx date w = (None, (emit Call_Close w5)\<lparr>sto := f6\<rparr>)"
    using ex cr wd gc w6 r6(1)
    by (simp add: archiveDocuments_def Let_def p_def [symmetric] wC_def [symmetric]
        writeAndCloseGzip_def NewWriterLevel_default z_def [symmetric] sink_Close_def)
  have sp: "map_option splitLines (gunzip (gzipOutput gz [] (withNewlines docs))) = Some docs"
    using codec splitLines_withNewlines [OF nl] by simp
  show ?thesis
    unfolding res using r6(2) codec sp by (simp add: withNewlines_def)
qed

theorem archive_roundtrip_witness:
  "FindAllFromDate MongoDB (nov 2) (src (scenario ''a'' ''b'' ''c'' ''d'' ''e''))
     = \<lparr>Iter = [''b'', ''c''], Err = None\<rparr>
   \<and> fst (archiveDocuments storedGzip (NewArchiver MongoDB mockStore False False 0)
            context_Background (nov 2) (scenario ''a'' ''b'' ''c'' ''d'' ''e'')) = None
   \<and> files (sto (snd (archiveDocuments storedGzip (NewArchiver MongoDB mockStore False False 0)
            context_Background (nov 2) (scenario ''a'' ''b'' ''c'' ''d'' ''e''))))
         ''2024/11/02.json.gz''
       = Some (''b'' @ [newline] @ ''c'' @ [newline])
   \<and> map_option splitLines (storedGunzip (''b'' @ [newline] @ ''c'' @ [newline]))
       = Some [''b'', ''c'']"
proof -
  define a where "a = NewArchiver MongoDB mockStore False False (0::int)"
  define w where "w = scenario ''a'' ''b'' ''c'' ''d'' ''e''"
  define p where "p = ''2024/11/02.json.gz''"
  define wc where "wc = errCloser p None"
  define f where "f = (sto w)\<lparr>files := (files (sto w))(p \<mapsto> [])\<rparr>"
  define content where "content = (\<lambda>m::mockStorage. files m p)"
  have fn: "fileName_of (nov 2) = p" by (simp add: fileName_nov p_def)
  have sa: "store a = mockStore" "source a = MongoDB" by (simp_all add: a_def NewArchiver_def)
  have ex: "Exists (store a) (fileName_of (nov 2)) (sto w) = (False, None)"
    by (simp add: sa mockStore_def mockStorage_Exists_def w_def scenario_def newMockStorage_def)
  have cr: "Create (store a) (fileName_of (nov 2)) (sto w) = (Inr wc, f)"
    by (simp add: sa mockStore_def mockStorage_Create_def w_def scenario_def newMockStorage_def
        wc_def f_def fn)
  have empty: "content f = Some []" by (simp add: content_def f_def)
  have wr: "fst (Write wc bs f') = None \<and> content (snd (Write wc bs f')) = Some (b @ bs)"
    if "content f' = Some b" for bs f' b
    using that by (simp add: content_def wc_def mock_Write)
  have cl: "fst (Close wc f') = None \<and> content (snd (Close wc f')) = Some b"
    if "content f' = Some b" for f' b
    using that by (simp add: content_def wc_def mock_Write)
  have find: "FindAllFromDate (source a) (nov 2) (src w) = \<lparr>Iter = [''b'', ''c''], Err = None\<rparr>"
    by (simp add: sa MongoDB_def MongoDB_FindAllFromDate_def w_def scenario_def)
  have nl: "\<forall>doc\<in>set [''b'', ''c'']. newline \<notin> set doc" by (simp add: newline_def)
  have codec: "storedGunzip (gzipOutput storedGzip [] (withNewlines [''b'', ''c'']))
                 = Some (concat (withNewlines [''b'', ''c'']))"
    by (simp add: storedGunzip_def storedGzip_def withNewlines_def)
  note T = archive_roundtrip [where content = content and gunzip = storedGunzip,
      OF ex cr empty wr cl find nl codec, of context_Background]
  have out: "gzipOutput storedGzip [] (withNewlines [''b'', ''c''])
               = ''b'' @ [newline] @ ''c'' @ [newline]"
    by (simp add: storedGzip_def withNewlines_def)
  have t1: "fst (archiveDocuments storedGzip a context_Background (nov 2) w) = None"
    and t2: "files (sto (snd (archiveDocuments storedGzip a context_Background (nov 2) w))) p
               = Some (''b'' @ [newline] @ ''c'' @ [newline])"
    and t3: "map_option splitLines (storedGunzip (''b'' @ [newline] @ ''c'' @ [newline]))
               = Some [''b'', ''c'']"
    using T unfolding out content_def by blast+
  show ?thesis
    using find t1 t2 t3 unfolding a_def w_def p_def sa [unfolded a_def] by (intro conjI)
qed

theorem archive_roundtrip_counterexample:
  "FindAllFromDate mockSource (nov 1) (src twoLineRun)
     = \<lparr>Iter = [''a'' @ [newline] @ ''b''], Err = None\<rparr>
   \<and> fst (archiveDocuments storedGzip (NewArchiver mockSource mockStore False False 0)
            context_Background (nov 1) twoLineRun) = None
   \<and> files (sto (snd (archiveDocuments storedGzip (NewArchiver mockSource mockStore False False 0)
            context_Background (nov 1) twoLineRun)))
         ''2024/11/01.json.gz''
       = Some (''a'' @ [newline] @ ''b'' @ [newline])
   \<and> map_option splitLines (storedGunzip (''a'' @ [newline] @ ''b'' @ [newline]))
       = Some [''a'', ''b'']
   \<and> [''a'', ''b''] \<noteq> [''a'' @ [newline] @ ''b'']"
proof -
  have s: "src twoLineRun = [(nov 1, [''a'' @ [newline] @ ''b''])]"
    by (simp add: twoLineRun_def add_def newMockDocumentSource_def)
  have f: "FindAllFromDate mockSource (nov 1) (src twoLineRun)
     = \<lparr>Iter = [''a'' @ [newline] @ ''b''], Err = None\<rparr>"
    by (simp add: s mockSource_def mock_FindAllFromDate_def)
  have sp: "splitLines (''a'' @ [newline] @ ''b'' @ [newline]) = [''a'', ''b'']"
    by (simp add: splitLines_def newline_def)
  have ar: "archiveDocuments storedGzip (NewArchiver mockSource mockStore False False 0)
            context_Background (nov 1) twoLineRun
        = (None, twoLineRun\<lparr>sto := \<lparr>files = [''2024/11/01.json.gz'' \<mapsto>
                                                ''a'' @ [newline] @ ''b'' @ [newline]],
                                      forceCloseError = None\<rparr>,
              events := [Call_Exists ''2024/11/01.json.gz'',
                         Slog LevelInfo ''writing to file''
                           [slog_String ''fileName'' ''2024/11/01.json.gz''],
                         Call_Create ''2024/11/01.json.gz'',
                         Call_FindAllFromDate (nov 1),
                         Call_Write (''a'' @ [newline] @ ''b'' @ [newline]),
                         Slog LevelInfo ''documents written'' [slog_Int ''total'' 1],
                         Call_gzip_Close, Call_Write [], Call_Close]\<rparr>)"
    using f
    by (simp add: NewArchiver_def mock_archive_eq fileName_nov twoLineRun_def newMockStorage_def
        storedGzip_def withNewlines_def)
  show ?thesis
    unfolding ar using f sp by (simp add: storedGunzip_def)
qed

end
